(* ===== verification/Prelude.thy ===== *)
theory Prelude
  imports
    Main
    "HOL-Library.AList"
    "HOL-Library.State_Monad"
begin

text \<open>
  What every component of the development shares: the Go error values, Go maps as
  association lists in iteration order, the state monad in which every stateful
  operation is written, and the two proof calculi the component proofs rest on,
  weakest preconditions (collection \<open>wp\<close>) and frame conditions (collection
  \<open>frame\<close>).
\<close>

named_theorems wp \<open>weakest precondition equations of the state monad and of the operations\<close>
named_theorems frame \<open>rules that an operation keeps a component of the state\<close>

section \<open>Errors\<close>

text \<open>
  \<open>error\<close> values as the code builds them. A message is its format string with the
  arguments in order, so no text is concatenated: \<open>Status c f xs\<close> is
  \<open>status.Errorf(c, f, xs...)\<close> (\<open>status.Error(c, err.Error())\<close> is written with the
  format \<open>%v\<close>), \<open>Errorf f xs\<close> is \<open>fmt.Errorf(f, xs...)\<close> without a \<open>%w\<close> verb and
  \<open>Wrapf f xs e\<close> is \<open>fmt.Errorf\<close> whose \<open>%w\<close> verb wraps \<open>e\<close>.
  An operating system error carries what the code asks of it: \<open>os.IsNotExist\<close> and
  the classification by \<open>mount.IsCorruptedMnt\<close>.
  \<open>ErrMountAlreadyHealthy\<close> is the sentinel \<open>errMountAlreadyHealthy\<close> of
  pkg/rclone/mount_health.go.
\<close>

datatype grpc_code = Canceled | Unknown | InvalidArgument | DeadlineExceeded | FailedPrecondition
  | Aborted | Unimplemented | Internal | Unavailable

record os_err =
  oe_msg :: string
  oe_not_exist :: bool
  oe_corrupted :: bool

datatype gerr =
    Status grpc_code string "arg list"
  | Errorf string "arg list"
  | Wrapf string "arg list" gerr
  | OsError os_err
  | ErrMountAlreadyHealthy
  | ExtError string
and arg = S string | E gerr | N int

text \<open>\<open>errors.Is(err, errMountAlreadyHealthy)\<close> follows the \<open>%w\<close> chain.\<close>

fun errors_Is_healthy :: "gerr \<Rightarrow> bool" where
  "errors_Is_healthy ErrMountAlreadyHealthy = True"
| "errors_Is_healthy (Wrapf _ _ e) = errors_Is_healthy e"
| "errors_Is_healthy _ = False"

fun status_code :: "gerr \<Rightarrow> grpc_code" where
  "status_code (Status c _ _) = c"
| "status_code _ = Unknown"

section \<open>Go maps\<close>

text \<open>
  A Go map is an association list with distinct keys. Its order is the order in which
  a \<open>range\<close> over it visits the entries, which Go leaves open: a theorem about a loop
  over a map therefore holds for every order when it holds for every list.
\<close>

type_synonym smap = "(string \<times> string) list"

text \<open>\<open>m[k]\<close> of a string map: the zero value when the key is absent.\<close>

definition mget :: "smap \<Rightarrow> string \<Rightarrow> string" where
  "mget m k = (case map_of m k of None \<Rightarrow> '''' | Some v \<Rightarrow> v)"

text \<open>\<open>maps.Copy(dst, src)\<close> and the loops that have its effect.\<close>

fun map_copy :: "('k \<times> 'v) list \<Rightarrow> ('k \<times> 'v) list \<Rightarrow> ('k \<times> 'v) list" where
  "map_copy dst [] = dst"
| "map_copy dst ((k, v) # src) = map_copy (AList.update k v dst) src"

abbreviation keys :: "('k \<times> 'v) list \<Rightarrow> 'k list" where
  "keys m \<equiv> map fst m"

lemma map_of_update [simp]: "map_of (AList.update k v m) = (map_of m)(k \<mapsto> v)"
  by (simp add: update_conv')

lemma map_of_delete [simp]: "map_of (AList.delete k m) = (map_of m)(k := None)"
  by (simp add: delete_conv')

lemma mget_update [simp]: "mget (AList.update k v m) k' = (if k' = k then v else mget m k')"
  by (simp add: mget_def)

lemma mget_Some [simp]: "map_of m k = Some v \<Longrightarrow> mget m k = v"
  by (simp add: mget_def)

lemma mget_None [simp]: "map_of m k = None \<Longrightarrow> mget m k = ''''"
  by (simp add: mget_def)

lemma mget_cong: "map_of m = map_of m' \<Longrightarrow> mget m k = mget m' k"
  by (simp add: mget_def)

lemma distinct_keys_map_copy [intro]: "distinct (keys dst) \<Longrightarrow> distinct (keys (map_copy dst src))"
  by (induction dst src rule: map_copy.induct) (simp_all add: distinct_update)

lemma map_of_map_copy:
  "distinct (keys src) \<Longrightarrow> map_of (map_copy dst src) = map_of dst ++ map_of src"
proof (induction dst src rule: map_copy.induct)
  case (2 dst k v src)
  then have "map_of src k = None" by (simp add: map_of_eq_None_iff)
  with 2 show ?case
    by (auto simp: map_add_def fun_eq_iff split: option.splits)
qed simp

lemma dom_map_copy: "dom (map_of (map_copy dst src)) = dom (map_of dst) \<union> set (keys src)"
  by (induction dst src rule: map_copy.induct) auto

section \<open>The state monad\<close>

text \<open>
  A stateful Go function is a \<open>('s, 'a) state\<close>; one that returns an error too has
  \<open>'a = gerr + 'r\<close>, so that each \<open>if err != nil\<close> of the code is a case distinction.
\<close>

definition gets :: "('s \<Rightarrow> 'a) \<Rightarrow> ('s, 'a) state" where
  "gets f = State (\<lambda>s. (f s, s))"

definition modify :: "('s \<Rightarrow> 's) \<Rightarrow> ('s, unit) state" where
  "modify f = State (\<lambda>s. ((), f s))"

abbreviation ok :: "'a \<Rightarrow> ('s, gerr + 'a) state" where
  "ok x \<equiv> State_Monad.return (Inr x)"

abbreviation fail :: "gerr \<Rightarrow> ('s, gerr + 'a) state" where
  "fail e \<equiv> State_Monad.return (Inl e)"

text \<open>\<open>defer d(); body\<close>: the deferred action runs on every return of the body.\<close>

definition deferred :: "('s, unit) state \<Rightarrow> ('s, 'a) state \<Rightarrow> ('s, 'a) state" where
  "deferred d m = do { r \<leftarrow> m; d; State_Monad.return r }"

text \<open>A \<open>range\<close> loop without early exit, and one that returns the first error.\<close>

fun for_each :: "'x list \<Rightarrow> ('x \<Rightarrow> ('s, unit) state) \<Rightarrow> ('s, unit) state" where
  "for_each [] f = State_Monad.return ()"
| "for_each (x # xs) f = do { f x; for_each xs f }"

fun for_each_err :: "'x list \<Rightarrow> ('x \<Rightarrow> ('s, gerr + unit) state) \<Rightarrow> ('s, gerr + unit) state" where
  "for_each_err [] f = ok ()"
| "for_each_err (x # xs) f = do {
     r \<leftarrow> f x;
     case r of Inl e \<Rightarrow> fail e | Inr _ \<Rightarrow> for_each_err xs f }"

lemma run_gets [simp]: "run_state (gets f) s = (f s, s)"
  by (simp add: gets_def)

lemma run_modify [simp]: "run_state (modify f) s = ((), f s)"
  by (simp add: modify_def)

lemma run_deferred: "run_state (deferred d m) s =
    (fst (run_state m s), snd (run_state d (snd (run_state m s))))"
  by (simp add: deferred_def split: prod.splits)

section \<open>Weakest preconditions\<close>

definition wp :: "('s, 'a) state \<Rightarrow> ('a \<Rightarrow> 's \<Rightarrow> bool) \<Rightarrow> 's \<Rightarrow> bool" where
  "wp m Q s = (case run_state m s of (r, s') \<Rightarrow> Q r s')"

lemma wp_run: "run_state m s = (r, s') \<Longrightarrow> wp m Q s = Q r s'"
  by (simp add: wp_def)

lemma wp_runD: "wp m Q s \<Longrightarrow> run_state m s = (r, s') \<Longrightarrow> Q r s'"
  by (simp add: wp_def)

lemma wpI: "(\<And>r s'. run_state m s = (r, s') \<Longrightarrow> Q r s') \<Longrightarrow> wp m Q s"
  by (auto simp: wp_def)

lemma wp_fst: "wp m (\<lambda>r _. Q r) s = Q (fst (run_state m s))"
  by (simp add: wp_def split: prod.splits)

lemma wp_snd: "wp m (\<lambda>_ s'. Q s') s = Q (snd (run_state m s))"
  by (simp add: wp_def split: prod.splits)

lemma wp_mono: "wp m P s \<Longrightarrow> (\<And>r s'. P r s' \<Longrightarrow> Q r s') \<Longrightarrow> wp m Q s"
  by (auto simp: wp_def)

lemma wp_conjI: "wp m P s \<Longrightarrow> wp m Q s \<Longrightarrow> wp m (\<lambda>r s'. P r s' \<and> Q r s') s"
  by (auto simp: wp_def)

text \<open>
  The equations leave the final state argument off, so that the simplifier applies them
  under the \<open>\<lambda>r\<close> of a continuation too.
\<close>

lemma wp_return [wp]: "wp (State_Monad.return x) Q = Q x"
  by (simp add: wp_def fun_eq_iff)

lemma wp_bind [wp]: "wp (State_Monad.bind m f) Q = wp m (\<lambda>r. wp (f r) Q)"
  by (simp add: wp_def fun_eq_iff split: prod.splits)

lemma wp_gets [wp]: "wp (gets f) Q = (\<lambda>s. Q (f s) s)"
  by (simp add: wp_def fun_eq_iff)

lemma wp_modify [wp]: "wp (modify f) Q = (\<lambda>s. Q () (f s))"
  by (simp add: wp_def fun_eq_iff)

lemma wp_deferred [wp]: "wp (deferred d m) Q = wp m (\<lambda>r. wp d (\<lambda>_. Q r))"
  by (simp add: deferred_def wp)

lemma wp_if [wp]: "wp (if b then m else n) Q = (if b then wp m Q else wp n Q)"
  by simp

lemma wp_case_sum [wp]:
  "wp (case x of Inl e \<Rightarrow> f e | Inr v \<Rightarrow> g v) Q
    = (case x of Inl e \<Rightarrow> wp (f e) Q | Inr v \<Rightarrow> wp (g v) Q)"
  by (simp split: sum.splits)

lemma wp_case_option [wp]:
  "wp (case x of None \<Rightarrow> m | Some v \<Rightarrow> g v) Q
    = (case x of None \<Rightarrow> wp m Q | Some v \<Rightarrow> wp (g v) Q)"
  by (simp split: option.splits)

lemma wp_case_prod [wp]: "wp (case x of (a, b) \<Rightarrow> g a b) Q = (case x of (a, b) \<Rightarrow> wp (g a b) Q)"
  by (simp split: prod.splits)

lemma wp_for_each_Nil [wp]: "wp (for_each [] f) Q = Q ()"
  by (simp add: wp)

lemma wp_for_each_Cons [wp]:
  "wp (for_each (x # xs) f) Q = wp (f x) (\<lambda>_. wp (for_each xs f) Q)"
  by (simp add: wp)

section \<open>Frame conditions\<close>

text \<open>\<open>keeps p m\<close>: running \<open>m\<close> leaves the component \<open>p\<close> of the state as it was.\<close>

definition keeps :: "('s \<Rightarrow> 'x) \<Rightarrow> ('s, 'a) state \<Rightarrow> bool" where
  "keeps p m \<longleftrightarrow> (\<forall>s. p (snd (run_state m s)) = p s)"

lemma keepsD: "keeps p m \<Longrightarrow> p (snd (run_state m s)) = p s"
  by (simp add: keeps_def)

lemma keeps_run: "keeps p m \<Longrightarrow> run_state m s = (r, s') \<Longrightarrow> p s' = p s"
  by (metis keepsD snd_conv)

lemma wp_keeps: "keeps p m \<Longrightarrow> wp m (\<lambda>_ s'. p s' = p s) s"
  by (simp add: wp_snd keepsD)

lemma keeps_return [frame]: "keeps p (State_Monad.return x)"
  by (simp add: keeps_def)

lemma keeps_bind [frame]: "keeps p m \<Longrightarrow> (\<And>x. keeps p (f x)) \<Longrightarrow> keeps p (State_Monad.bind m f)"
  by (simp add: keeps_def split: prod.splits) (metis snd_conv)

lemma keeps_gets [frame]: "keeps p (gets f)"
  by (simp add: keeps_def)

lemma keeps_modify: "(\<And>s. p (f s) = p s) \<Longrightarrow> keeps p (modify f)"
  by (simp add: keeps_def)

lemma keeps_deferred [frame]: "keeps p d \<Longrightarrow> keeps p m \<Longrightarrow> keeps p (deferred d m)"
  by (auto simp: deferred_def intro!: frame)

lemma keeps_if [frame]: "(b \<Longrightarrow> keeps p m) \<Longrightarrow> (\<not> b \<Longrightarrow> keeps p n) \<Longrightarrow> keeps p (if b then m else n)"
  by simp

lemma keeps_case_sum [frame]:
  "(\<And>e. keeps p (f e)) \<Longrightarrow> (\<And>v. keeps p (g v)) \<Longrightarrow> keeps p (case x of Inl e \<Rightarrow> f e | Inr v \<Rightarrow> g v)"
  by (simp split: sum.splits)

lemma keeps_case_option [frame]:
  "keeps p m \<Longrightarrow> (\<And>v. keeps p (g v)) \<Longrightarrow> keeps p (case x of None \<Rightarrow> m | Some v \<Rightarrow> g v)"
  by (simp split: option.splits)

lemma keeps_case_prod [frame]: "(\<And>a b. keeps p (g a b)) \<Longrightarrow> keeps p (case x of (a, b) \<Rightarrow> g a b)"
  by (simp split: prod.splits)

lemma keeps_let [frame]: "keeps p (f x) \<Longrightarrow> keeps p (let y = x in f y)"
  by simp

lemma keeps_for_each [frame]: "(\<And>x. keeps p (f x)) \<Longrightarrow> keeps p (for_each xs f)"
  by (induction xs) (auto intro!: frame)

lemma keeps_for_each_err [frame]: "(\<And>x. keeps p (f x)) \<Longrightarrow> keeps p (for_each_err xs f)"
  by (induction xs) (auto intro!: frame)

end
