(* ===== verification/Go_Strings.thy ===== *)
theory Go_Strings
  imports Prelude "HOL-Library.Sublist" "HOL-Library.Char_ord" "HOL-Library.List_Lexorder"
begin

text \<open>
  The functions of Go's packages \<open>strings\<close>, \<open>bytes\<close> and \<open>strconv\<close> that the code
  uses, on strings as byte lists. Case conversion and white space are those of ASCII, which
  is what Go does on ASCII text; other bytes are left unchanged.
\<close>

section \<open>Case\<close>

definition lower_char :: "char \<Rightarrow> char" where
  "lower_char c = (let n = (of_char c :: nat) in if 65 \<le> n \<and> n \<le> 90 then char_of (n + 32) else c)"

definition toLower :: "string \<Rightarrow> string" where
  "toLower s = map lower_char s"

definition equalFold :: "string \<Rightarrow> string \<Rightarrow> bool" where
  "equalFold s t = (toLower s = toLower t)"

lemma lower_char_idem [simp]: "lower_char (lower_char c) = lower_char c"
  by (simp add: lower_char_def Let_def)

lemma toLower_idem [simp]: "toLower (toLower s) = toLower s"
  by (simp add: toLower_def)

lemma toLower_Nil [simp]: "toLower [] = []"
  by (simp add: toLower_def)

lemma toLower_eq_Nil [simp]: "toLower s = [] \<longleftrightarrow> s = []"
  by (simp add: toLower_def)

lemma toLower_append [simp]: "toLower (s @ t) = toLower s @ toLower t"
  by (simp add: toLower_def)

lemma length_toLower [simp]: "length (toLower s) = length s"
  by (simp add: toLower_def)

section \<open>Prefixes, suffixes, search\<close>

definition hasPrefix :: "string \<Rightarrow> string \<Rightarrow> bool" where
  "hasPrefix s p = (take (length p) s = p)"

definition hasSuffix :: "string \<Rightarrow> string \<Rightarrow> bool" where
  "hasSuffix s p = hasPrefix (rev s) (rev p)"

definition trimPrefix :: "string \<Rightarrow> string \<Rightarrow> string" where
  "trimPrefix s p = (if hasPrefix s p then drop (length p) s else s)"

fun contains_str :: "string \<Rightarrow> string \<Rightarrow> bool" where
  "contains_str s sub = (hasPrefix s sub \<or> (case s of [] \<Rightarrow> False | _ # t \<Rightarrow> contains_str t sub))"

declare contains_str.simps [simp del]

lemma hasPrefix_iff: "hasPrefix s p \<longleftrightarrow> (\<exists>t. s = p @ t)"
  by (metis append_eq_conv_conj append_take_drop_id hasPrefix_def)

lemma hasPrefix_append [simp]: "hasPrefix (p @ s) p"
  by (simp add: hasPrefix_def)

lemma hasSuffix_iff: "hasSuffix s p \<longleftrightarrow> (\<exists>t. s = t @ p)"
proof -
  have "hasSuffix s p \<longleftrightarrow> (\<exists>t. rev s = rev p @ t)"
    by (simp add: hasSuffix_def hasPrefix_iff)
  also have "\<dots> \<longleftrightarrow> (\<exists>t. s = t @ p)"
    by (metis rev_append rev_rev_ident)
  finally show ?thesis .
qed

lemma contains_str_iff: "contains_str s sub \<longleftrightarrow> (\<exists>a b. s = a @ sub @ b)"
proof (induction s)
  case Nil
  then show ?case by (auto simp: contains_str.simps [of "[]"] hasPrefix_def)
next
  case (Cons c s)
  have "contains_str (c # s) sub \<longleftrightarrow> (\<exists>b. c # s = sub @ b) \<or> (\<exists>a b. s = a @ sub @ b)"
    using Cons by (simp add: contains_str.simps [of "c # s"] hasPrefix_iff)
  also have "\<dots> \<longleftrightarrow> (\<exists>a b. c # s = a @ sub @ b)"
    by (metis append_Cons append_Nil list.exhaust list.inject)
  finally show ?case .
qed

section \<open>Replacing\<close>

text \<open>
  \<open>strings.ReplaceAll\<close>: scan from the left; a match is replaced and the scan goes on
  behind it, so the replacement text is not scanned again. An empty \<open>old\<close> matches at
  the start and behind every character.
\<close>

function replace_scan :: "string \<Rightarrow> string \<Rightarrow> string \<Rightarrow> string" where
  "replace_scan [] old new = []"
| "replace_scan (c # s) old new =
     (if old \<noteq> [] \<and> hasPrefix (c # s) old
      then new @ replace_scan (drop (length old) (c # s)) old new
      else c # replace_scan s old new)"
  by pat_completeness auto
termination
  by (relation "measure (\<lambda>(s, old, new). length s)") auto

definition replaceAll :: "string \<Rightarrow> string \<Rightarrow> string \<Rightarrow> string" where
  "replaceAll s old new =
     (if old = [] then new @ concat (map (\<lambda>c. c # new) s) else replace_scan s old new)"

lemma replace_scan_no_match:
  "\<not> contains_str s old \<Longrightarrow> replace_scan s old new = s"
proof (induction s)
  case (Cons c s)
  then show ?case by (simp add: contains_str.simps [of "c # s"])
qed simp

lemma replaceAll_no_match: "\<not> contains_str s old \<Longrightarrow> replaceAll s old new = s"
  by (cases "old = []")
     (auto simp: replaceAll_def replace_scan_no_match contains_str.simps [of s] hasPrefix_def)

lemma replace_scan_char:
  "replace_scan s [c] [d] = map (\<lambda>x. if x = c then d else x) s"
  by (induction s) (auto simp: hasPrefix_def)

lemma replaceAll_char: "replaceAll s [c] [d] = map (\<lambda>x. if x = c then d else x) s"
  by (simp add: replaceAll_def replace_scan_char)

section \<open>Splitting\<close>

text \<open>\<open>strings.Split\<close> with a one-character separator: never the empty list.\<close>

fun split_on :: "char \<Rightarrow> string \<Rightarrow> string list" where
  "split_on c [] = [ [] ]"
| "split_on c (x # xs) =
     (if x = c then [] # split_on c xs
      else (case split_on c xs of [] \<Rightarrow> [ [x] ] | y # ys \<Rightarrow> (x # y) # ys))"

text \<open>\<open>strings.Cut\<close>, \<open>strings.SplitN(s, sep, 2)\<close> and \<open>strings.Index\<close>: the text
  before and behind the first occurrence of \<open>sep\<close>.\<close>

fun cut_str :: "string \<Rightarrow> string \<Rightarrow> (string \<times> string) option" where
  "cut_str s sep =
     (if hasPrefix s sep then Some ([], drop (length sep) s)
      else (case s of [] \<Rightarrow> None
            | c # t \<Rightarrow> (case cut_str t sep of None \<Rightarrow> None | Some (a, b) \<Rightarrow> Some (c # a, b))))"

declare cut_str.simps [simp del]

lemma split_on_nonempty [simp]: "split_on c s \<noteq> []"
  by (induction s) (auto split: list.splits)

lemma split_on_no_sep: "c \<notin> set s \<Longrightarrow> split_on c s = [s]"
  by (induction s) auto

lemma split_on_append: "c \<notin> set a \<Longrightarrow> split_on c (a @ c # b) = a # split_on c b"
  by (induction a) auto

lemma set_split_on: "p \<in> set (split_on c s) \<Longrightarrow> c \<notin> set p"
proof (induction s arbitrary: p)
  case (Cons x xs)
  then show ?case
    by (cases "split_on c xs") (auto split: if_splits)
qed simp

lemma cut_str_Some: "cut_str s sep = Some (a, b) \<Longrightarrow> s = a @ sep @ b"
proof (induction s arbitrary: a b)
  case Nil
  then show ?case by (auto simp: cut_str.simps [of "[]"] hasPrefix_def split: if_splits)
next
  case (Cons c s)
  show ?case
  proof (cases "hasPrefix (c # s) sep")
    case True
    then obtain t where t: "c # s = sep @ t" by (auto simp: hasPrefix_iff)
    from True Cons.prems have "a = []" and "b = drop (length sep) (c # s)"
      by (auto simp: cut_str.simps [of "c # s"])
    with t show ?thesis by simp
  next
    case False
    with Cons.prems obtain a' where "cut_str s sep = Some (a', b)" and "a = c # a'"
      by (auto simp: cut_str.simps [of "c # s"] split: option.splits)
    with Cons.IH show ?thesis by simp
  qed
qed

lemma cut_str_None: "cut_str s sep = None \<longleftrightarrow> \<not> contains_str s sep"
proof (induction s)
  case Nil
  then show ?case by (simp add: cut_str.simps [of "[]"] contains_str.simps [of "[]"])
next
  case (Cons c s)
  then show ?case
    by (auto simp: cut_str.simps [of "c # s"] contains_str.simps [of "c # s"] split: option.splits)
qed

section \<open>White space\<close>

definition is_space :: "char \<Rightarrow> bool" where
  "is_space c = (let n = (of_char c :: nat) in n = 32 \<or> (9 \<le> n \<and> n \<le> 13))"

definition trimSpace :: "string \<Rightarrow> string" where
  "trimSpace s = rev (dropWhile is_space (rev (dropWhile is_space s)))"

text \<open>\<open>strings.Fields\<close>: the maximal runs without white space.\<close>

function fields_of :: "string \<Rightarrow> string list" where
  "fields_of s =
     (case dropWhile is_space s of [] \<Rightarrow> []
      | c # t \<Rightarrow> takeWhile (\<lambda>x. \<not> is_space x) (c # t) #
                 fields_of (dropWhile (\<lambda>x. \<not> is_space x) t))"
  by pat_completeness auto
termination
proof (relation "measure length", simp, clarsimp)
  fix s c t
  assume "dropWhile is_space s = c # t"
  then have "length (c # t) \<le> length s" by (metis length_dropWhile_le)
  then show "length (dropWhile (\<lambda>x. \<not> is_space x) t) < length s"
    using length_dropWhile_le [of "\<lambda>x. \<not> is_space x" t] by simp
qed

declare fields_of.simps [simp del]

section \<open>Numbers\<close>

definition digit_val :: "char \<Rightarrow> nat option" where
  "digit_val c = (let n = (of_char c :: nat) in if 48 \<le> n \<and> n \<le> 57 then Some (n - 48) else None)"

fun digits_val :: "nat \<Rightarrow> string \<Rightarrow> nat \<Rightarrow> nat option" where
  "digits_val base [] acc = Some acc"
| "digits_val base (c # s) acc =
     (case digit_val c of None \<Rightarrow> None
      | Some d \<Rightarrow> if d < base then digits_val base s (base * acc + d) else None)"

text \<open>\<open>strconv.Atoi\<close> on a 64-bit platform: an optional sign, then decimal digits, in range.\<close>

definition atoi :: "string \<Rightarrow> int option" where
  "atoi s =
     (let (neg, ds) = (case s of c # t \<Rightarrow> if c = CHR ''-'' then (True, t)
                                          else if c = CHR ''+'' then (False, t) else (False, s)
                       | [] \<Rightarrow> (False, []))
      in if ds = [] then None
         else (case digits_val 10 ds 0 of None \<Rightarrow> None
               | Some n \<Rightarrow> let i = (if neg then - int n else int n)
                           in if - (2 ^ 63) \<le> i \<and> i < 2 ^ 63 then Some i else None))"

text \<open>\<open>strconv.ParseUint(s, 8, 8)\<close>: octal digits, at most 255.\<close>

definition parse_octal_byte :: "string \<Rightarrow> nat option" where
  "parse_octal_byte s =
     (if s = [] then None
      else (case digits_val 8 s 0 of None \<Rightarrow> None | Some n \<Rightarrow> if n \<le> 255 then Some n else None))"

text \<open>\<open>%d\<close>.\<close>

fun nat_text :: "nat \<Rightarrow> string" where
  "nat_text n = (if n < 10 then [char_of (48 + n)] else nat_text (n div 10) @ [char_of (48 + n mod 10)])"

declare nat_text.simps [simp del]

definition int_text :: "int \<Rightarrow> string" where
  "int_text i = (if i < 0 then CHR ''-'' # nat_text (nat (- i)) else nat_text (nat i))"

end
