(* ===== verification/World.thy ===== *)
theory World
  imports Go_Strings
begin

text \<open>
  The code around the plugin that is not in the repository, as parameters. \<open>lib\<close> holds the
  pure library functions (goconfig, rclone's fspath, sha256, encoding/json, time
  formatting). \<open>env\<close> adds everything that answers from outside: the
  operating system, k8s.io/mount-utils, rclone's config storage, file systems, mounts and
  VFS, and the Kubernetes API. An answer is a function of the calls made so far, so an
  \<open>env\<close> stands for any deterministic or scripted behaviour of the outside, including
  one that changes between two calls.

  Each outside call is recorded in the \<open>trace\<close> of the \<open>world\<close> with its arguments. A
  statement about what the code did, and in which order, is a statement about the trace.
\<close>

section \<open>Values that come from outside\<close>

text \<open>
  A mounted rclone file system (\<open>*mountlib.MountPoint\<close>): an identity, whether its \<open>VFS\<close>
  pointer is set, and the option fields the metrics read.
\<close>

record mount_point =
  mp_id :: nat
  mp_vfs :: bool
  mp_deviceName :: string
  mp_volumeName :: string
  mp_vfsReadOnly :: bool
  mp_mountedOn :: int

text \<open>\<open>VFS.Stats()\<close>: an entry is \<open>None\<close> when it is missing or of another type.\<close>

record disk_cache =
  dc_bytesUsed :: "int option"
  dc_files :: "int option"
  dc_erroredFiles :: "int option"
  dc_uploadsInProgress :: "int option"
  dc_uploadsQueued :: "int option"
  dc_outOfSpace :: "bool option"

record vfs_stats =
  vs_inUse :: "int option"
  vs_metadataCache :: "(int option \<times> int option) option"
  vs_diskCache :: "disk_cache option"
  vs_errors :: "int option"

text \<open>The fields of \<open>mountlib.Options\<close> the code reads or sets.\<close>

record mount_opts =
  mo_deviceName :: string
  mo_volumeName :: string
  mo_daemon :: bool
  mo_daemonWait :: int

text \<open>An entry of the mount table (\<open>mount.MountPoint\<close>).\<close>

record mount_entry =
  me_device :: string
  me_path :: string
  me_type :: string
  me_opts :: "string list"

text \<open>\<open>unix.Statfs_t\<close>, the fields read; all are 64 bit wide on the node.\<close>

record statfs =
  st_bsize :: int
  st_blocks :: nat
  st_bavail :: nat
  st_bfree :: nat
  st_files :: nat
  st_ffree :: nat

text \<open>
  A Kubernetes Secret: the fields the state manager writes and reads. Kubernetes documents
  \<open>stringData\<close> as write-only: the stored object carries it merged into \<open>data\<close>.
\<close>

record secret =
  sec_name :: string
  sec_namespace :: string
  sec_labels :: smap
  sec_resourceVersion :: string
  sec_stringData :: smap
  sec_data :: smap

datatype api_err = AlreadyExists | NotFound | Conflict | ApiOther string

text \<open>How a \<open>select\<close> over a result, a timer and the caller's context is resolved.\<close>

datatype select_case = ResultReady | TimerFired | CtxDone bool \<comment> \<open>True: deadline exceeded, False: canceled\<close>

section \<open>The trace\<close>

text \<open>Calls to the operating system and to k8s.io/mount-utils.\<close>

datatype os_call =
    IsLikelyNotMountPoint string
  | MkdirAll string
  | ReadDir string
  | Chmod string
  | Statfs string
  | CleanupMount string bool \<comment> \<open>with force\<close>
  | BindMount string string "string list"
  | ListMounts

text \<open>Calls to rclone: options, file systems, mounts, VFS.\<close>

datatype rc_call =
    SetCacheDir string
  | SetTempDir string
  | SetLogLevel
  | DisableFeatures "string list"
  | ConfigInfoSet smap
  | ConfigReload
  | NewFs string
  | LoadMountOptions smap
  | LoadVFSOptions smap
  | ResolveMount string
  | RcloneMount string string \<comment> \<open>fsPath, target\<close>
  | PassConfigKey
  | WaitMountReady string
  | SignalDaemon
  | SignalNilDaemon \<comment> \<open>\<open>Signal\<close> on a nil \<open>*os.Process\<close>: Go panics here\<close>
  | VFSStats nat
  | RcloneUnmount nat

text \<open>Calls to rclone's process-global config storage (\<open>config.LoadedData()\<close>).\<close>

datatype cfg_call =
    CfgSet string string string \<comment> \<open>section, key, value\<close>
  | CfgUpdate string smap
  | CfgDelete string

text \<open>Calls to the Kubernetes Secrets API.\<close>

datatype kube_call =
    SecretCreate secret
  | SecretGet string
  | SecretUpdate secret
  | SecretDelete string
  | SecretList smap

text \<open>
  Calls of the recovery operator: files, signals and unmounts on the node, and the Kubernetes
  API. The object an Event is attached to is a controller owner or a pod.
\<close>

datatype event_object =
    OwnerObject string string string string string \<comment> \<open>API version, kind, namespace, name, UID\<close>
  | PodObject string string \<comment> \<open>namespace, name\<close>

datatype op_call =
    FileRead string
  | FileWrite string string
  | DirList string
  | WalkRoot string
  | WalkRead string
  | PathStat string
  | UmountDetach string
  | SignalProcess int bool \<comment> \<open>True: SIGKILL, False: SIGTERM\<close>
  | ListPodsOnNode string string \<comment> \<open>node, label selector\<close>
  | ListPodsIn string
  | PodDelete string string string \<comment> \<open>namespace, name, UID precondition\<close>
  | PodUpdate string string smap \<comment> \<open>namespace, name, annotations\<close>
  | OwnerGet string string string \<comment> \<open>kind, namespace, name\<close>
  | OwnerUpdate string string string smap
  | PvcGet string string
  | PvGet string
  | EmitEvent event_object string string "arg list" \<comment> \<open>object, reason, message\<close>

datatype ev =
    Sleep int
  | Now
  | Select
  | Cancel nat
  | Os os_call
  | Rc rc_call
  | Cfg cfg_call
  | Kube kube_call
  | Op op_call

type_synonym history = "ev list"

record world =
  trace :: history
  nextCtx :: nat \<comment> \<open>identities of contexts handed out so far\<close>

section \<open>Library functions and outside answers\<close>

text \<open>
  \<open>goconfig_Load\<close> is \<open>goconfig.LoadFromReader\<close> followed by the calls the code makes on
  its result: the sections in \<open>GetSectionList\<close> order, each with its \<open>GetKeyList\<close>, and
  for each key what \<open>GetValue\<close> returns (\<open>None\<close> for an error). \<open>vfs_options\<close> and
  \<open>mount_options\<close> are rclone's \<open>OptionsInfo\<close> tables: the names with what the global
  config map holds for them.
\<close>

record lib =
  goconfig_Load :: "string \<Rightarrow> gerr + (string \<times> (string \<times> string option) list) list"
  makeConfigName :: "string \<Rightarrow> string"
  sha256_hex :: "string \<Rightarrow> string"
  json_of_map :: "smap \<Rightarrow> string"
  map_of_json :: "string \<Rightarrow> smap option"
  json_of_list :: "string list \<Rightarrow> string"
  list_of_json :: "string \<Rightarrow> string list option"
  time_format :: "int \<Rightarrow> string"
  time_parse :: "string \<Rightarrow> int option"
  duration_text :: "int \<Rightarrow> string"
  is_config_option :: "string \<Rightarrow> bool"
  vfs_options :: "(string \<times> string option) list"
  mount_options :: "(string \<times> string option) list"

text \<open>
  \<open>rcloneMount\<close> is \<open>mountPoint.Mount()\<close>: the mount, and whether a daemon process was
  started for it (otherwise the returned process is nil).
\<close>

record os_env =
  forceUnmounter :: bool \<comment> \<open>the mounter implements \<open>mount.MounterForceUnmounter\<close>\<close>
  isLikelyNotMountPoint :: "history \<Rightarrow> string \<Rightarrow> os_err + bool"
  mkdirAll :: "history \<Rightarrow> string \<Rightarrow> os_err option"
  readDir :: "history \<Rightarrow> string \<Rightarrow> os_err option"
  chmod :: "history \<Rightarrow> string \<Rightarrow> os_err option"
  statfs_of :: "history \<Rightarrow> string \<Rightarrow> os_err + statfs"
  cleanupMount :: "history \<Rightarrow> string \<Rightarrow> gerr option"
  bindMount :: "history \<Rightarrow> string \<Rightarrow> string \<Rightarrow> string list \<Rightarrow> gerr option"
  listMounts :: "history \<Rightarrow> gerr + mount_entry list"

record rclone_env =
  setCacheDir :: "history \<Rightarrow> string \<Rightarrow> gerr option"
  setTempDir :: "history \<Rightarrow> string \<Rightarrow> gerr option"
  configInfoSet :: "history \<Rightarrow> smap \<Rightarrow> gerr option"
  configReload :: "history \<Rightarrow> gerr option"
  newFs :: "history \<Rightarrow> string \<Rightarrow> gerr option"
  loadMountOptions :: "history \<Rightarrow> smap \<Rightarrow> gerr + mount_opts"
  loadVFSOptions :: "history \<Rightarrow> smap \<Rightarrow> gerr option"
  resolveMount :: "history \<Rightarrow> string \<Rightarrow> string option"
  rcloneMount :: "history \<Rightarrow> string \<Rightarrow> string \<Rightarrow> mount_opts \<Rightarrow> gerr + mount_point \<times> bool"
  waitMountReady :: "history \<Rightarrow> string \<Rightarrow> gerr option"
  vfsStats :: "history \<Rightarrow> nat \<Rightarrow> vfs_stats"
  rcloneUnmount :: "history \<Rightarrow> nat \<Rightarrow> gerr option"
  updateRemote :: "history \<Rightarrow> string \<Rightarrow> smap \<Rightarrow> gerr option"

record kube_env =
  secretCreate :: "history \<Rightarrow> secret \<Rightarrow> api_err option"
  secretGet :: "history \<Rightarrow> string \<Rightarrow> api_err + secret"
  secretUpdate :: "history \<Rightarrow> secret \<Rightarrow> api_err option"
  secretDelete :: "history \<Rightarrow> string \<Rightarrow> api_err option"
  secretList :: "history \<Rightarrow> smap \<Rightarrow> api_err + secret list"

text \<open>
  \<open>lock_others\<close> is what the other goroutines do to the set of held volume locks while
  this one sleeps; \<open>select_of\<close> which case of a \<open>select\<close> is taken; \<open>timer_first\<close> whether
  a timer fires before the value waited for.
\<close>

record env =
  lib_of :: lib
  os_of :: os_env
  rc_of :: rclone_env
  kube_of :: kube_env
  lock_others :: "history \<Rightarrow> string set \<Rightarrow> string set"
  select_of :: "history \<Rightarrow> select_case"
  timer_first :: "history \<Rightarrow> bool"
  time_now :: "history \<Rightarrow> int"

section \<open>Outside calls\<close>

text \<open>\<open>call e f\<close> makes the call \<open>e\<close>: the answer is \<open>f\<close> of the calls before it.\<close>

definition call :: "ev \<Rightarrow> (history \<Rightarrow> 'r) \<Rightarrow> ('w world_scheme, 'r) state" where
  "call e f = State (\<lambda>s. (f (trace s), s\<lparr>trace := trace s @ [e]\<rparr>))"

definition emit :: "ev \<Rightarrow> ('w world_scheme, unit) state" where
  "emit e = call e (\<lambda>_. ())"

definition freshCtx :: "('w world_scheme, nat) state" where
  "freshCtx = State (\<lambda>s. (nextCtx s, s\<lparr>nextCtx := Suc (nextCtx s)\<rparr>))"

text \<open>Calling a \<open>context.CancelFunc\<close> that cancels the contexts \<open>cs\<close>.\<close>

definition cancelCtx :: "nat list \<Rightarrow> ('w world_scheme, unit) state" where
  "cancelCtx cs = for_each cs (\<lambda>c. emit (Cancel c))"

lemma wp_call [wp]:
  "wp (call e f) Q = (\<lambda>s. Q (f (trace s)) (s\<lparr>trace := trace s @ [e]\<rparr>))"
  by (simp add: wp_def call_def fun_eq_iff)

lemma wp_emit [wp]: "wp (emit e) Q = (\<lambda>s. Q () (s\<lparr>trace := trace s @ [e]\<rparr>))"
  by (simp add: emit_def wp)

lemma wp_freshCtx [wp]:
  "wp freshCtx Q = (\<lambda>s. Q (nextCtx s) (s\<lparr>nextCtx := Suc (nextCtx s)\<rparr>))"
  by (simp add: wp_def freshCtx_def fun_eq_iff)

lemma run_call [simp]: "run_state (call e f) s = (f (trace s), s\<lparr>trace := trace s @ [e]\<rparr>)"
  by (simp add: call_def)

lemma run_emit [simp]: "run_state (emit e) s = ((), s\<lparr>trace := trace s @ [e]\<rparr>)"
  by (simp add: emit_def)

lemma run_freshCtx [simp]: "run_state freshCtx s = (nextCtx s, s\<lparr>nextCtx := Suc (nextCtx s)\<rparr>)"
  by (simp add: freshCtx_def)

text \<open>
  A call touches nothing but the trace: any component that a trace or context update
  leaves alone is kept.
\<close>

definition off_world :: "('w world_scheme \<Rightarrow> 'x) \<Rightarrow> bool" where
  "off_world p \<longleftrightarrow> (\<forall>s t. p (s\<lparr>trace := t\<rparr>) = p s) \<and> (\<forall>s n. p (s\<lparr>nextCtx := n\<rparr>) = p s)"

lemma off_worldI:
  "(\<And>s t. p (s\<lparr>trace := t\<rparr>) = p s) \<Longrightarrow> (\<And>s n. p (s\<lparr>nextCtx := n\<rparr>) = p s) \<Longrightarrow> off_world p"
  by (simp add: off_world_def)

lemma off_world_more [frame]: "off_world world.more"
  by (simp add: off_world_def)

lemma keeps_call [frame]: "off_world p \<Longrightarrow> keeps p (call e f)"
  by (simp add: keeps_def off_world_def)

lemma keeps_emit [frame]: "off_world p \<Longrightarrow> keeps p (emit e)"
  by (simp add: keeps_def off_world_def)

lemma keeps_freshCtx [frame]: "off_world p \<Longrightarrow> keeps p freshCtx"
  by (simp add: keeps_def off_world_def)

lemma keeps_cancelCtx [frame]: "off_world p \<Longrightarrow> keeps p (cancelCtx cs)"
  by (simp add: cancelCtx_def frame)

section \<open>What an operation adds to the trace\<close>

text \<open>
  \<open>adds P m\<close>: every run of \<open>m\<close> only appends to the trace, and each appended call
  satisfies \<open>P\<close>.
\<close>

definition adds :: "(ev \<Rightarrow> bool) \<Rightarrow> ('w world_scheme, 'a) state \<Rightarrow> bool" where
  "adds P m \<longleftrightarrow> (\<forall>s. \<exists>es. trace (snd (run_state m s)) = trace s @ es \<and> list_all P es)"

lemma addsD:
  assumes "adds P m"
  obtains es where "trace (snd (run_state m s)) = trace s @ es" and "list_all P es"
  using assms by (auto simp: adds_def)

lemma adds_run:
  assumes "adds P m" and "run_state m s = (r, s')"
  obtains es where "trace s' = trace s @ es" and "list_all P es"
  by (metis adds_def assms snd_conv)

lemma adds_mono: "adds P m \<Longrightarrow> (\<And>e. P e \<Longrightarrow> Q e) \<Longrightarrow> adds Q m"
  unfolding adds_def by (metis list.pred_mono_strong)

lemma adds_return [frame]: "adds P (State_Monad.return x)"
  by (simp add: adds_def)

lemma adds_bind [frame]:
  assumes "adds P m" and "\<And>x. adds P (f x)"
  shows "adds P (State_Monad.bind m f)"
  unfolding adds_def
proof
  fix s :: "'a world_scheme"
  obtain x s1 where m: "run_state m s = (x, s1)" by fastforce
  obtain es1 where es1: "trace s1 = trace s @ es1" "list_all P es1"
    using adds_run [OF assms(1) m] .
  obtain es2 where es2: "trace (snd (run_state (f x) s1)) = trace s1 @ es2" "list_all P es2"
    using addsD [OF assms(2)] .
  show "\<exists>es. trace (snd (run_state (State_Monad.bind m f) s)) = trace s @ es \<and> list_all P es"
    using m es1 es2 by (intro exI [of _ "es1 @ es2"]) simp
qed

lemma adds_gets [frame]: "adds P (gets f)"
  by (simp add: adds_def)

lemma adds_modify: "(\<And>s. trace (f s) = trace s) \<Longrightarrow> adds P (modify f)"
  by (simp add: adds_def)

lemma adds_call [frame]: "P e \<Longrightarrow> adds P (call e f)"
  by (simp add: adds_def)

lemma adds_emit [frame]: "P e \<Longrightarrow> adds P (emit e)"
  by (simp add: adds_def)

lemma adds_freshCtx [frame]: "adds P freshCtx"
  by (simp add: adds_def)

lemma adds_deferred [frame]: "adds P d \<Longrightarrow> adds P m \<Longrightarrow> adds P (deferred d m)"
  by (auto simp: deferred_def intro!: adds_bind adds_return)

lemma adds_if [frame]: "(b \<Longrightarrow> adds P m) \<Longrightarrow> (\<not> b \<Longrightarrow> adds P n) \<Longrightarrow> adds P (if b then m else n)"
  by simp

lemma adds_case_sum [frame]:
  "(\<And>e. adds P (f e)) \<Longrightarrow> (\<And>v. adds P (g v)) \<Longrightarrow> adds P (case x of Inl e \<Rightarrow> f e | Inr v \<Rightarrow> g v)"
  by (simp split: sum.splits)

lemma adds_case_option [frame]:
  "adds P m \<Longrightarrow> (\<And>v. adds P (g v)) \<Longrightarrow> adds P (case x of None \<Rightarrow> m | Some v \<Rightarrow> g v)"
  by (simp split: option.splits)

lemma adds_case_prod [frame]: "(\<And>a b. adds P (g a b)) \<Longrightarrow> adds P (case x of (a, b) \<Rightarrow> g a b)"
  by (simp split: prod.splits)

lemma adds_let [frame]: "adds P (f x) \<Longrightarrow> adds P (let y = x in f y)"
  by simp

lemma adds_for_each [frame]: "(\<And>x. x \<in> set xs \<Longrightarrow> adds P (f x)) \<Longrightarrow> adds P (for_each xs f)"
  by (induction xs) (auto intro!: adds_bind adds_return)

lemma adds_for_each_err [frame]: "(\<And>x. x \<in> set xs \<Longrightarrow> adds P (f x)) \<Longrightarrow> adds P (for_each_err xs f)"
  by (induction xs) (auto intro!: adds_bind adds_return adds_case_sum)

text \<open>When it matters that the answer comes from the environment.\<close>

lemma adds_bind_call:
  assumes "P e" and "\<And>h. adds P (g (f h))"
  shows "adds P (State_Monad.bind (call e f) g)"
  unfolding adds_def
proof
  fix s :: "'a world_scheme"
  let ?s = "s\<lparr>trace := trace s @ [e]\<rparr>"
  obtain es where "trace (snd (run_state (g (f (trace s))) ?s)) = trace ?s @ es" "list_all P es"
    using assms(2) by (rule addsD)
  then show "\<exists>es. trace (snd (run_state (State_Monad.bind (call e f) g) s)) = trace s @ es \<and> list_all P es"
    using assms(1) by (intro exI [of _ "e # es"]) simp
qed

lemma adds_cancelCtx [frame]: "(\<And>c. c \<in> set cs \<Longrightarrow> P (Cancel c)) \<Longrightarrow> adds P (cancelCtx cs)"
  by (simp add: cancelCtx_def frame)

end
