(* ===== verification/Example_Env.thy ===== *)
theory Example_Env
  imports World
begin

text \<open>
  One concrete instance of the outside parameters, on which the properties with hypotheses
  are shown to apply: a line-based INI reader for goconfig, the identity for
  \<open>fspath.MakeConfigName\<close>, a hash of the right length, and an outside where every call
  succeeds. Nothing here models code of the repository.
\<close>

section \<open>Library functions\<close>

type_synonym ini = "(string \<times> (string \<times> string option) list) list"

fun ini_line :: "string \<Rightarrow> ini \<Rightarrow> ini" where
  "ini_line l secs =
     (case l of
        [] \<Rightarrow> secs
      | c # cs \<Rightarrow>
          if c = CHR ''['' then (butlast cs, []) # secs
          else case cut_str l '' = '' of
                 None \<Rightarrow> secs
               | Some (k, v) \<Rightarrow>
                   (case secs of
                      [] \<Rightarrow> [(''DEFAULT'', [(k, Some v)])]
                    | (n, ks) # rest \<Rightarrow> (n, ks @ [(k, Some v)]) # rest))"

definition ini_read :: "string \<Rightarrow> gerr + ini" where
  "ini_read s = Inr (rev (fold ini_line (split_on (CHR 0x0A) s) []))"

definition example_hash :: "string \<Rightarrow> string" where
  "example_hash s = take 64 (s @ replicate 64 CHR ''0'')"

definition example_lib :: lib where
  "example_lib = \<lparr>goconfig_Load = ini_read, makeConfigName = (\<lambda>s. s), sha256_hex = example_hash,
     json_of_map = (\<lambda>m. if m = [] then ''{}'' else ''{'' @ concat (map (\<lambda>(k, v). k @ '':'' @ v @ '','') m) @ ''}''),
     map_of_json = (\<lambda>s. if s = ''{}'' then Some [] else None),
     json_of_list = (\<lambda>l. if l = [] then ''[]'' else ''['' @ concat (map (\<lambda>v. v @ '','') l) @ '']''),
     list_of_json = (\<lambda>s. if s = ''[]'' then Some [] else None),
     time_format = int_text, time_parse = atoi, duration_text = int_text,
     is_config_option = (\<lambda>s. False),
     vfs_options = [(''vfs_cache_mode'', Some ''off'')], mount_options = [(''allow_other'', Some ''false'')]\<rparr>"

section \<open>The outside\<close>

definition no_os_err :: os_err where
  "no_os_err = \<lparr>oe_msg = ''file does not exist'', oe_not_exist = True, oe_corrupted = False\<rparr>"

definition example_os :: os_env where
  "example_os = \<lparr>forceUnmounter = True, isLikelyNotMountPoint = (\<lambda>h p. Inr True), mkdirAll = (\<lambda>h p. None),
     readDir = (\<lambda>h p. None), chmod = (\<lambda>h p. None),
     statfs_of = (\<lambda>h p. Inr \<lparr>st_bsize = 4096, st_blocks = 100, st_bavail = 40, st_bfree = 50,
                             st_files = 10, st_ffree = 4\<rparr>),
     cleanupMount = (\<lambda>h p. None), bindMount = (\<lambda>h a b os. None), listMounts = (\<lambda>h. Inr [])\<rparr>"

definition example_rclone :: rclone_env where
  "example_rclone = \<lparr>setCacheDir = (\<lambda>h d. None), setTempDir = (\<lambda>h d. None), configInfoSet = (\<lambda>h m. None),
     configReload = (\<lambda>h. None), newFs = (\<lambda>h p. None),
     loadMountOptions = (\<lambda>h m. Inr \<lparr>mo_deviceName = '''', mo_volumeName = '''', mo_daemon = False,
                                     mo_daemonWait = 0\<rparr>),
     loadVFSOptions = (\<lambda>h m. None), resolveMount = (\<lambda>h m. Some ''mount''),
     rcloneMount = (\<lambda>h f t os. Inr (\<lparr>mp_id = length h, mp_vfs = True, mp_deviceName = f, mp_volumeName = f,
                                     mp_vfsReadOnly = False, mp_mountedOn = 0\<rparr>, False)),
     waitMountReady = (\<lambda>h p. None),
     vfsStats = (\<lambda>h n. \<lparr>vs_inUse = None, vs_metadataCache = None, vs_diskCache = None, vs_errors = None\<rparr>),
     rcloneUnmount = (\<lambda>h n. None), updateRemote = (\<lambda>h r ps. None)\<rparr>"

definition example_kube :: kube_env where
  "example_kube = \<lparr>secretCreate = (\<lambda>h s. None), secretGet = (\<lambda>h n. Inl NotFound),
     secretUpdate = (\<lambda>h s. None), secretDelete = (\<lambda>h n. None), secretList = (\<lambda>h l. Inr [])\<rparr>"

definition example_env :: env where
  "example_env = \<lparr>lib_of = example_lib, os_of = example_os, rc_of = example_rclone, kube_of = example_kube,
     lock_others = (\<lambda>h l. l), select_of = (\<lambda>h. ResultReady), timer_first = (\<lambda>h. False),
     time_now = (\<lambda>h. int (length h))\<rparr>"

lemmas example_defs = example_env_def example_lib_def example_os_def example_rclone_def example_kube_def

definition start :: world where
  "start = \<lparr>trace = [], nextCtx = 0\<rparr>"

text \<open>A volume with a remote \<open>s3\<close> and a crypt remote on top of it.\<close>

definition example_config :: string where
  "example_config = ''[s3]'' @ [CHR 0x0A] @ ''type = s3'' @ [CHR 0x0A] @ ''[enc]'' @ [CHR 0x0A]
     @ ''type = crypt'' @ [CHR 0x0A] @ ''remote = s3:data'' @ [CHR 0x0A]"

lemma example_config_sections:
  "goconfig_Load example_lib example_config
     = Inr [(''s3'', [(''type'', Some ''s3'')]), (''enc'', [(''type'', Some ''crypt''), (''remote'', Some ''s3:data'')])]"
  by code_simp

end
