(* ===== verification/Volume_Locks.thy ===== *)
theory Volume_Locks
  imports World
begin

text \<open>
  The volume locks of pkg/rclone/utils.go (\<open>VolumeLocks\<close>), the retry around them and
  the lock keys of pkg/rclone/nodeserver.go. The locale \<open>lock_table\<close> is the contract every
  user of the locks relies on.
\<close>

section \<open>The interface\<close>

text \<open>
  A table of locks: \<open>acquire\<close> never waits and says whether it got the lock, \<open>release\<close>
  frees one, \<open>held\<close> is the abstract content.
\<close>

datatype 'k lock_op = Acquire 'k | Release_of 'k

fun lock_run :: "('k \<Rightarrow> 's \<Rightarrow> bool \<times> 's) \<Rightarrow> ('k \<Rightarrow> 's \<Rightarrow> 's) \<Rightarrow> 'k lock_op list \<Rightarrow> 's \<Rightarrow> 's" where
  "lock_run acquire release [] s = s"
| "lock_run acquire release (Acquire k # ops) s = lock_run acquire release ops (snd (acquire k s))"
| "lock_run acquire release (Release_of k # ops) s = lock_run acquire release ops (release k s)"

locale lock_table =
  fixes acquire :: "'k \<Rightarrow> 's \<Rightarrow> bool \<times> 's"
    and release :: "'k \<Rightarrow> 's \<Rightarrow> 's"
    and held :: "'s \<Rightarrow> 'k \<Rightarrow> bool"
  assumes acquire_result: "fst (acquire k s) = (\<not> held s k)"
    and held_acquire: "held (snd (acquire k s)) j = (j = k \<or> held s j)"
    and held_release: "held (release k s) j = (j \<noteq> k \<and> held s j)"
begin

lemma acquire_excludes: "\<not> fst (acquire k (snd (acquire k s)))"
  by (simp add: acquire_result held_acquire)

lemma acquire_after_release: "fst (acquire k (release k s))"
  by (simp add: acquire_result held_release)

lemma release_acquire:
  "\<not> held s k \<Longrightarrow> held (release k (snd (acquire k s))) j = held s j"
  by (auto simp: held_acquire held_release)

text \<open>A lock once held stays held until its own release.\<close>

lemma held_run: "held s k \<Longrightarrow> Release_of k \<notin> set ops \<Longrightarrow> held (lock_run acquire release ops s) k"
proof (induction ops arbitrary: s)
  case (Cons op ops)
  then show ?case
    by (cases op) (auto simp: held_acquire held_release)
qed simp

text \<open>Between two successful acquisitions of one key lies a release of it.\<close>

lemma mutual_exclusion:
  assumes "Release_of k \<notin> set ops"
  shows "\<not> fst (acquire k (lock_run acquire release ops (snd (acquire k s))))"
proof -
  have "held (snd (acquire k s)) k" by (simp add: held_acquire)
  from held_run [OF this assms] show ?thesis by (simp add: acquire_result)
qed

end

section \<open>VolumeLocks\<close>

text \<open>\<open>VolumeLocks.locks\<close>, a \<open>sets.Set[string]\<close>; the mutex makes each operation one step.\<close>

type_synonym volume_locks = "string set"

definition NewVolumeLocks :: volume_locks where
  "NewVolumeLocks = {}"

definition TryAcquire :: "string \<Rightarrow> volume_locks \<Rightarrow> bool \<times> volume_locks" where
  "TryAcquire volumeID locks =
     (if volumeID \<in> locks then (False, locks) else (True, insert volumeID locks))"

definition Release :: "string \<Rightarrow> volume_locks \<Rightarrow> volume_locks" where
  "Release volumeID locks = locks - {volumeID}"

interpretation vl: lock_table TryAcquire Release "\<lambda>locks k. k \<in> locks"
  by unfold_locales (auto simp: TryAcquire_def Release_def)

section \<open>Retrying\<close>

definition volumeLockMaxRetries :: nat where
  "volumeLockMaxRetries = 5"

definition volumeLockRetryDelay :: int where
  "volumeLockRetryDelay = 200 * 10 ^ 6"

definition volumeOperationAlreadyExistsFmt :: string where
  "volumeOperationAlreadyExistsFmt = ''An operation with the given Volume ID %s already exists''"

record lock_world = world +
  locks :: volume_locks

definition tryAcquire :: "string \<Rightarrow> ('w lock_world_scheme, bool) state" where
  "tryAcquire k = State (\<lambda>s. let (got, l) = TryAcquire k (locks s) in (got, s\<lparr>locks := l\<rparr>))"

definition releaseLock :: "string \<Rightarrow> ('w lock_world_scheme, unit) state" where
  "releaseLock k = modify (\<lambda>s. s\<lparr>locks := Release k (locks s)\<rparr>)"

text \<open>\<open>time.Sleep\<close>: the other goroutines run.\<close>

definition sleepFor :: "env \<Rightarrow> int \<Rightarrow> ('w lock_world_scheme, unit) state" where
  "sleepFor env d = do {
     others \<leftarrow> call (Sleep d) (lock_others env);
     modify (\<lambda>s. s\<lparr>locks := others (locks s)\<rparr>) }"

text \<open>
  \<open>acquireVolumeLock\<close>: at most five attempts with a sleep between two of them, then
  \<open>Aborted\<close>. The returned release function is \<open>releaseLock lockKey\<close>.
\<close>

function acquire_from :: "env \<Rightarrow> string \<Rightarrow> string \<Rightarrow> nat \<Rightarrow> ('w lock_world_scheme, gerr + unit) state" where
  "acquire_from env lockKey volumeID attempt =
     (if attempt < volumeLockMaxRetries then do {
        got \<leftarrow> tryAcquire lockKey;
        if got then ok ()
        else if attempt < volumeLockMaxRetries - 1
        then do { sleepFor env volumeLockRetryDelay; acquire_from env lockKey volumeID (Suc attempt) }
        else acquire_from env lockKey volumeID (Suc attempt) }
      else fail (Status Aborted volumeOperationAlreadyExistsFmt [S volumeID]))"
  by pat_completeness auto
termination
  by (relation "measure (\<lambda>(env, k, v, attempt). volumeLockMaxRetries - attempt)") auto

declare acquire_from.simps [simp del]

definition acquireVolumeLock :: "env \<Rightarrow> string \<Rightarrow> string \<Rightarrow> ('w lock_world_scheme, gerr + unit) state" where
  "acquireVolumeLock env lockKey volumeID = acquire_from env lockKey volumeID 0"

lemma wp_tryAcquire [wp]:
  "wp (tryAcquire k) Q =
     (\<lambda>s. if k \<in> locks s then Q False s else Q True (s\<lparr>locks := insert k (locks s)\<rparr>))"
  by (auto simp: wp_def tryAcquire_def TryAcquire_def fun_eq_iff)

lemma wp_releaseLock [wp]: "wp (releaseLock k) Q = (\<lambda>s. Q () (s\<lparr>locks := locks s - {k}\<rparr>))"
  by (simp add: releaseLock_def wp Release_def)

lemma wp_sleepFor [wp]:
  "wp (sleepFor env d) Q = (\<lambda>s. Q () (s\<lparr>trace := trace s @ [Sleep d],
                                         locks := lock_others env (trace s) (locks s)\<rparr>))"
  by (simp add: sleepFor_def wp)

lemma run_tryAcquire: "run_state (tryAcquire k) s =
    (k \<notin> locks s, if k \<in> locks s then s else s\<lparr>locks := insert k (locks s)\<rparr>)"
  by (simp add: tryAcquire_def TryAcquire_def)

text \<open>Frame: the lock operations touch the locks and the trace only.\<close>

definition off_locks :: "('w lock_world_scheme \<Rightarrow> 'x) \<Rightarrow> bool" where
  "off_locks p \<longleftrightarrow> off_world p \<and> (\<forall>s l. p (s\<lparr>locks := l\<rparr>) = p s)"

lemma off_locks_world [frame]: "off_locks p \<Longrightarrow> off_world p"
  by (simp add: off_locks_def)

lemma keeps_tryAcquire [frame]: "off_locks p \<Longrightarrow> keeps p (tryAcquire k)"
  by (simp add: keeps_def off_locks_def tryAcquire_def TryAcquire_def)

lemma keeps_releaseLock [frame]: "off_locks p \<Longrightarrow> keeps p (releaseLock k)"
  by (simp add: releaseLock_def keeps_modify off_locks_def)

lemma keeps_sleepFor [frame]: "off_locks p \<Longrightarrow> keeps p (sleepFor env d)"
  by (auto simp: sleepFor_def off_locks_def intro!: keeps_bind keeps_call keeps_modify)

lemma keeps_acquire_from [frame]: "off_locks p \<Longrightarrow> keeps p (acquire_from env k v n)"
proof (induction env k v n rule: acquire_from.induct)
  case (1 env k v n)
  then show ?case
    by (subst acquire_from.simps) (auto intro!: frame)
qed

lemma keeps_acquireVolumeLock [frame]: "off_locks p \<Longrightarrow> keeps p (acquireVolumeLock env k v)"
  by (simp add: acquireVolumeLock_def frame)

lemma adds_tryAcquire [frame]: "adds P (tryAcquire k)"
  by (simp add: adds_def tryAcquire_def TryAcquire_def)

lemma adds_releaseLock [frame]: "adds P (releaseLock k)"
  by (simp add: releaseLock_def adds_modify)

lemma adds_sleepFor [frame]: "P (Sleep d) \<Longrightarrow> adds P (sleepFor env d)"
  by (simp add: sleepFor_def adds_bind adds_call adds_modify)

lemma adds_acquire_from [frame]: "(\<And>d. P (Sleep d)) \<Longrightarrow> adds P (acquire_from env k v n)"
proof (induction env k v n rule: acquire_from.induct)
  case (1 env k v n)
  then show ?case
    by (subst acquire_from.simps) (auto intro!: frame)
qed

lemma adds_acquireVolumeLock [frame]: "(\<And>d. P (Sleep d)) \<Longrightarrow> adds P (acquireVolumeLock env k v)"
  by (simp add: acquireVolumeLock_def frame)

text \<open>
  What the attempts see: the lock set before the first attempt, then the set after each
  sleep.
\<close>

fun locks_seen :: "env \<Rightarrow> nat \<Rightarrow> history \<Rightarrow> volume_locks \<Rightarrow> volume_locks list" where
  "locks_seen env 0 h l = []"
| "locks_seen env (Suc n) h l =
     l # locks_seen env n (h @ [Sleep volumeLockRetryDelay]) (lock_others env h l)"

lemma acquire_from_succeeds:
  assumes "attempt + n = volumeLockMaxRetries"
  shows "(\<exists>u. fst (run_state (acquire_from env k v attempt) s) = Inr u)
     \<longleftrightarrow> (\<exists>l \<in> set (locks_seen env n (trace s) (locks s)). k \<notin> l)"
  using assms
proof (induction n arbitrary: attempt s)
  case 0
  then show ?case by (subst acquire_from.simps) simp
next
  case (Suc n)
  note IH = Suc.IH [of "Suc attempt"]
  have lt: "attempt < volumeLockMaxRetries" using Suc.prems by simp
  show ?case
  proof (cases "k \<in> locks s")
    case False
    with lt show ?thesis
      by (subst acquire_from.simps) (simp add: tryAcquire_def TryAcquire_def)
  next
    case True
    show ?thesis
    proof (cases n)
      case 0
      with Suc.prems have last: "volumeLockMaxRetries = Suc attempt" by simp
      then have "run_state (acquire_from env k v (Suc attempt)) s
          = (Inl (Status Aborted volumeOperationAlreadyExistsFmt [S v]), s)"
        by (subst acquire_from.simps) simp
      moreover have "\<not> attempt < volumeLockMaxRetries - 1" using last by simp
      ultimately show ?thesis using lt True 0
        by (subst acquire_from.simps) (simp add: run_tryAcquire)
    next
      case (Suc m)
      let ?s = "s\<lparr>trace := trace s @ [Sleep volumeLockRetryDelay],
                  locks := lock_others env (trace s) (locks s)\<rparr>"
      have not_last: "attempt < volumeLockMaxRetries - 1" using Suc Suc.prems by linarith
      have "run_state (acquire_from env k v attempt) s
          = run_state (acquire_from env k v (Suc attempt)) ?s"
        using lt True not_last
        by (subst acquire_from.simps) (simp add: run_tryAcquire sleepFor_def)
      with IH [of ?s] Suc.prems True show ?thesis by simp
    qed
  qed
qed

text \<open>After a successful acquisition the key is held; after a failed one nothing was taken.\<close>

lemma acquire_from_held:
  "wp (acquire_from env k v n) (\<lambda>r s'. case r of Inr _ \<Rightarrow> k \<in> locks s'
      | Inl e \<Rightarrow> e = Status Aborted volumeOperationAlreadyExistsFmt [S v]) s"
proof (induction env k v n arbitrary: s rule: acquire_from.induct)
  case (1 env k v n)
  then show ?case
    by (subst acquire_from.simps) (auto simp: wp)
qed

lemmas acquireVolumeLock_held = acquire_from_held [of _ _ _ 0, folded acquireVolumeLock_def]

section \<open>Lock keys\<close>

definition publishVolumeLockKey :: "bool \<Rightarrow> string \<Rightarrow> string \<Rightarrow> string" where
  "publishVolumeLockKey staging volumeID targetPath =
     (if staging then ''publish-'' @ volumeID @ ''-'' @ targetPath
      else volumeID @ ''-'' @ targetPath)"

definition stageLockKey :: "string \<Rightarrow> string" where
  "stageLockKey volumeID = ''stage-'' @ volumeID"

lemma publish_key_not_stage_key: "publishVolumeLockKey True v t \<noteq> stageLockKey v'"
  by (simp add: publishVolumeLockKey_def stageLockKey_def)

lemma split_at_slash:
  assumes "CHR ''/'' \<notin> set v" and "CHR ''/'' \<notin> set v'"
    and "v @ ''-/'' @ t = v' @ ''-/'' @ t'"
  shows "v = v' \<and> t = t'"
proof -
  have "takeWhile (\<lambda>c. c \<noteq> CHR ''/'') (v @ ''-/'' @ t) = v @ ''-''" if "CHR ''/'' \<notin> set v" for v t
    using that by (induction v) auto
  with assms have "v @ ''-'' = v' @ ''-''" by metis
  with assms(3) show ?thesis by simp
qed


section \<open>Properties\<close>

text \<open>
  Property C24: \<open>acquireVolumeLock\<close> gets the lock exactly when the key is free at one of its
  five attempts, whatever the other goroutines do to the lock table while it sleeps.
\<close>

theorem acquireVolumeLock_iff_seen_free:
  "(\<exists>u. fst (run_state (acquireVolumeLock env k v) s) = Inr u)
     \<longleftrightarrow> (\<exists>l \<in> set (locks_seen env 5 (trace s) (locks s)). k \<notin> l)"
  unfolding acquireVolumeLock_def
  by (rule acquire_from_succeeds) (simp add: volumeLockMaxRetries_def)

text \<open>
  Mutual exclusion of the volume locks. After a successful \<open>TryAcquire\<close> of a
  key, and whatever lock operations follow as long as none is its release, another
  \<open>TryAcquire\<close> of the key is refused.
\<close>

theorem TryAcquire_mutual_exclusion:
  assumes "Release_of k \<notin> set ops"
  shows "\<not> fst (TryAcquire k (lock_run TryAcquire Release ops (snd (TryAcquire k l))))"
  using assms by (rule vl.mutual_exclusion)

theorem TryAcquire_mutual_exclusion_witness:
  "\<not> fst (TryAcquire ''v-/t'' (lock_run TryAcquire Release [Acquire ''w'', Release_of ''w'']
       (snd (TryAcquire ''v-/t'' NewVolumeLocks))))"
  by (rule TryAcquire_mutual_exclusion) simp

text \<open>
  Publish lock keys identify the volume and the target. For target paths that
  are absolute and volume IDs without a slash, two requests have the same key in a mode of
  the driver only when they are for the same volume at the same path.
\<close>

theorem publishVolumeLockKey_inj:
  assumes "CHR ''/'' \<notin> set v" and "CHR ''/'' \<notin> set v'"
  shows "publishVolumeLockKey staging v (CHR ''/'' # t) = publishVolumeLockKey staging v' (CHR ''/'' # t')
     \<longleftrightarrow> v = v' \<and> t = t'"
  using split_at_slash [OF assms, of t t'] by (auto simp: publishVolumeLockKey_def)

theorem publishVolumeLockKey_inj_witness:
  "publishVolumeLockKey True ''s3#a'' ''/pods/1'' \<noteq> publishVolumeLockKey True ''s3#b'' ''/pods/1''"
  using publishVolumeLockKey_inj [of "''s3#a''" "''s3#b''" True "''pods/1''" "''pods/1''"] by simp

end
