(* ===== verification/Params.thy ===== *)
theory Params
  imports World
begin

text \<open>
  Volume parameters: flag normalisation and the filters of pkg/rclone/utils.go, and the
  parameter extraction of pkg/rclone/nodeserver.go, with the CSI requests they read.
\<close>

section \<open>CSI requests\<close>

text \<open>
  \<open>csi.VolumeCapability\<close>: its access type is a block device, a mount with flags and a
  mount group, or unset. \<open>GetMount()\<close> is nil unless it is a mount.
\<close>

datatype volume_capability =
    BlockCap
  | MountCap (mountFlags: "string list") (volumeMountGroup: string)
  | NoAccessType

record publish_req =
  volumeId :: string
  targetPath :: string
  stagingTargetPath :: string
  volumeCapability :: "volume_capability option"
  readonly :: bool
  secrets :: smap
  volumeContext :: smap

definition validatePublishVolumeRequest :: "publish_req \<Rightarrow> gerr option" where
  "validatePublishVolumeRequest req =
     (if volumeId req = '''' then Some (Status InvalidArgument ''Volume ID missing in request'' [])
      else if targetPath req = '''' then Some (Status InvalidArgument ''Target path not provided'' [])
      else if volumeCapability req = None
      then Some (Status InvalidArgument ''Volume capability missing in request'' [])
      else None)"

definition validateUnpublishVolumeRequest :: "string \<Rightarrow> string \<Rightarrow> gerr option" where
  "validateUnpublishVolumeRequest volumeID target =
     (if volumeID = '''' then Some (Status InvalidArgument ''Volume ID missing in request'' [])
      else if target = '''' then Some (Status InvalidArgument ''Target path missing in request'' [])
      else None)"

section \<open>Parameter names\<close>

definition paramRemote :: string where "paramRemote = ''remote''"
definition paramRemotePath :: string where "paramRemotePath = ''remotePath''"
definition paramConfigData :: string where "paramConfigData = ''configData''"
definition paramBackendType :: string where "paramBackendType = ''remoteType''"
definition paramBackendTypeKey :: string where "paramBackendTypeKey = ''type''"
definition paramRemotePrefix :: string where "paramRemotePrefix = ''remotePrefix''"
definition paramCacheDir :: string where "paramCacheDir = ''cache_dir''"
definition paramTmpDir :: string where "paramTmpDir = ''temp_dir''"
definition paramLogLevel :: string where "paramLogLevel = ''log_level''"
definition paramMountType :: string where "paramMountType = ''mount_type''"
definition paramDisabledFeatures :: string where "paramDisabledFeatures = ''disable''"
definition paramVolumeMountGroup :: string where "paramVolumeMountGroup = ''gid''"
definition paramVolumeMountUser :: string where "paramVolumeMountUser = ''uid''"
definition paramVolumeMountAllowOther :: string where "paramVolumeMountAllowOther = ''allow_other''"
definition trueValue :: string where "trueValue = ''true''"

lemmas param_names = paramRemote_def paramRemotePath_def paramConfigData_def paramBackendType_def
  paramRemotePrefix_def

definition reservedParams :: "string list" where
  "reservedParams = [paramRemote, paramRemotePath, paramConfigData, paramBackendType, paramRemotePrefix]"

section \<open>Flags\<close>

definition normalizeRcloneFlag :: "string \<Rightarrow> string" where
  "normalizeRcloneFlag key =
     (if key = '''' then key
      else toLower (replaceAll (trimPrefix key ''--'') ''-'' ''_''))"

definition removePrefixCaseInsensitive :: "string \<Rightarrow> string \<Rightarrow> string" where
  "removePrefixCaseInsensitive s pre =
     (if length s < length pre then s
      else if equalFold (take (length pre) s) pre then drop (length pre) s
      else s)"

definition sanitizeFlag :: "string \<Rightarrow> string \<Rightarrow> string" where
  "sanitizeFlag remote key =
     (if key = '''' then key
      else normalizeRcloneFlag
             (if remote \<noteq> '''' then removePrefixCaseInsensitive (normalizeRcloneFlag key) (remote @ ''_'')
              else key))"

fun extract_typed :: "smap \<Rightarrow> string \<Rightarrow> smap \<Rightarrow> smap" where
  "extract_typed [] remoteType rcParams = rcParams"
| "extract_typed ((k, v) # params) remoteType rcParams =
     (if hasPrefix (toLower k) (toLower remoteType)
      then extract_typed params remoteType (AList.update (sanitizeFlag remoteType k) v rcParams)
      else extract_typed params remoteType rcParams)"

definition extractRemoteTypeParams :: "smap \<Rightarrow> string \<Rightarrow> smap" where
  "extractRemoteTypeParams params remoteType = extract_typed params remoteType []"

definition mergeCopy :: "('k \<times> 'v) list \<Rightarrow> ('k \<times> 'v) list \<Rightarrow> ('k \<times> 'v) list" where
  "mergeCopy m1 m2 = map_copy m1 m2"

lemma normalizeRcloneFlag_Nil [simp]: "normalizeRcloneFlag [] = []"
  by (simp add: normalizeRcloneFlag_def)

text \<open>A normalised flag has no hyphen and no upper case letter left.\<close>

lemma lower_char_hyphen: "lower_char c = CHR ''-'' \<longleftrightarrow> c = CHR ''-''"
proof
  assume "lower_char c = CHR ''-''"
  then have "of_char (lower_char c) = (of_char CHR ''-'' :: nat)" by (rule arg_cong)
  then have "of_char c = (of_char CHR ''-'' :: nat)"
    by (auto simp: lower_char_def Let_def split: if_splits)
  then show "c = CHR ''-''" by (simp only: of_char_eq_iff)
qed (simp add: lower_char_def)

lemma toLower_hyphen: "CHR ''-'' \<in> set (toLower s) \<longleftrightarrow> CHR ''-'' \<in> set s"
  unfolding toLower_def set_map image_iff by (metis lower_char_hyphen)

lemma replace_hyphens: "CHR ''-'' \<notin> set (replaceAll s ''-'' ''_'')"
  by (auto simp: replaceAll_char)

lemma normalize_no_hyphen: "CHR ''-'' \<notin> set (normalizeRcloneFlag k)"
  by (simp add: normalizeRcloneFlag_def toLower_hyphen replace_hyphens)

lemma normalize_lower: "toLower (normalizeRcloneFlag k) = normalizeRcloneFlag k"
  by (simp add: normalizeRcloneFlag_def)

lemma normalize_fixed:
  assumes "CHR ''-'' \<notin> set k" and "toLower k = k"
  shows "normalizeRcloneFlag k = k"
proof -
  have "\<not> hasPrefix k ''--''"
    using assms(1) by (auto simp: hasPrefix_iff)
  moreover have "map (\<lambda>x. if x = CHR ''-'' then CHR ''_'' else x) k = k"
    by (rule map_idI) (use assms(1) in auto)
  ultimately show ?thesis
    using assms(2) by (simp add: normalizeRcloneFlag_def trimPrefix_def replaceAll_char)
qed

lemma normalize_idem [simp]: "normalizeRcloneFlag (normalizeRcloneFlag k) = normalizeRcloneFlag k"
  by (intro normalize_fixed normalize_no_hyphen normalize_lower)

lemma sanitize_normal: "normalizeRcloneFlag (sanitizeFlag r k) = sanitizeFlag r k"
  by (simp add: sanitizeFlag_def)

section \<open>Merging the sources of parameters\<close>

definition mergeVolumeParameters :: "publish_req \<Rightarrow> smap" where
  "mergeVolumeParameters req = map_copy (map_copy [] (secrets req)) (volumeContext req)"

text \<open>The block that turns the pod's fsGroup into mount parameters.\<close>

definition applyVolumeMountGroup :: "volume_capability option \<Rightarrow> smap \<Rightarrow> smap" where
  "applyVolumeMountGroup cap params =
     (case cap of
        Some (MountCap _ g) \<Rightarrow>
          if g \<noteq> '''' then
            AList.update paramVolumeMountAllowOther trueValue
              (AList.update paramVolumeMountUser g (AList.update paramVolumeMountGroup g params))
          else params
      | _ \<Rightarrow> params)"

text \<open>The mount flags of the capability, with \<open>read-only\<close> for a read-only publish.\<close>

definition publishMountOptions :: "volume_capability option \<Rightarrow> bool \<Rightarrow> string list" where
  "publishMountOptions cap ro =
     (case cap of
        Some (MountCap flags _) \<Rightarrow> if ro then flags @ [''read-only''] else flags
      | _ \<Rightarrow> [])"

record publish_params =
  pv_remoteName :: string
  pv_remotePath :: string
  pv_configData :: string
  pv_remoteType :: string
  pv_remotePrefix :: string
  pv_params :: smap

fun copy_params :: "smap \<Rightarrow> smap \<Rightarrow> gerr + smap" where
  "copy_params [] acc = Inr acc"
| "copy_params ((k, v) # params) acc =
     (if k \<in> set reservedParams then copy_params params acc
      else let rcloneKey = normalizeRcloneFlag k in
        if rcloneKey = '''' then Inl (Status InvalidArgument ''invalid parameter name: %s'' [S k])
        else copy_params params (AList.update rcloneKey v acc))"

definition extractPublishParams :: "smap \<Rightarrow> gerr + publish_params" where
  "extractPublishParams params =
     (let pvp = \<lparr>pv_remoteName = mget params paramRemote, pv_remotePath = mget params paramRemotePath,
                 pv_configData = mget params paramConfigData, pv_remoteType = mget params paramBackendType,
                 pv_remotePrefix = mget params paramRemotePrefix, pv_params = []\<rparr>
      in if pv_remoteName pvp = ''''
         then Inl (Status InvalidArgument ''remote is required (provide via volumeAttributes or secrets)'' [])
         else if pv_configData pvp = '''' \<and> pv_remoteType pvp = ''''
         then Inl (Status InvalidArgument ''either configData or remoteType must be provided'' [])
         else case copy_params params [] of Inl e \<Rightarrow> Inl e | Inr ps \<Rightarrow> Inr (pvp\<lparr>pv_params := ps\<rparr>))"

text \<open>
  \<open>mountParamsForState\<close> adds the isolation override for the persisted state.
\<close>

definition mountParamsForState :: "publish_params \<Rightarrow> smap" where
  "mountParamsForState pvp =
     (if pv_remotePrefix pvp = '''' then pv_params pvp
      else AList.update paramRemotePrefix (pv_remotePrefix pvp) (pv_params pvp))"

fun volume_mount_options :: "string list \<Rightarrow> smap \<Rightarrow> gerr + smap" where
  "volume_mount_options [] acc = Inr acc"
| "volume_mount_options (option # opts) acc =
     (if contains_str option ''='' then
        (case cut_str option ''='' of
           None \<Rightarrow> Inl (Errorf ''invalid mount option format: %s'' [S option])
         | Some (key, val) \<Rightarrow> volume_mount_options opts (AList.update (normalizeRcloneFlag key) val acc))
      else volume_mount_options opts (AList.update (normalizeRcloneFlag option) trueValue acc))"

definition extractVolumeMountOptions :: "string list \<Rightarrow> gerr + smap" where
  "extractVolumeMountOptions mountOptions = volume_mount_options mountOptions []"

section \<open>Lemmas\<close>

lemma copy_params_error:
  "(\<exists>e. copy_params params acc = Inl e)
     \<longleftrightarrow> (\<exists>k \<in> set (keys params). k \<notin> set reservedParams \<and> normalizeRcloneFlag k = '''')"
  by (induction params acc rule: copy_params.induct) (auto simp: Let_def)

lemma copy_params_keys:
  "copy_params params acc = Inr ps \<Longrightarrow>
     dom (map_of ps) = dom (map_of acc)
       \<union> normalizeRcloneFlag ` {k \<in> set (keys params). k \<notin> set reservedParams}"
  by (induction params acc rule: copy_params.induct) (auto simp: Let_def split: if_splits)

lemma copy_params_other:
  assumes "copy_params params acc = Inr ps"
    and "\<forall>k \<in> set (keys params). k \<in> set reservedParams \<or> normalizeRcloneFlag k \<noteq> j"
  shows "map_of ps j = map_of acc j"
  using assms by (induction params acc rule: copy_params.induct) (auto simp: Let_def split: if_splits)

text \<open>
  The entries of \<open>params\<close> that are copied under the name \<open>j\<close>. When they agree on their
  value, that value reaches the result.
\<close>

definition copied_as :: "smap \<Rightarrow> string \<Rightarrow> string \<Rightarrow> bool" where
  "copied_as params j v \<longleftrightarrow>
     (\<exists>k. (k, v) \<in> set params \<and> k \<notin> set reservedParams \<and> normalizeRcloneFlag k = j)"

lemma copied_as_Cons:
  "copied_as ((k, w) # params) j v \<longleftrightarrow>
     (w = v \<and> k \<notin> set reservedParams \<and> normalizeRcloneFlag k = j) \<or> copied_as params j v"
  by (auto simp: copied_as_def)

lemma copied_as_single:
  assumes "distinct (keys params)" and "(k, v) \<in> set params" and "k \<notin> set reservedParams"
    and "inj_on normalizeRcloneFlag {k' \<in> set (keys params). k' \<notin> set reservedParams}"
  shows "copied_as params (normalizeRcloneFlag k) w \<longleftrightarrow> w = v"
proof
  assume "copied_as params (normalizeRcloneFlag k) w"
  then obtain k' where k': "(k', w) \<in> set params" "k' \<notin> set reservedParams"
    "normalizeRcloneFlag k' = normalizeRcloneFlag k" by (auto simp: copied_as_def)
  with assms(2,3,4) have "k' = k"
    by (force dest: inj_onD)
  with k'(1) assms(1,2) show "w = v" by (metis eq_key_imp_eq_value)
qed (use assms in \<open>auto simp: copied_as_def\<close>)

lemma copy_params_value:
  assumes "copy_params params acc = Inr ps" and "copied_as params j v"
    and "\<And>w. copied_as params j w \<Longrightarrow> w = v"
  shows "map_of ps j = Some v"
  using assms
proof (induction params acc rule: copy_params.induct)
  case (2 k w params acc)
  show ?case
  proof (cases "copied_as params j v")
    case True
    have agree: "w' = v" if "copied_as params j w'" for w'
      using that "2.prems"(3) [of w'] by (simp add: copied_as_Cons)
    show ?thesis
    proof (cases "k \<in> set reservedParams")
      case True
      with \<open>copied_as params j v\<close> "2.IH"(1) [OF True _ _ agree] "2.prems"(1) show ?thesis
        by simp
    next
      case False
      with "2.prems"(1) have ne: "normalizeRcloneFlag k \<noteq> ''''"
        and run: "copy_params params (AList.update (normalizeRcloneFlag k) w acc) = Inr ps"
        by (simp_all add: Let_def split: if_splits)
      from "2.IH"(2) [OF False refl ne run \<open>copied_as params j v\<close> agree] show ?thesis by simp
    qed
  next
    case False
    with "2.prems"(2) have hd: "w = v" "k \<notin> set reservedParams" "normalizeRcloneFlag k = j"
      by (auto simp: copied_as_Cons)
    with "2.prems"(1) have run: "copy_params params (AList.update j v acc) = Inr ps"
      by (auto simp: Let_def split: if_splits)
    have "\<not> copied_as params j w'" for w'
      using False "2.prems"(3) [of w'] by (auto simp: copied_as_Cons)
    then have "map_of ps j = map_of (AList.update j v acc) j"
      by (intro copy_params_other [OF run]) (force simp: copied_as_def)
    then show ?thesis by simp
  qed
qed (simp add: copied_as_def)

lemma extractPublishParams_Inr:
  assumes "extractPublishParams params = Inr pvp"
  shows "copy_params params [] = Inr (pv_params pvp)"
    and "pv_remoteName pvp = mget params paramRemote" and "pv_remoteName pvp \<noteq> ''''"
    and "pv_remotePath pvp = mget params paramRemotePath"
    and "pv_configData pvp = mget params paramConfigData"
    and "pv_remoteType pvp = mget params paramBackendType"
    and "pv_remotePrefix pvp = mget params paramRemotePrefix"
  using assms by (auto simp: extractPublishParams_def Let_def split: if_splits sum.splits)

lemma volume_mount_options_total: "\<exists>m. volume_mount_options opts acc = Inr m"
proof (induction opts acc rule: volume_mount_options.induct)
  case (2 option opts acc)
  then show ?case
    by (cases "cut_str option ''=''") (auto simp: cut_str_None)
qed simp

lemma volume_mount_options_append:
  "volume_mount_options (opts @ opts') acc =
     (case volume_mount_options opts acc of Inl e \<Rightarrow> Inl e | Inr m \<Rightarrow> volume_mount_options opts' m)"
  by (induction opts acc rule: volume_mount_options.induct) (auto split: option.splits)

lemma extract_typed_dom:
  "dom (map_of (extract_typed params t acc)) = dom (map_of acc)
     \<union> set (map (sanitizeFlag t) (filter (\<lambda>k. hasPrefix (toLower k) (toLower t)) (keys params)))"
  by (induction params t acc rule: extract_typed.induct) auto

lemma extract_typed_Nil_iff:
  "extractRemoteTypeParams params t = []
     \<longleftrightarrow> (\<forall>k \<in> set (keys params). \<not> hasPrefix (toLower k) (toLower t))"
proof -
  have "extractRemoteTypeParams params t = [] \<longleftrightarrow> dom (map_of (extractRemoteTypeParams params t)) = {}"
    by (metis dom_map_of_conv_image_fst image_is_empty set_empty2)
  then show ?thesis by (auto simp: extractRemoteTypeParams_def extract_typed_dom filter_empty_conv)
qed

section \<open>Properties\<close>

text \<open>
  \<open>normalizeRcloneFlag\<close> is idempotent and its result has neither an upper case
  letter nor a hyphen, so two spellings of a flag that normalise alike are one key.
\<close>

theorem normalizeRcloneFlag_normal:
  "normalizeRcloneFlag (normalizeRcloneFlag k) = normalizeRcloneFlag k
     \<and> toLower (normalizeRcloneFlag k) = normalizeRcloneFlag k
     \<and> CHR ''-'' \<notin> set (normalizeRcloneFlag k)"
  by (simp add: normalize_lower normalize_no_hyphen)

text \<open>
  \<open>extractPublishParams\<close> fails exactly when the remote is missing, when neither
  config data nor a remote type is given, or when a parameter that is not reserved has a name
  that normalises to nothing (\<open>--\<close>, say); every failure is \<open>InvalidArgument\<close>.
\<close>

theorem extractPublishParams_errors:
  "(case extractPublishParams params of
      Inl e \<Rightarrow> status_code e = InvalidArgument
        \<and> (mget params paramRemote = ''''
           \<or> mget params paramConfigData = '''' \<and> mget params paramBackendType = ''''
           \<or> (\<exists>k. k \<in> set (keys params) - set reservedParams \<and> normalizeRcloneFlag k = ''''))
    | Inr pvp \<Rightarrow> mget params paramRemote \<noteq> ''''
        \<and> \<not> (mget params paramConfigData = '''' \<and> mget params paramBackendType = '''')
        \<and> (\<nexists>k. k \<in> set (keys params) - set reservedParams \<and> normalizeRcloneFlag k = ''''))"
proof -
  have code: "copy_params ps acc = Inl e \<Longrightarrow> status_code e = InvalidArgument" for ps acc e
    by (induction ps acc rule: copy_params.induct) (auto simp: Let_def split: if_splits)
  show ?thesis
    using copy_params_error [of params "[]"] code [of params "[]"]
    by (auto simp: extractPublishParams_def Let_def split: sum.splits)
qed

text \<open>
  What \<open>extractPublishParams\<close> passes on to rclone does not depend on the order in
  which Go visits the map, when no two parameters normalise alike: it is exactly the
  parameters that are not reserved, each under its normalised name with its own value, and
  nothing else.
\<close>

theorem extractPublishParams_params:
  assumes "distinct (keys params)"
    and "inj_on normalizeRcloneFlag {k \<in> set (keys params). k \<notin> set reservedParams}"
    and "extractPublishParams params = Inr pvp"
  shows "map_of (pv_params pvp) j = Some v \<longleftrightarrow>
      (\<exists>k. map_of params k = Some v \<and> k \<notin> set reservedParams \<and> normalizeRcloneFlag k = j)"
proof
  note run = extractPublishParams_Inr(1) [OF assms(3)]
  { fix k w assume k: "map_of params k = Some w" "k \<notin> set reservedParams" "normalizeRcloneFlag k = j"
    then have "copied_as params j w" by (auto simp: copied_as_def dest: map_of_SomeD)
    then have "map_of (pv_params pvp) j = Some w"
      using copied_as_single [OF assms(1) _ k(2) assms(2)] k
      by (intro copy_params_value [OF run]) (auto dest: map_of_SomeD) }
  note fwd = this
  then show "\<exists>k. map_of params k = Some v \<and> k \<notin> set reservedParams \<and> normalizeRcloneFlag k = j
      \<Longrightarrow> map_of (pv_params pvp) j = Some v" by blast
  assume j: "map_of (pv_params pvp) j = Some v"
  then have "j \<in> dom (map_of (pv_params pvp))" by auto
  then obtain k where k: "k \<in> set (keys params)" "k \<notin> set reservedParams" "normalizeRcloneFlag k = j"
    using copy_params_keys [OF run] by auto
  then obtain w where w: "map_of params k = Some w"
    by (metis map_of_eq_None_iff not_None_eq set_map)
  with fwd [OF this k(2,3)] j k show "\<exists>k. map_of params k = Some v \<and> k \<notin> set reservedParams
      \<and> normalizeRcloneFlag k = j" by auto
qed

theorem extractPublishParams_params_witness:
  "\<exists>pvp. extractPublishParams [(''remote'', ''s3''), (''configData'', ''[s3]''), (''--VFS-Cache'', ''off'')]
      = Inr pvp \<and> map_of (pv_params pvp) ''vfs_cache'' = Some ''off''"
proof -
  let ?ps = "[(''remote'', ''s3''), (''configData'', ''[s3]''), (''--VFS-Cache'', ''off'')]"
  have norm: "normalizeRcloneFlag ''--VFS-Cache'' = ''vfs_cache''"
    by code_simp
  then obtain pvp where pvp: "extractPublishParams ?ps = Inr pvp"
    by (simp add: extractPublishParams_def param_names reservedParams_def mget_def Let_def)
  have "{k \<in> set (keys ?ps). k \<notin> set reservedParams} = {''--VFS-Cache''}"
    by (auto simp: reservedParams_def param_names)
  then have inj: "inj_on normalizeRcloneFlag {k \<in> set (keys ?ps). k \<notin> set reservedParams}" by simp
  have "map_of (pv_params pvp) ''vfs_cache'' = Some ''off''"
    using extractPublishParams_params [OF _ inj pvp, of "''vfs_cache''" "''off''"] norm
    by (force simp: reservedParams_def param_names)
  with pvp show ?thesis by blast
qed

text \<open>
  Parameter priority. A key of the volume context overrides the same key of the
  secrets, and every other key of the secrets is kept.
\<close>

theorem mergeVolumeParameters_priority:
  assumes "distinct (keys (secrets req))" and "distinct (keys (volumeContext req))"
  shows "map_of (mergeVolumeParameters req) = map_of (secrets req) ++ map_of (volumeContext req)"
  using assms by (simp add: mergeVolumeParameters_def map_of_map_copy)

theorem mergeVolumeParameters_priority_witness:
  "map_of (mergeVolumeParameters \<lparr>volumeId = ''v'', targetPath = ''/t'', stagingTargetPath = '''',
      volumeCapability = None, readonly = False, secrets = [(''remote'', ''a''), (''remotePath'', ''p'')],
      volumeContext = [(''remote'', ''b'')]\<rparr>)
    = [''remote'' \<mapsto> ''b'', ''remotePath'' \<mapsto> ''p'']"
  by (subst mergeVolumeParameters_priority) (auto simp: fun_eq_iff)

text \<open>
  A read-only publish of a mount capability reaches rclone as the mount option
  \<open>read_only = true\<close>, whatever the other mount flags are.
\<close>

theorem readonly_reaches_mount_options:
  "\<exists>m. extractVolumeMountOptions (publishMountOptions (Some (MountCap flags g)) True) = Inr m
     \<and> map_of m ''read_only'' = Some ''true''"
proof -
  obtain m where "volume_mount_options flags [] = Inr m"
    using volume_mount_options_total by blast
  moreover have "\<not> contains_str ''read-only'' ''=''"
    by (simp add: contains_str.simps hasPrefix_def)
  moreover have "normalizeRcloneFlag ''read-only'' = ''read_only''"
    by code_simp
  ultimately show ?thesis
    by (simp add: extractVolumeMountOptions_def publishMountOptions_def volume_mount_options_append
      trueValue_def)
qed

end
