(* ===== verification/Config_Isolation.thy ===== *)
theory Config_Isolation
  imports Params Example_Env
begin

text \<open>
  The rclone configuration of a volume: parsing, the per-volume isolation of section names
  and the rewriting of references between sections (pkg/rclone/utils.go), and loading it
  into, and removing it from, rclone's process-global storage (pkg/rclone/nodeserver.go).
\<close>

section \<open>Parsing\<close>

text \<open>\<open>map[string]map[string]string\<close>: the sections with their key-value pairs.\<close>

type_synonym remotes = "(string \<times> smap) list"

fun section_data :: "(string \<times> string option) list \<Rightarrow> smap \<Rightarrow> smap" where
  "section_data [] acc = acc"
| "section_data ((key, value) # ks) acc =
     (case value of None \<Rightarrow> section_data ks acc | Some v \<Rightarrow> section_data ks (AList.update key v acc))"

fun collect_sections :: "(string \<times> (string \<times> string option) list) list \<Rightarrow> remotes \<Rightarrow> remotes" where
  "collect_sections [] acc = acc"
| "collect_sections ((name, ks) # secs) acc =
     (if name = ''DEFAULT'' then collect_sections secs acc
      else collect_sections secs (AList.update name (section_data ks []) acc))"

definition parseAllConfigRemotes :: "lib \<Rightarrow> string \<Rightarrow> gerr + remotes" where
  "parseAllConfigRemotes lib configData =
     (case goconfig_Load lib configData of
        Inl e \<Rightarrow> Inl (Wrapf ''failed to parse config data: %w'' [] e)
      | Inr secs \<Rightarrow> Inr (collect_sections secs []))"

section \<open>Isolation\<close>

definition remotePrefixHashLen :: nat where "remotePrefixHashLen = 16"

definition remotePrefixForVolume :: "lib \<Rightarrow> string \<Rightarrow> string \<Rightarrow> string" where
  "remotePrefixForVolume lib volumeID override =
     (if override \<noteq> '''' then makeConfigName lib override
      else ''csi'' @ take remotePrefixHashLen (sha256_hex lib volumeID))"

definition longest_first :: "string list \<Rightarrow> string list" where
  "longest_first names = sort_key (\<lambda>n. - int (length n)) names"

definition rewriteRemoteReferences :: "string \<Rightarrow> smap \<Rightarrow> string" where
  "rewriteRemoteReferences value rename =
     (if value = '''' \<or> rename = [] then value
      else fold (\<lambda>old result. replaceAll result (old @ '':'') (mget rename old @ '':''))
             (longest_first (keys rename)) value)"

definition rename_table :: "lib \<Rightarrow> string \<Rightarrow> string list \<Rightarrow> smap" where
  "rename_table lib pre names =
     fold (\<lambda>name rename. AList.update name (makeConfigName lib (pre @ ''-'' @ name)) rename) names []"

definition is_reference_key :: "string \<Rightarrow> bool" where
  "is_reference_key key \<longleftrightarrow> toLower key = ''remote'' \<or> toLower key = ''upstreams''"

definition rewrite_section :: "smap \<Rightarrow> smap \<Rightarrow> smap" where
  "rewrite_section rename data =
     fold (\<lambda>(key, value) newData.
        AList.update key (if is_reference_key key then rewriteRemoteReferences value rename else value) newData)
       data []"

definition isolate_sections :: "smap \<Rightarrow> remotes \<Rightarrow> remotes" where
  "isolate_sections rename rs =
     fold (\<lambda>(name, data) isolated. AList.update (mget rename name) (rewrite_section rename data) isolated) rs []"

definition nl :: char where "nl = CHR 0x0A"

definition serialize_section :: "string \<Rightarrow> smap \<Rightarrow> string" where
  "serialize_section name data =
     ''['' @ name @ '']'' @ [nl]
       @ concat (map (\<lambda>k. k @ '' = '' @ mget data k @ [nl]) (sort (keys data))) @ [nl]"

definition serializeConfigRemotes :: "remotes \<Rightarrow> string" where
  "serializeConfigRemotes rs =
     concat (map (\<lambda>name. serialize_section name (case map_of rs name of None \<Rightarrow> [] | Some d \<Rightarrow> d))
               (sort (keys rs)))"

definition isolateConfigRemotes :: "lib \<Rightarrow> string \<Rightarrow> string \<Rightarrow> string \<Rightarrow> gerr + string \<times> string" where
  "isolateConfigRemotes lib configData logicalRemote pre =
     (case parseAllConfigRemotes lib configData of
        Inl e \<Rightarrow> Inl e
      | Inr allRemotes \<Rightarrow>
          if allRemotes = [] then Inl (Errorf ''configData has no remotes'' [])
          else if map_of allRemotes logicalRemote = None
          then Inl (Errorf ''logical remote %q not found in configData'' [S logicalRemote])
          else let rename = rename_table lib pre (keys allRemotes)
               in Inr (serializeConfigRemotes (isolate_sections rename allRemotes), mget rename logicalRemote))"

section \<open>Generated configuration\<close>

definition generateRecloneConfigFromParams :: "smap \<Rightarrow> string \<Rightarrow> string \<Rightarrow> string" where
  "generateRecloneConfigFromParams params remoteType remoteName =
     ''['' @ remoteName @ '']'' @ [nl] @ ''type = '' @ remoteType @ [nl]
       @ concat (map (\<lambda>(key, value). key @ '' = '' @ value @ [nl]) params)"

definition generateConfigData :: "publish_params \<Rightarrow> gerr + publish_params" where
  "generateConfigData pvp =
     (let remoteParams = extractRemoteTypeParams (pv_params pvp) (pv_remoteType pvp);
          pvp' = (if pv_configData pvp = '''' \<and> pv_remoteType pvp \<noteq> '''' \<and> remoteParams \<noteq> []
                  then pvp\<lparr>pv_configData :=
                         generateRecloneConfigFromParams remoteParams (pv_remoteType pvp) (pv_remoteName pvp)\<rparr>
                  else pvp)
      in if pv_configData pvp' = '''' then Inl (Status InvalidArgument ''failed to parse configData'' [])
         else Inr pvp')"

definition prepareIsolatedConfig :: "lib \<Rightarrow> string \<Rightarrow> publish_params \<Rightarrow> gerr + publish_params" where
  "prepareIsolatedConfig lib volumeID pvp =
     (let pre = remotePrefixForVolume lib volumeID (pv_remotePrefix pvp) in
      case isolateConfigRemotes lib (pv_configData pvp) (pv_remoteName pvp) pre of
        Inl e \<Rightarrow> Inl (Status InvalidArgument ''failed to isolate config remotes: %v'' [E e])
      | Inr (newConfig, effectiveRemote) \<Rightarrow>
          Inr (pvp\<lparr>pv_configData := newConfig, pv_remoteName := effectiveRemote\<rparr>))"

section \<open>rclone's config storage\<close>

text \<open>One key of a section: set it and, for \<open>type\<close>, apply the volume's parameters for that backend.\<close>

definition load_key :: "env \<Rightarrow> smap \<Rightarrow> string \<Rightarrow> string \<times> string \<Rightarrow> ('w world_scheme, gerr + unit) state" where
  "load_key env params remoteName kv = (case kv of (key, value) \<Rightarrow> do {
     emit (Cfg (CfgSet remoteName key value));
     if key = paramBackendTypeKey \<and> params \<noteq> [] then
       (let remoteParams = extractRemoteTypeParams params value in
        if remoteParams \<noteq> [] then do {
          r \<leftarrow> call (Cfg (CfgUpdate remoteName remoteParams)) (\<lambda>h. updateRemote (rc_of env) h remoteName remoteParams);
          case r of Some e \<Rightarrow> fail (Status Internal ''failed to update remote: %v'' [E e]) | None \<Rightarrow> ok () }
        else ok ())
     else ok () })"

fun load_remotes :: "env \<Rightarrow> smap \<Rightarrow> remotes \<Rightarrow> string list \<Rightarrow> ('w world_scheme, gerr + string list) state" where
  "load_remotes env params [] loaded = ok loaded"
| "load_remotes env params ((remoteName, remoteData) # rs) loaded = do {
     r \<leftarrow> for_each_err remoteData (load_key env params remoteName);
     case r of Inl e \<Rightarrow> fail e | Inr _ \<Rightarrow> load_remotes env params rs (loaded @ [remoteName]) }"

definition loadRcloneConfig :: "env \<Rightarrow> publish_params \<Rightarrow> ('w world_scheme, gerr + string list) state" where
  "loadRcloneConfig env pvp =
     (if pv_configData pvp = '''' then ok []
      else case parseAllConfigRemotes (lib_of env) (pv_configData pvp) of
             Inl e \<Rightarrow> fail (Status InvalidArgument ''failed to parse configData: %v'' [E e])
           | Inr allRemotes \<Rightarrow> load_remotes env (pv_params pvp) allRemotes [])"

definition buildFsPath :: "string \<Rightarrow> string \<Rightarrow> string" where
  "buildFsPath remoteName remotePath =
     (if remotePath \<noteq> '''' then remoteName @ '':'' @ remotePath else remoteName @ '':'')"

definition cleanupConfigRemotes :: "string list \<Rightarrow> ('w world_scheme, unit) state" where
  "cleanupConfigRemotes rs =
     (if rs = [] then State_Monad.return () else for_each rs (\<lambda>remoteName. emit (Cfg (CfgDelete remoteName))))"

text \<open>
  The sections that the storage holds after a trace of calls: \<open>SetValue\<close> and
  \<open>UpdateRemote\<close> create a section, \<open>DeleteSection\<close> removes it.
\<close>

fun config_step :: "ev \<Rightarrow> string set \<Rightarrow> string set" where
  "config_step (Cfg (CfgSet sec k v)) secs = insert sec secs"
| "config_step (Cfg (CfgUpdate sec ps)) secs = insert sec secs"
| "config_step (Cfg (CfgDelete sec)) secs = secs - {sec}"
| "config_step e secs = secs"

definition config_sections :: "history \<Rightarrow> string set" where
  "config_sections h = fold config_step h {}"

section \<open>Lemmas: the maps\<close>

lemma fold_update_names:
  "map_of (fold (\<lambda>n m. AList.update n (f n) m) ns acc) n
     = (if n \<in> set ns then Some (f n) else map_of acc n)"
  by (induction ns arbitrary: acc) auto

lemma fold_update_pairs:
  "distinct (keys xs) \<Longrightarrow>
     map_of (fold (\<lambda>(k, v) m. AList.update (g k) (f k v) m) xs acc) =
     (\<lambda>j. case map_of (map (\<lambda>(k, v). (g k, f k v)) (rev xs)) j of Some w \<Rightarrow> Some w | None \<Rightarrow> map_of acc j)"
proof (induction xs arbitrary: acc)
  case (Cons x xs)
  then show ?case
    by (cases x) (auto simp: fun_eq_iff map_of_append map_add_def split: option.splits)
qed simp

lemma map_of_inj_image:
  assumes "inj_on g (set (keys xs))" and "k \<in> set (keys xs)"
  shows "map_of (map (\<lambda>(k, v). (g k, f k v)) xs) (g k) = map_option (f k) (map_of xs k)"
  using assms
proof (induction xs)
  case (Cons x xs)
  obtain a b where x: "x = (a, b)" by fastforce
  show ?case
  proof (cases "k = a")
    case False
    have mem: "k \<in> set (keys (x # xs))" "a \<in> set (keys (x # xs))" using Cons.prems(2) x by auto
    have "g k \<noteq> g a" using inj_onD [OF Cons.prems(1) _ mem] False by blast
    moreover have "k \<in> set (keys xs)" using mem(1) False x by simp
    moreover have "inj_on g (set (keys xs))" using Cons.prems(1) by (rule inj_on_subset) auto
    ultimately show ?thesis using Cons.IH x False by simp
  qed (simp add: x)
qed simp

lemma map_of_rev: "distinct (keys xs) \<Longrightarrow> map_of (rev xs) = map_of xs"
  by (rule map_of_inject_set [THEN iffD2]) (simp_all add: rev_map [symmetric])

lemma map_of_rename_table:
  "map_of (rename_table lib pre names) n
     = (if n \<in> set names then Some (makeConfigName lib (pre @ ''-'' @ n)) else None)"
  by (simp add: rename_table_def fold_update_names)

lemma mget_rename_table:
  "n \<in> set names \<Longrightarrow> mget (rename_table lib pre names) n = makeConfigName lib (pre @ ''-'' @ n)"
  by (simp add: mget_def map_of_rename_table)

lemma distinct_rename_table: "distinct (keys (rename_table lib pre names))"
proof -
  have "distinct (keys acc) \<Longrightarrow> distinct (keys (fold (\<lambda>n m. AList.update n (f n) m) ns acc))"
    for acc and f :: "string \<Rightarrow> string" and ns
    by (induction ns arbitrary: acc) (auto simp: distinct_update)
  then show ?thesis by (simp add: rename_table_def)
qed

lemma set_keys_rename_table: "set (keys (rename_table lib pre names)) = set names"
proof -
  have "dom (map_of (rename_table lib pre names)) = set names"
    by (auto simp: map_of_rename_table dom_def)
  then show ?thesis by (simp add: dom_map_of_conv_image_fst)
qed

text \<open>Every key of a section is kept; only references are rewritten.\<close>

definition rewritten_value :: "smap \<Rightarrow> string \<Rightarrow> string \<Rightarrow> string" where
  "rewritten_value rename key value =
     (if is_reference_key key then rewriteRemoteReferences value rename else value)"

lemma map_of_rewrite_section:
  assumes "distinct (keys data)"
  shows "map_of (rewrite_section rename data) k = map_option (rewritten_value rename k) (map_of data k)"
proof -
  have "map_of (rewrite_section rename data) k
      = map_of (map (\<lambda>(k, v). (k, rewritten_value rename k v)) (rev data)) k"
    using fold_update_pairs [OF assms, of id "rewritten_value rename" "[]"]
    by (simp add: rewrite_section_def rewritten_value_def split: option.splits)
  also have "\<dots> = map_option (rewritten_value rename k) (map_of data k)"
  proof (cases "k \<in> set (keys data)")
    case True
    with map_of_inj_image [of id "rev data" k "rewritten_value rename"] assms show ?thesis
      by (simp add: map_of_rev)
  next
    case False
    then have "map_of data k = None" by (metis map_of_eq_None_iff set_map)
    moreover have "map_of (map (\<lambda>(k, v). (k, rewritten_value rename k v)) (rev data)) k = None"
      using False by (force simp: map_of_eq_None_iff)
    ultimately show ?thesis by simp
  qed
  finally show ?thesis .
qed

lemma map_of_isolate_sections:
  assumes "distinct (keys rs)" and "inj_on (mget rename) (set (keys rs))" and "n \<in> set (keys rs)"
  shows "map_of (isolate_sections rename rs) (mget rename n)
     = map_option (rewrite_section rename) (map_of rs n)"
proof -
  have "map_of (isolate_sections rename rs) (mget rename n)
      = map_of (map (\<lambda>(k, v). (mget rename k, rewrite_section rename v)) (rev rs)) (mget rename n)"
    using fold_update_pairs [OF assms(1), of "mget rename" "\<lambda>_. rewrite_section rename" "[]"]
    by (simp add: isolate_sections_def split: option.splits)
  with map_of_inj_image [of "mget rename" "rev rs" n "\<lambda>_. rewrite_section rename"] assms show ?thesis
    by (simp add: map_of_rev)
qed

lemma keys_isolate_sections: "set (keys (isolate_sections rename rs)) = mget rename ` set (keys rs)"
proof -
  have "dom (map_of (fold (\<lambda>(k, v) m. AList.update (g k) (f v) m) xs acc)) = dom (map_of acc) \<union> g ` set (keys xs)"
    for g :: "string \<Rightarrow> string" and f :: "smap \<Rightarrow> smap" and xs acc
    by (induction xs arbitrary: acc) auto
  from this [of "mget rename" "rewrite_section rename" rs "[]"] show ?thesis
    by (simp add: isolate_sections_def dom_map_of_conv_image_fst)
qed

section \<open>Lemmas: references\<close>

lemma colon_split:
  assumes "CHR '':'' \<notin> set a" and "CHR '':'' \<notin> set c"
    and "a @ CHR '':'' # b = c @ CHR '':'' # d"
  shows "a = c \<and> b = d"
proof -
  have "takeWhile (\<lambda>c. c \<noteq> CHR '':'') (z @ CHR '':'' # w) = z" if "CHR '':'' \<notin> set z" for z w
    using that by (induction z) auto
  with assms have "a = c" by metis
  with assms(3) show ?thesis by simp
qed

lemma colon_match:
  assumes "CHR '':'' \<notin> set a" and "CHR '':'' \<notin> set b" and "CHR '':'' \<notin> set old"
  shows "contains_str (a @ CHR '':'' # b) (old @ '':'') \<longleftrightarrow> hasSuffix a old"
proof
  assume "contains_str (a @ CHR '':'' # b) (old @ '':'')"
  then obtain x y where eq: "a @ CHR '':'' # b = (x @ old) @ CHR '':'' # y"
    by (auto simp: contains_str_iff)
  have nb: "CHR '':'' \<notin> set (x @ old)"
  proof
    assume "CHR '':'' \<in> set (x @ old)"
    then obtain u v where uv: "x @ old = u @ CHR '':'' # v" "CHR '':'' \<notin> set u"
      by (metis split_list_first)
    with eq have "a @ CHR '':'' # b = u @ CHR '':'' # (v @ CHR '':'' # y)" by simp
    with assms(1) uv(2) have "b = v @ CHR '':'' # y" by (rule colon_split [THEN conjunct2])
    with assms(2) show False by simp
  qed
  from colon_split [OF assms(1) nb eq] have "a = x @ old" by simp
  then show "hasSuffix a old" by (auto simp: hasSuffix_iff)
next
  assume "hasSuffix a old"
  then obtain x where "a = x @ old" by (auto simp: hasSuffix_iff)
  then have "a @ CHR '':'' # b = x @ (old @ '':'') @ b" by simp
  then show "contains_str (a @ CHR '':'' # b) (old @ '':'')"
    unfolding contains_str_iff by blast
qed

lemma replace_prefix:
  assumes "CHR '':'' \<notin> set b"
  shows "replaceAll (old @ CHR '':'' # b) (old @ '':'') new = new @ b"
proof -
  have "\<not> contains_str b (old @ '':'')"
    using assms by (auto simp: contains_str_iff)
  then have rest: "replace_scan b (old @ '':'') new = b" by (rule replace_scan_no_match)
  obtain c s where cs: "old @ CHR '':'' # b = c # s" by (cases "old @ CHR '':'' # b") auto
  have "hasPrefix (c # s) (old @ '':'')" unfolding cs [symmetric] by (auto simp: hasPrefix_iff)
  moreover have "drop (length (old @ '':'')) (c # s) = b" unfolding cs [symmetric] by simp
  ultimately have "replace_scan (c # s) (old @ '':'') new = new @ b"
    using rest by (simp del: drop_Suc_Cons)
  with cs show ?thesis by (simp add: replaceAll_def)
qed

lemma fold_replace_skip:
  assumes "\<forall>old \<in> set names. \<not> contains_str value (old @ '':'')"
  shows "fold (\<lambda>old result. replaceAll result (old @ '':'') (f old)) names value = value"
  using assms by (induction names) (auto simp: replaceAll_no_match)

text \<open>
  A reference \<open>name:path\<close> is rewritten to the renamed section when no other section name is
  a suffix of \<open>name\<close>.
\<close>

lemma rewrite_reference:
  assumes names: "name \<in> set (keys rename)" "distinct (keys rename)"
    and colons: "CHR '':'' \<notin> set name" "CHR '':'' \<notin> set path" "\<forall>n \<in> set (keys rename). CHR '':'' \<notin> set n"
      "CHR '':'' \<notin> set (mget rename name)"
    and before: "\<forall>n \<in> set (keys rename). n \<noteq> name \<longrightarrow> \<not> hasSuffix name n"
    and after: "\<forall>n \<in> set (keys rename). n \<noteq> name \<longrightarrow> \<not> hasSuffix (mget rename name) n"
  shows "rewriteRemoteReferences (name @ CHR '':'' # path) rename = mget rename name @ CHR '':'' # path"
proof -
  let ?f = "\<lambda>old result. replaceAll result (old @ '':'') (mget rename old @ '':'')"
  have set_l: "set (longest_first (keys rename)) = set (keys rename)"
    and dist: "distinct (longest_first (keys rename))"
    using names(2) by (simp_all add: longest_first_def)
  with names(1) obtain xs ys where split: "longest_first (keys rename) = xs @ name # ys"
    by (metis split_list)
  with dist have notin: "name \<notin> set xs" "name \<notin> set ys" by auto
  have sub: "set xs \<subseteq> set (keys rename)" "set ys \<subseteq> set (keys rename)" using split set_l by auto
  have "fold ?f xs (name @ CHR '':'' # path) = name @ CHR '':'' # path"
    by (rule fold_replace_skip, rule ballI, subst colon_match)
      (use sub(1) notin(1) before colons in auto)
  moreover have "?f name (name @ CHR '':'' # path) = mget rename name @ CHR '':'' # path"
    using replace_prefix [OF colons(2), of name "mget rename name @ '':''"] by simp
  moreover have "fold ?f ys (mget rename name @ CHR '':'' # path) = mget rename name @ CHR '':'' # path"
    by (rule fold_replace_skip, rule ballI, subst colon_match)
      (use sub(2) notin(2) after colons in auto)
  ultimately have "fold ?f (longest_first (keys rename)) (name @ CHR '':'' # path)
      = mget rename name @ CHR '':'' # path"
    by (simp add: split)
  moreover have "rename \<noteq> []" using names(1) by auto
  ultimately show ?thesis by (simp add: rewriteRemoteReferences_def)
qed


lemma rewrite_no_reference:
  "\<forall>n \<in> set (keys rename). \<not> contains_str value (n @ '':'') \<Longrightarrow> rewriteRemoteReferences value rename = value"
  by (simp add: rewriteRemoteReferences_def fold_replace_skip longest_first_def)

section \<open>Lemmas: parsing and isolating\<close>

lemma distinct_section_data: "distinct (keys acc) \<Longrightarrow> distinct (keys (section_data ks acc))"
  by (induction ks acc rule: section_data.induct) (auto split: option.splits simp: distinct_update)

definition wf_remotes :: "remotes \<Rightarrow> bool" where
  "wf_remotes rs \<longleftrightarrow> distinct (keys rs) \<and> (\<forall>d \<in> snd ` set rs. distinct (keys d)) \<and> ''DEFAULT'' \<notin> set (keys rs)"

lemma snd_update: "snd ` set (AList.update k v m) \<subseteq> insert v (snd ` set m)"
  by (induction m) auto

lemma wf_collect_sections: "wf_remotes acc \<Longrightarrow> wf_remotes (collect_sections secs acc)"
proof (induction secs acc rule: collect_sections.induct)
  case (2 name ks secs acc)
  show ?case
  proof (cases "name = ''DEFAULT''")
    case False
    have "wf_remotes (AList.update name (section_data ks []) acc)"
      using 2(3) False subsetD [OF snd_update [of name "section_data ks []" acc]]
        distinct_section_data [of "[]" ks]
      unfolding wf_remotes_def by (fastforce simp: distinct_update dom_update)
    with 2 False show ?thesis by simp
  qed (use 2 in simp)
qed simp

lemma wf_parse: "parseAllConfigRemotes lib cfg = Inr rs \<Longrightarrow> wf_remotes rs"
  using wf_collect_sections [of "[]"]
  by (auto simp: parseAllConfigRemotes_def wf_remotes_def split: sum.splits)

lemma wf_remotes_section: "wf_remotes rs \<Longrightarrow> map_of rs n = Some d \<Longrightarrow> distinct (keys d)"
  by (force simp: wf_remotes_def dest: map_of_SomeD)

text \<open>The name a section has after isolation.\<close>

definition isolated_name :: "lib \<Rightarrow> string \<Rightarrow> string \<Rightarrow> string" where
  "isolated_name lib pre name = makeConfigName lib (pre @ ''-'' @ name)"

lemma isolate_result:
  assumes "isolateConfigRemotes lib cfg r pre = Inr (out, eff)"
  obtains rs where "parseAllConfigRemotes lib cfg = Inr rs" and "wf_remotes rs" and "r \<in> set (keys rs)"
    and "eff = isolated_name lib pre r"
    and "out = serializeConfigRemotes (isolate_sections (rename_table lib pre (keys rs)) rs)"
proof -
  from assms obtain rs where rs: "parseAllConfigRemotes lib cfg = Inr rs" "map_of rs r \<noteq> None"
    "out = serializeConfigRemotes (isolate_sections (rename_table lib pre (keys rs)) rs)"
    "eff = mget (rename_table lib pre (keys rs)) r"
    by (auto simp: isolateConfigRemotes_def Let_def split: sum.splits if_splits)
  have mem: "r \<in> set (keys rs)" using rs(2) by (metis map_of_eq_None_iff set_map)
  show ?thesis
    using that [OF rs(1) wf_parse [OF rs(1)] mem _ rs(3)] rs(4) mem
    by (simp add: isolated_name_def mget_rename_table)
qed

lemma isolate_sections_lookup:
  assumes "wf_remotes rs" and "inj_on (isolated_name lib pre) (set (keys rs))"
    and "map_of rs n = Some d"
  shows "map_of (isolate_sections (rename_table lib pre (keys rs)) rs) (isolated_name lib pre n)
      = Some (rewrite_section (rename_table lib pre (keys rs)) d)"
proof -
  let ?ren = "rename_table lib pre (keys rs)"
  have n: "n \<in> set (keys rs)" using assms(3) by (metis map_of_eq_None_iff option.distinct(1) set_map)
  have same: "mget ?ren m = isolated_name lib pre m" if "m \<in> set (keys rs)" for m
    using that by (simp add: mget_rename_table isolated_name_def)
  have "inj_on (mget ?ren) (set (keys rs))"
    using assms(2) inj_on_cong [of "set (keys rs)" "mget ?ren" "isolated_name lib pre"] same by blast
  from map_of_isolate_sections [OF _ this n] show ?thesis
    using assms(1,3) same [OF n] by (simp add: wf_remotes_def)
qed

lemma isolate_sections_names:
  "set (keys (isolate_sections (rename_table lib pre (keys rs)) rs)) = isolated_name lib pre ` set (keys rs)"
  unfolding keys_isolate_sections
  by (rule image_cong) (simp_all add: mget_rename_table isolated_name_def)

text \<open>Serialisation looks at the maps as maps: the order in which Go visits them does not matter.\<close>

lemma sort_distinct_eq: "distinct xs \<Longrightarrow> distinct ys \<Longrightarrow> set xs = set ys \<Longrightarrow> sort xs = sort ys"
  by (simp add: sorted_distinct_set_unique)

lemma set_keys_conv: "set (keys m) = dom (map_of m)"
  by (simp add: dom_map_of_conv_image_fst)

lemma serialize_section_cong:
  "distinct (keys d) \<Longrightarrow> distinct (keys d') \<Longrightarrow> map_of d = map_of d'
    \<Longrightarrow> serialize_section n d = serialize_section n d'"
  using sort_distinct_eq [of "keys d" "keys d'"] mget_cong [of d d']
  unfolding serialize_section_def set_keys_conv by simp

section \<open>Lemmas: loading and removing\<close>

definition touches :: "string set \<Rightarrow> ev \<Rightarrow> bool" where
  "touches names e \<longleftrightarrow> (\<exists>n \<in> names. (\<exists>k v. e = Cfg (CfgSet n k v)) \<or> (\<exists>ps. e = Cfg (CfgUpdate n ps)))"

lemma config_sections_append: "config_sections (h @ es) = fold config_step es (config_sections h)"
  by (simp add: config_sections_def)

lemma touches_step: "touches names e \<Longrightarrow> secs \<subseteq> config_step e secs \<and> config_step e secs \<subseteq> secs \<union> names"
  by (auto simp: touches_def)

lemma touches_fold:
  "list_all (touches names) es \<Longrightarrow>
     secs \<subseteq> fold config_step es secs \<and> fold config_step es secs \<subseteq> secs \<union> names"
proof (induction es arbitrary: secs)
  case (Cons e es)
  then have "secs \<subseteq> config_step e secs" "config_step e secs \<subseteq> secs \<union> names"
    using touches_step [of names e secs] by simp_all
  moreover have "config_step e secs \<subseteq> fold config_step es (config_step e secs)"
    "fold config_step es (config_step e secs) \<subseteq> config_step e secs \<union> names"
    using Cons by simp_all
  ultimately show ?case by (simp only: fold_Cons_rev fold_simps) blast
qed simp

lemma touches_mono: "touches {n} e \<Longrightarrow> n \<in> ns \<Longrightarrow> touches ns e"
  by (auto simp: touches_def)

lemma adds_load_key [frame]: "n \<in> ns \<Longrightarrow> adds (touches ns) (load_key env params n kv)"
  by (cases kv) (auto simp: load_key_def touches_def Let_def intro!: frame)

lemma adds_load_remotes [frame]:
  "set (keys rs) \<subseteq> ns \<Longrightarrow> adds (touches ns) (load_remotes env params rs loaded)"
  by (induction env params rs loaded rule: load_remotes.induct) (auto intro!: frame)

lemma load_remotes_names:
  "wp (load_remotes env params rs loaded) (\<lambda>r _. \<forall>ns. r = Inr ns \<longrightarrow> ns = loaded @ keys rs) s"
proof (induction env params rs loaded arbitrary: s rule: load_remotes.induct)
  case (2 env params n d rs loaded)
  then show ?case by (auto simp: wp split: sum.splits intro!: wpI dest: wp_runD)
qed (simp add: wp)

text \<open>A key that is set puts its section into the storage, also when the update of it fails.\<close>

lemma load_key_section:
  "wp (load_key env params n kv) (\<lambda>_ s'. n \<in> config_sections (trace s')) s"
  by (cases kv) (auto simp: load_key_def wp config_sections_append Let_def split: option.splits)

lemma load_section_failed:
  "wp (for_each_err d (load_key env params n))
     (\<lambda>r s'. \<forall>e. r = Inl e \<longrightarrow> n \<in> config_sections (trace s')) s"
proof (induction d arbitrary: s)
  case (Cons kv d)
  have "wp (load_key env params n kv) (\<lambda>r s'. wp (case r of Inl e \<Rightarrow> fail e
      | Inr _ \<Rightarrow> for_each_err d (load_key env params n))
        (\<lambda>r s'. \<forall>e. r = Inl e \<longrightarrow> n \<in> config_sections (trace s')) s') s"
    by (rule wp_mono [OF load_key_section]) (auto simp: wp split: sum.splits intro!: wp_mono [OF Cons.IH])
  then show ?case by (simp add: wp)
qed (simp add: wp)

lemma load_remotes_failed:
  "wp (load_remotes env params rs loaded)
     (\<lambda>r s'. \<forall>e. r = Inl e \<longrightarrow> (\<exists>n \<in> set (keys rs). n \<in> config_sections (trace s'))) s"
proof (induction env params rs loaded arbitrary: s rule: load_remotes.induct)
  case (2 env params n d rs loaded)
  have "wp (for_each_err d (load_key env params n)) (\<lambda>r s'. wp (case r of Inl e \<Rightarrow> fail e
      | Inr _ \<Rightarrow> load_remotes env params rs (loaded @ [n]))
        (\<lambda>r s'. \<forall>e. r = Inl e \<longrightarrow> (\<exists>n' \<in> set (keys ((n, d) # rs)). n' \<in> config_sections (trace s'))) s') s"
    by (rule wp_mono [OF load_section_failed])
      (auto simp: wp split: sum.splits intro!: wp_mono [OF "2.IH"])
  then show ?case by (simp add: wp)
qed (simp add: wp)

lemma cleanup_trace:
  "run_state (cleanupConfigRemotes ns) s = ((), s\<lparr>trace := trace s @ map (\<lambda>n. Cfg (CfgDelete n)) ns\<rparr>)"
proof -
  have "run_state (for_each ns (\<lambda>n. emit (Cfg (CfgDelete n)))) s
      = ((), s\<lparr>trace := trace s @ map (\<lambda>n. Cfg (CfgDelete n)) ns\<rparr>)"
    by (induction ns arbitrary: s) simp_all
  then show ?thesis by (simp add: cleanupConfigRemotes_def)
qed

lemma config_sections_cleanup:
  "config_sections (h @ map (\<lambda>n. Cfg (CfgDelete n)) ns) = config_sections h - set ns"
proof -
  have "fold config_step (map (\<lambda>n. Cfg (CfgDelete n)) ns) secs = secs - set ns" for secs
    by (induction ns arbitrary: secs) auto
  then show ?thesis by (simp add: config_sections_append)
qed

lemma cleanup_sections:
  "config_sections (trace (snd (run_state (cleanupConfigRemotes ns) s))) = config_sections (trace s) - set ns"
  by (simp add: cleanup_trace config_sections_cleanup)

lemma adds_cleanup [frame]: "(\<And>n. n \<in> set ns \<Longrightarrow> P (Cfg (CfgDelete n))) \<Longrightarrow> adds P (cleanupConfigRemotes ns)"
  by (simp add: cleanupConfigRemotes_def frame)

lemma keeps_cleanup [frame]: "off_world p \<Longrightarrow> keeps p (cleanupConfigRemotes ns)"
  by (simp add: cleanupConfigRemotes_def frame)

lemma keeps_load_key [frame]: "off_world p \<Longrightarrow> keeps p (load_key env params n kv)"
  by (cases kv) (auto simp: load_key_def Let_def intro!: frame)

lemma keeps_load_remotes [frame]: "off_world p \<Longrightarrow> keeps p (load_remotes env params rs loaded)"
  by (induction env params rs loaded rule: load_remotes.induct) (auto intro!: frame)

lemma keeps_loadRcloneConfig [frame]: "off_world p \<Longrightarrow> keeps p (loadRcloneConfig env pvp)"
  by (auto simp: loadRcloneConfig_def intro!: frame)

section \<open>Properties\<close>

text \<open>
  Property C10: isolation renames and keeps. When the renamed sections have different names,
  the configuration written out has exactly the renamed sections, each with exactly the keys
  of the original; a value changes only under the keys \<open>remote\<close> and \<open>upstreams\<close>, by the
  rewriting of references. The effective remote is the renamed logical remote, which exists.
\<close>

theorem isolateConfigRemotes_keeps_config:
  assumes "isolateConfigRemotes lib cfg r pre = Inr (out, eff)"
    and "parseAllConfigRemotes lib cfg = Inr rs"
    and "inj_on (isolated_name lib pre) (set (keys rs))"
  shows "\<exists>iso. out = serializeConfigRemotes iso \<and> set (keys iso) = isolated_name lib pre ` set (keys rs)
     \<and> eff = isolated_name lib pre r \<and> r \<in> set (keys rs)
     \<and> (\<forall>n d. map_of rs n = Some d \<longrightarrow>
          (\<exists>d'. map_of iso (isolated_name lib pre n) = Some d'
             \<and> (\<forall>k. map_of d' k = map_option (rewritten_value (rename_table lib pre (keys rs)) k) (map_of d k))))"
proof -
  let ?ren = "rename_table lib pre (keys rs)"
  let ?iso = "isolate_sections ?ren rs"
  have wf: "wf_remotes rs" using assms(2) by (rule wf_parse)
  have "\<exists>d'. map_of ?iso (isolated_name lib pre n) = Some d'
      \<and> (\<forall>k. map_of d' k = map_option (rewritten_value ?ren k) (map_of d k))"
    if "map_of rs n = Some d" for n d
    using isolate_sections_lookup [OF wf assms(3) that] wf_remotes_section [OF wf that]
    by (simp add: map_of_rewrite_section)
  moreover obtain "r \<in> set (keys rs)" "eff = isolated_name lib pre r" "out = serializeConfigRemotes ?iso"
    using isolate_result [OF assms(1)] assms(2) by (metis sum.inject(2))
  ultimately show ?thesis
    using isolate_sections_names [of lib pre rs] by blast
qed

theorem isolateConfigRemotes_keeps_config_witness:
  "\<exists>out. isolateConfigRemotes example_lib example_config ''enc'' ''csi0'' = Inr (out, ''csi0-enc'')"
proof -
  have parse: "parseAllConfigRemotes example_lib example_config
      = Inr [(''s3'', [(''type'', ''s3'')]), (''enc'', [(''type'', ''crypt''), (''remote'', ''s3:data'')])]"
    by (simp add: parseAllConfigRemotes_def example_config_sections)
  obtain out eff where iso: "isolateConfigRemotes example_lib example_config ''enc'' ''csi0'' = Inr (out, eff)"
    by (simp add: isolateConfigRemotes_def parse Let_def)
  have "inj_on (isolated_name example_lib ''csi0'') (set [''s3'', ''enc''])"
    by (simp add: isolated_name_def example_lib_def)
  then have "eff = isolated_name example_lib ''csi0'' ''enc''"
    using isolateConfigRemotes_keeps_config [OF iso parse] by auto
  with iso show ?thesis by (simp add: isolated_name_def example_lib_def)
qed

text \<open>
  A reference \<open>name:path\<close> to a section of the configuration is rewritten to the
  renamed section, whatever the order of the sections, when no other section name is a suffix
  of \<open>name\<close> or of its new name.
\<close>

theorem rewriteRemoteReferences_reference:
  assumes "name \<in> set (keys rename)" and "distinct (keys rename)"
    and "CHR '':'' \<notin> set name" and "CHR '':'' \<notin> set path" and "\<forall>n \<in> set (keys rename). CHR '':'' \<notin> set n"
    and "CHR '':'' \<notin> set (mget rename name)"
    and "\<forall>n \<in> set (keys rename). n \<noteq> name \<longrightarrow> \<not> hasSuffix name n \<and> \<not> hasSuffix (mget rename name) n"
  shows "rewriteRemoteReferences (name @ CHR '':'' # path) rename = mget rename name @ CHR '':'' # path"
  using assms by (intro rewrite_reference) blast+

theorem rewriteRemoteReferences_reference_witness:
  "rewriteRemoteReferences ''s3:data'' [(''s3'', ''csi0-s3''), (''enc'', ''csi0-enc'')] = ''csi0-s3:data''"
  using rewriteRemoteReferences_reference
      [of "''s3''" "[(''s3'', ''csi0-s3''), (''enc'', ''csi0-enc'')]" "''data''"]
  by (simp add: mget_def hasSuffix_def hasPrefix_def)

text \<open>
  Without the suffix condition the rewriting goes wrong: with the sections \<open>s3\<close> and
  \<open>mys3\<close>, the new name \<open>csi0-mys3\<close> ends in \<open>s3\<close> and is rewritten a second time, so the
  reference names a section that does not exist.
\<close>

lemma rewrite_twice:
  "rewriteRemoteReferences ''mys3:data'' [(''s3'', ''csi0-s3''), (''mys3'', ''csi0-mys3'')]
     = ''csi0-mycsi0-s3:data''"
  by code_simp

text \<open>
  Isolation separates volumes. Two volumes without a prefix override whose
  hashes differ in the part used never share a section, when \<open>fspath.MakeConfigName\<close> leaves
  the prefixed names as they are.
\<close>

theorem isolated_volumes_disjoint:
  assumes "take remotePrefixHashLen (sha256_hex lib v1) \<noteq> take remotePrefixHashLen (sha256_hex lib v2)"
    and "remotePrefixHashLen \<le> length (sha256_hex lib v1)" and "remotePrefixHashLen \<le> length (sha256_hex lib v2)"
    and "\<forall>n \<in> ns1. makeConfigName lib (remotePrefixForVolume lib v1 '''' @ ''-'' @ n)
            = remotePrefixForVolume lib v1 '''' @ ''-'' @ n"
    and "\<forall>n \<in> ns2. makeConfigName lib (remotePrefixForVolume lib v2 '''' @ ''-'' @ n)
            = remotePrefixForVolume lib v2 '''' @ ''-'' @ n"
  shows "isolated_name lib (remotePrefixForVolume lib v1 '''') ` ns1
     \<inter> isolated_name lib (remotePrefixForVolume lib v2 '''') ` ns2 = {}"
proof -
  have "remotePrefixForVolume lib v1 '''' @ x \<noteq> remotePrefixForVolume lib v2 '''' @ y" for x y
    using assms(1,2,3) by (simp add: remotePrefixForVolume_def min_def)
  with assms(4,5) show ?thesis
    by (auto simp: isolated_name_def)
qed

theorem isolated_volumes_disjoint_witness:
  "isolated_name example_lib (remotePrefixForVolume example_lib ''vol-a'' '''') ` {''s3'', ''enc''}
     \<inter> isolated_name example_lib (remotePrefixForVolume example_lib ''vol-b'' '''') ` {''s3''} = {}"
proof -
  have "take remotePrefixHashLen (sha256_hex example_lib ''vol-a'')
      \<noteq> take remotePrefixHashLen (sha256_hex example_lib ''vol-b'')"
    by code_simp
  moreover have "remotePrefixHashLen \<le> length (sha256_hex example_lib ''vol-a'')"
    by code_simp
  moreover have "remotePrefixHashLen \<le> length (sha256_hex example_lib ''vol-b'')"
    by code_simp
  ultimately show ?thesis
    by (rule isolated_volumes_disjoint) (simp_all add: example_lib_def)
qed



text \<open>
  Property C31: a failed load is not undone. When \<open>loadRcloneConfig\<close> fails after parsing, some
  section of the configuration is in rclone's storage and the caller, which gets no list of
  sections, cannot remove it.
\<close>

theorem loadRcloneConfig_failure_leaks:
  assumes "run_state (loadRcloneConfig env pvp) s = (Inl e, s')"
    and "parseAllConfigRemotes (lib_of env) (pv_configData pvp) = Inr rs"
  shows "\<exists>n \<in> set (keys rs). n \<in> config_sections (trace s')"
proof -
  have "run_state (load_remotes env (pv_params pvp) rs []) s = (Inl e, s')"
    using assms by (simp add: loadRcloneConfig_def split: if_splits)
  from wp_runD [OF load_remotes_failed this] show ?thesis by simp
qed

theorem loadRcloneConfig_failure_leaks_witness:
  "\<exists>e s' env. run_state (loadRcloneConfig env \<lparr>pv_remoteName = ''s3'', pv_remotePath = '''',
       pv_configData = example_config, pv_remoteType = '''', pv_remotePrefix = '''',
       pv_params = [(''s3_region'', ''eu'')]\<rparr>) start = (Inl e, s')
     \<and> (\<exists>n \<in> {''s3'', ''enc''}. n \<in> config_sections (trace s'))"
proof -
  let ?env = "example_env\<lparr>rc_of := example_rclone\<lparr>updateRemote := \<lambda>h r ps. Some (ExtError ''backend'')\<rparr>\<rparr>"
  let ?pvp = "\<lparr>pv_remoteName = ''s3'', pv_remotePath = '''', pv_configData = example_config,
     pv_remoteType = '''', pv_remotePrefix = '''', pv_params = [(''s3_region'', ''eu'')]\<rparr>"
  have parse: "parseAllConfigRemotes (lib_of ?env) (pv_configData ?pvp)
      = Inr [(''s3'', [(''type'', ''s3'')]), (''enc'', [(''type'', ''crypt''), (''remote'', ''s3:data'')])]"
    by (simp add: example_env_def parseAllConfigRemotes_def example_config_sections)
  have ps: "extractRemoteTypeParams [(''s3_region'', ''eu'')] ''s3'' = [(''region'', ''eu'')]"
    by code_simp
  obtain e s' where run: "run_state (loadRcloneConfig ?env ?pvp) start = (Inl e, s')"
    using parse ps
    by (simp add: loadRcloneConfig_def load_key_def paramBackendTypeKey_def example_config_def)
  from loadRcloneConfig_failure_leaks [OF this parse] run show ?thesis by fastforce
qed

end
