(* ===== verification/Mount_State.thy ===== *)
theory Mount_State
  imports Params Example_Env
begin

text \<open>
  The persisted mount states of pkg/rclone/mount_state.go: what a state holds, its form as a
  Kubernetes Secret, and the operations of \<open>MountStateManager\<close> against the Secrets API. The
  mutex of the manager makes each operation one step for the other goroutines of the node.
\<close>

section \<open>States\<close>

text \<open>\<open>ms_timestamp\<close> is \<open>None\<close> for the zero value of \<open>time.Time\<close>.\<close>

record mount_state =
  ms_volumeID :: string
  ms_stagingPath :: string
  ms_targetPath :: string
  ms_timestamp :: "int option"
  ms_configData :: string
  ms_remoteName :: string
  ms_remotePath :: string
  ms_remoteType :: string
  ms_mountParams :: smap
  ms_mountOptions :: "string list"
  ms_readOnly :: bool

definition Validate :: "mount_state option \<Rightarrow> gerr option" where
  "Validate ms =
     (case ms of
        None \<Rightarrow> Some (Errorf ''mount state is nil'' [])
      | Some st \<Rightarrow>
          if ms_volumeID st = '''' then Some (Errorf ''volumeID is required'' [])
          else if ms_targetPath st = '''' then Some (Errorf ''targetPath is required'' [])
          else None)"

record state_manager =
  sm_namespace :: string
  sm_nodeID :: string

definition secretNamePrefix :: string where "secretNamePrefix = ''rclone-mount-state-''"
definition secretHashLength :: nat where "secretHashLength = 16"
definition labelAppName :: string where "labelAppName = ''app.kubernetes.io/name''"
definition labelComponent :: string where "labelComponent = ''app.kubernetes.io/component''"
definition labelValueAppName :: string where "labelValueAppName = ''csi-driver-rclone''"
definition labelValueComp :: string where "labelValueComp = ''mount-state''"
definition labelNodeID :: string where "labelNodeID = ''csi.veloxpack.io/node''"

definition makeSecretName :: "lib \<Rightarrow> string \<Rightarrow> string \<Rightarrow> string" where
  "makeSecretName lib volumeID target =
     secretNamePrefix
       @ take secretHashLength (sha256_hex lib
           (if target \<noteq> '''' then volumeID @ [CHR 0x00] @ target else volumeID))"

section \<open>Secrets\<close>

definition bool_text :: "bool \<Rightarrow> string" where
  "bool_text b = (if b then ''true'' else ''false'')"

definition state_labels :: "state_manager \<Rightarrow> smap" where
  "state_labels sm = [(labelAppName, labelValueAppName), (labelComponent, labelValueComp), (labelNodeID, sm_nodeID sm)]"

definition state_fields :: "lib \<Rightarrow> mount_state \<Rightarrow> int \<Rightarrow> smap" where
  "state_fields lib st timestamp =
     [(''volumeId'', ms_volumeID st), (''stagingPath'', ms_stagingPath st), (''targetPath'', ms_targetPath st),
      (''configData'', ms_configData st), (''remoteName'', ms_remoteName st), (''remotePath'', ms_remotePath st),
      (''remoteType'', ms_remoteType st), (''mountParams'', json_of_map lib (ms_mountParams st)),
      (''mountOptions'', json_of_list lib (ms_mountOptions st)), (''timestamp'', time_format lib timestamp),
      (''readonly'', bool_text (ms_readOnly st))]"

definition state_secret :: "lib \<Rightarrow> state_manager \<Rightarrow> mount_state \<Rightarrow> int \<Rightarrow> secret" where
  "state_secret lib sm st timestamp =
     \<lparr>sec_name = makeSecretName lib (ms_volumeID st) (ms_targetPath st),
      sec_namespace = sm_namespace sm, sec_labels = state_labels sm, sec_resourceVersion = '''',
      sec_stringData = state_fields lib st timestamp, sec_data = []\<rparr>"

text \<open>
  \<open>buildSecret\<close>. Marshalling a map of strings and a list of strings to JSON cannot fail, so
  its two error branches are never taken.
\<close>

definition buildSecret :: "env \<Rightarrow> state_manager \<Rightarrow> mount_state \<Rightarrow> ('w world_scheme, secret) state" where
  "buildSecret env sm st = do {
     timestamp \<leftarrow> (case ms_timestamp st of Some t \<Rightarrow> State_Monad.return t | None \<Rightarrow> call Now (time_now env));
     State_Monad.return (state_secret (lib_of env) sm st timestamp) }"

definition deserializeSecret :: "lib \<Rightarrow> secret \<Rightarrow> mount_state" where
  "deserializeSecret lib sec =
     (let d = mget (sec_data sec) in
      \<lparr>ms_volumeID = d ''volumeId'',
       ms_stagingPath = (if d ''stagingPath'' = '''' then d ''targetPath'' else d ''stagingPath''),
       ms_targetPath = d ''targetPath'',
       ms_timestamp = (if d ''timestamp'' = '''' then None else time_parse lib (d ''timestamp'')),
       ms_configData = d ''configData'', ms_remoteName = d ''remoteName'',
       ms_remotePath = d ''remotePath'', ms_remoteType = d ''remoteType'',
       ms_mountParams = (if d ''mountParams'' = '''' then []
                         else case map_of_json lib (d ''mountParams'') of None \<Rightarrow> [] | Some m \<Rightarrow> m),
       ms_mountOptions = (if d ''mountOptions'' = '''' then []
                          else case list_of_json lib (d ''mountOptions'') of None \<Rightarrow> [] | Some l \<Rightarrow> l),
       ms_readOnly = (d ''readonly'' = trueValue)\<rparr>)"

section \<open>Operations\<close>

fun api_error :: "api_err \<Rightarrow> gerr" where
  "api_error AlreadyExists = ExtError ''already exists''"
| "api_error NotFound = ExtError ''not found''"
| "api_error Conflict = ExtError ''conflict''"
| "api_error (ApiOther m) = ExtError m"

text \<open>Create the secret, or update the one that is there under its resource version.\<close>

definition put_secret :: "env \<Rightarrow> secret \<Rightarrow> ('w world_scheme, gerr + unit) state" where
  "put_secret env sec = do {
     created \<leftarrow> call (Kube (SecretCreate sec)) (\<lambda>h. secretCreate (kube_of env) h sec);
     case created of
       None \<Rightarrow> ok ()
     | Some AlreadyExists \<Rightarrow> do {
         got \<leftarrow> call (Kube (SecretGet (sec_name sec))) (\<lambda>h. secretGet (kube_of env) h (sec_name sec));
         case got of
           Inl e \<Rightarrow> fail (Wrapf ''failed to get existing state secret %s: %w'' [S (sec_name sec)] (api_error e))
         | Inr existing \<Rightarrow> do {
             let sec' = sec\<lparr>sec_resourceVersion := sec_resourceVersion existing\<rparr>;
             updated \<leftarrow> call (Kube (SecretUpdate sec')) (\<lambda>h. secretUpdate (kube_of env) h sec');
             case updated of
               None \<Rightarrow> ok ()
             | Some e \<Rightarrow> fail (Wrapf ''failed to update state secret %s: %w'' [S (sec_name sec)] (api_error e)) } }
     | Some e \<Rightarrow> fail (Wrapf ''failed to create state secret %s: %w'' [S (sec_name sec)] (api_error e)) }"

definition SaveState :: "env \<Rightarrow> state_manager \<Rightarrow> mount_state \<Rightarrow> ('w world_scheme, gerr + unit) state" where
  "SaveState env sm st =
     (case Validate (Some st) of
        Some e \<Rightarrow> fail (Wrapf ''invalid state: %w'' [] e)
      | None \<Rightarrow> do { sec \<leftarrow> buildSecret env sm st; put_secret env sec })"

definition DeleteState :: "env \<Rightarrow> state_manager \<Rightarrow> string \<Rightarrow> string \<Rightarrow> ('w world_scheme, gerr + unit) state" where
  "DeleteState env sm volumeID target =
     (if volumeID = '''' then fail (Errorf ''volumeID is required'' [])
      else do {
        let name = makeSecretName (lib_of env) volumeID target;
        r \<leftarrow> call (Kube (SecretDelete name)) (\<lambda>h. secretDelete (kube_of env) h name);
        case r of
          None \<Rightarrow> ok ()
        | Some NotFound \<Rightarrow> ok ()
        | Some e \<Rightarrow> fail (Wrapf ''failed to delete state secret %s: %w'' [S name] (api_error e)) })"

definition LoadState :: "env \<Rightarrow> state_manager \<Rightarrow> ('w world_scheme, gerr + mount_state list) state" where
  "LoadState env sm = do {
     r \<leftarrow> call (Kube (SecretList (state_labels sm))) (\<lambda>h. secretList (kube_of env) h (state_labels sm));
     case r of
       Inl e \<Rightarrow> fail (Wrapf ''failed to list state secrets: %w'' [] (api_error e))
     | Inr secs \<Rightarrow> ok (map (deserializeSecret (lib_of env)) secs) }"

text \<open>Frame: the manager only talks to the API and asks for the time.\<close>

definition is_kube :: "ev \<Rightarrow> bool" where
  "is_kube e \<longleftrightarrow> e = Now \<or> (\<exists>c. e = Kube c)"

lemma keeps_buildSecret [frame]: "off_world p \<Longrightarrow> keeps p (buildSecret env sm st)"
  by (auto simp: buildSecret_def intro!: frame)

lemma adds_buildSecret [frame]: "P Now \<Longrightarrow> adds P (buildSecret env sm st)"
  by (auto simp: buildSecret_def intro!: frame)

lemma keeps_put_secret [frame]: "off_world p \<Longrightarrow> keeps p (put_secret env sec)"
  by (auto simp: put_secret_def Let_def intro!: frame split: option.split api_err.split)

lemma adds_put_secret [frame]: "(\<And>c. P (Kube c)) \<Longrightarrow> adds P (put_secret env sec)"
  by (auto simp: put_secret_def Let_def intro!: frame split: option.split api_err.split)

lemma keeps_SaveState [frame]: "off_world p \<Longrightarrow> keeps p (SaveState env sm st)"
  by (auto simp: SaveState_def intro!: frame)

lemma adds_SaveState [frame]: "(\<And>c. P (Kube c)) \<Longrightarrow> P Now \<Longrightarrow> adds P (SaveState env sm st)"
  by (auto simp: SaveState_def intro!: frame)

lemma keeps_DeleteState [frame]: "off_world p \<Longrightarrow> keeps p (DeleteState env sm v t)"
  by (auto simp: DeleteState_def Let_def intro!: frame split: option.split api_err.split)

lemma adds_DeleteState [frame]: "(\<And>c. P (Kube c)) \<Longrightarrow> adds P (DeleteState env sm v t)"
  by (auto simp: DeleteState_def Let_def intro!: frame split: option.split api_err.split)

lemma keeps_LoadState [frame]: "off_world p \<Longrightarrow> keeps p (LoadState env sm)"
  by (auto simp: LoadState_def intro!: frame)

lemma adds_LoadState [frame]: "(\<And>c. P (Kube c)) \<Longrightarrow> adds P (LoadState env sm)"
  by (auto simp: LoadState_def intro!: frame)

section \<open>The Secrets API\<close>

text \<open>
  The documented behaviour of the Secrets API, as far as the manager relies on it: \<open>st h\<close> is
  the content of the namespace after the calls \<open>h\<close>. A write merges \<open>stringData\<close> into
  \<open>data\<close> and gives a new resource version; an update needs the current one; a list returns
  the secrets that carry all labels of the selector.
\<close>

type_synonym store = "history \<Rightarrow> string \<Rightarrow> secret option"

definition as_stored :: "secret \<Rightarrow> string \<Rightarrow> secret" where
  "as_stored sec v = sec\<lparr>sec_data := map_copy (sec_data sec) (sec_stringData sec), sec_stringData := [],
                       sec_resourceVersion := v\<rparr>"

definition carries :: "smap \<Rightarrow> secret \<Rightarrow> bool" where
  "carries labels sec \<longleftrightarrow> (\<forall>(k, v) \<in> set labels. map_of (sec_labels sec) k = Some v)"

definition serves_writes :: "kube_env \<Rightarrow> store \<Rightarrow> bool" where
  "serves_writes k st \<longleftrightarrow>
     (\<forall>h sec. secretCreate k h sec = (if st h (sec_name sec) = None then None else Some AlreadyExists))
   \<and> (\<forall>h sec. \<exists>v. st (h @ [Kube (SecretCreate sec)]) =
        (if st h (sec_name sec) = None then (st h)(sec_name sec \<mapsto> as_stored sec v) else st h))
   \<and> (\<forall>h sec cur. st h (sec_name sec) = Some cur \<and> sec_resourceVersion cur = sec_resourceVersion sec \<longrightarrow>
        secretUpdate k h sec = None
        \<and> (\<exists>v. st (h @ [Kube (SecretUpdate sec)]) = (st h)(sec_name sec \<mapsto> as_stored sec v)))
   \<and> (\<forall>h n. secretDelete k h n = (if st h n = None then Some NotFound else None)
        \<and> st (h @ [Kube (SecretDelete n)]) = (st h)(n := None))"

definition serves_reads :: "kube_env \<Rightarrow> store \<Rightarrow> bool" where
  "serves_reads k st \<longleftrightarrow>
     (\<forall>h n. secretGet k h n = (case st h n of None \<Rightarrow> Inl NotFound | Some sec \<Rightarrow> Inr sec)
        \<and> st (h @ [Kube (SecretGet n)]) = st h)
   \<and> (\<forall>h l. \<exists>secs. secretList k h l = Inr secs \<and> set secs = {sec \<in> ran (st h). carries l sec}
        \<and> st (h @ [Kube (SecretList l)]) = st h)
   \<and> (\<forall>h. st (h @ [Now]) = st h)"

text \<open>JSON and time texts read back as written; that they are not empty is part of their syntax.\<close>

definition reads_back :: "lib \<Rightarrow> mount_state \<Rightarrow> int \<Rightarrow> bool" where
  "reads_back lib ms t \<longleftrightarrow>
     json_of_map lib (ms_mountParams ms) \<noteq> '''' \<and> json_of_list lib (ms_mountOptions ms) \<noteq> ''''
   \<and> time_format lib t \<noteq> ''''
   \<and> map_of_json lib (json_of_map lib (ms_mountParams ms)) = Some (ms_mountParams ms)
   \<and> list_of_json lib (json_of_list lib (ms_mountOptions ms)) = Some (ms_mountOptions ms)
   \<and> time_parse lib (time_format lib t) = Some t"

text \<open>The state that a saved state is loaded as.\<close>

definition loaded_form :: "mount_state \<Rightarrow> int \<Rightarrow> mount_state" where
  "loaded_form ms t =
     ms\<lparr>ms_stagingPath := (if ms_stagingPath ms = '''' then ms_targetPath ms else ms_stagingPath ms),
        ms_timestamp := Some t\<rparr>"

definition save_time :: "env \<Rightarrow> mount_state \<Rightarrow> history \<Rightarrow> int" where
  "save_time env ms h = (case ms_timestamp ms of Some t \<Rightarrow> t | None \<Rightarrow> time_now env h)"

section \<open>Lemmas\<close>

lemma secret_data_stored:
  "mget (sec_data (as_stored (state_secret lib sm ms t) v)) k = mget (state_fields lib ms t) k"
proof -
  have "distinct (keys (state_fields lib ms t))" by (simp add: state_fields_def)
  from map_of_map_copy [OF this, of "[]"] show ?thesis
    by (simp add: as_stored_def state_secret_def mget_def)
qed

lemma deserialize_stored:
  assumes "reads_back lib ms t"
  shows "deserializeSecret lib (as_stored (state_secret lib sm ms t) v) = loaded_form ms t"
  using assms unfolding deserializeSecret_def secret_data_stored Let_def
  by (simp add: mget_def state_fields_def reads_back_def loaded_form_def bool_text_def trueValue_def)

lemma stored_simps [simp]:
  "sec_name (as_stored sec v) = sec_name sec" "sec_labels (as_stored sec v) = sec_labels sec"
  by (simp_all add: as_stored_def)

lemma state_secret_simps [simp]:
  "sec_name (state_secret lib sm ms t) = makeSecretName lib (ms_volumeID ms) (ms_targetPath ms)"
  "sec_labels (state_secret lib sm ms t) = state_labels sm"
  by (simp_all add: state_secret_def)

lemma carries_own: "sec_labels sec = state_labels sm \<Longrightarrow> carries (state_labels sm') sec \<longleftrightarrow> sm_nodeID sm = sm_nodeID sm'"
  by (auto simp: carries_def state_labels_def labelAppName_def labelComponent_def labelNodeID_def)

lemma buildSecret_result:
  assumes "serves_reads (kube_of env) st"
  shows "wp (buildSecret env sm ms)
    (\<lambda>sec s'. sec = state_secret (lib_of env) sm ms (save_time env ms (trace s)) \<and> st (trace s') = st (trace s)) s"
  using assms by (simp add: buildSecret_def wp serves_reads_def save_time_def split: option.split)

lemma serves_create:
  assumes "serves_writes k st"
  shows "secretCreate k h sec = (if st h (sec_name sec) = None then None else Some AlreadyExists)"
    and "\<exists>v. st (h @ [Kube (SecretCreate sec)]) =
      (if st h (sec_name sec) = None then (st h)(sec_name sec \<mapsto> as_stored sec v) else st h)"
  using assms unfolding serves_writes_def by blast+

lemma serves_get:
  assumes "serves_reads k st"
  shows "secretGet k h n = (case st h n of None \<Rightarrow> Inl NotFound | Some sec \<Rightarrow> Inr sec)"
    and "st (h @ [Kube (SecretGet n)]) = st h"
  using assms unfolding serves_reads_def by blast+

lemma put_secret_writes:
  assumes "serves_writes (kube_of env) st" and "serves_reads (kube_of env) st"
  shows "wp (put_secret env sec) (\<lambda>r s'. r = Inr () \<and>
     (\<exists>v. st (trace s') = (st (trace s))(sec_name sec \<mapsto> as_stored sec v))) s"
proof (cases "st (trace s) (sec_name sec)")
  case None
  then have "secretCreate (kube_of env) (trace s) sec = None"
    and "\<exists>v. st (trace s @ [Kube (SecretCreate sec)]) = (st (trace s))(sec_name sec \<mapsto> as_stored sec v)"
    using serves_create [OF assms(1), of "trace s" sec] by simp_all
  then show ?thesis by (simp add: put_secret_def wp)
next
  case (Some cur)
  let ?h1 = "trace s @ [Kube (SecretCreate sec)]"
  let ?h2 = "?h1 @ [Kube (SecretGet (sec_name sec))]"
  let ?upd = "sec\<lparr>sec_resourceVersion := sec_resourceVersion cur\<rparr>"
  have h1: "secretCreate (kube_of env) (trace s) sec = Some AlreadyExists" "st ?h1 = st (trace s)"
    using serves_create [OF assms(1), of "trace s" sec] Some by simp_all
  have h2: "secretGet (kube_of env) ?h1 (sec_name sec) = Inr cur" "st ?h2 = st (trace s)"
    unfolding serves_get [OF assms(2)] h1(2) using Some by simp_all
  then have "st ?h2 (sec_name ?upd) = Some cur \<and> sec_resourceVersion cur = sec_resourceVersion ?upd"
    using Some by simp
  then obtain v where h3: "secretUpdate (kube_of env) ?h2 ?upd = None"
    "st (?h2 @ [Kube (SecretUpdate ?upd)]) = (st ?h2)(sec_name ?upd \<mapsto> as_stored ?upd v)"
    using assms(1) unfolding serves_writes_def by blast
  moreover have "as_stored ?upd v = as_stored sec v" by (simp add: as_stored_def)
  ultimately show ?thesis using h1 h2 by (auto simp: put_secret_def wp Let_def)
qed

text \<open>Saving writes the secret of the state, whether or not one was there.\<close>

lemma SaveState_writes:
  assumes "serves_writes (kube_of env) st" and "serves_reads (kube_of env) st" and "Validate (Some ms) = None"
  shows "wp (SaveState env sm ms) (\<lambda>r s'. r = Inr () \<and> (\<exists>v. st (trace s') = (st (trace s))
      (makeSecretName (lib_of env) (ms_volumeID ms) (ms_targetPath ms)
         \<mapsto> as_stored (state_secret (lib_of env) sm ms (save_time env ms (trace s))) v))) s"
proof -
  have "wp (buildSecret env sm ms) (\<lambda>sec. wp (put_secret env sec)
      (\<lambda>r s'. r = Inr () \<and> (\<exists>v. st (trace s') = (st (trace s))
      (makeSecretName (lib_of env) (ms_volumeID ms) (ms_targetPath ms)
         \<mapsto> as_stored (state_secret (lib_of env) sm ms (save_time env ms (trace s))) v)))) s"
    by (rule wp_mono [OF buildSecret_result [OF assms(2)]])
      (auto intro!: wp_mono [OF put_secret_writes [OF assms(1,2)]])
  then show ?thesis using assms(3) by (simp add: SaveState_def wp)
qed

lemma LoadState_reads:
  assumes "serves_reads (kube_of env) st"
  shows "wp (LoadState env sm) (\<lambda>r s'. st (trace s') = st (trace s) \<and> (\<exists>states. r = Inr states
      \<and> set states = deserializeSecret (lib_of env) ` {sec \<in> ran (st (trace s)). carries (state_labels sm) sec})) s"
proof -
  obtain secs where "secretList (kube_of env) (trace s) (state_labels sm) = Inr secs"
    "set secs = {sec \<in> ran (st (trace s)). carries (state_labels sm) sec}"
    "st (trace s @ [Kube (SecretList (state_labels sm))]) = st (trace s)"
    using assms unfolding serves_reads_def by metis
  then show ?thesis by (simp add: LoadState_def wp)
qed

lemma DeleteState_deletes:
  assumes "serves_writes (kube_of env) st" and "volumeID \<noteq> ''''"
  shows "wp (DeleteState env sm volumeID target) (\<lambda>r s'. r = Inr ()
      \<and> st (trace s') = (st (trace s))(makeSecretName (lib_of env) volumeID target := None)) s"
  using assms by (auto simp: DeleteState_def Let_def wp serves_writes_def)

section \<open>An example API\<close>

fun kube_write :: "kube_call \<Rightarrow> nat \<times> (string \<times> secret) list \<Rightarrow> nat \<times> (string \<times> secret) list" where
  "kube_write (SecretCreate sec) (n, m) =
     (Suc n, case map_of m (sec_name sec) of
               None \<Rightarrow> AList.update (sec_name sec) (as_stored sec (nat_text n)) m | Some _ \<Rightarrow> m)"
| "kube_write (SecretUpdate sec) (n, m) =
     (Suc n, case map_of m (sec_name sec) of
               None \<Rightarrow> m
             | Some cur \<Rightarrow> if sec_resourceVersion cur = sec_resourceVersion sec
                          then AList.update (sec_name sec) (as_stored sec (nat_text n)) m else m)"
| "kube_write (SecretDelete name) (n, m) = (Suc n, AList.delete name m)"
| "kube_write (SecretGet name) nm = nm"
| "kube_write (SecretList l) nm = nm"

definition kube_apply :: "ev \<Rightarrow> nat \<times> (string \<times> secret) list \<Rightarrow> nat \<times> (string \<times> secret) list" where
  "kube_apply e nm = (case e of Kube c \<Rightarrow> kube_write c nm | _ \<Rightarrow> nm)"

lemma kube_apply_simps [simp]:
  "kube_apply (Kube c) nm = kube_write c nm" "kube_apply Now nm = nm"
  by (simp_all add: kube_apply_def)

definition api_content :: "history \<Rightarrow> (string \<times> secret) list" where
  "api_content h = snd (fold kube_apply h (0, []))"

definition api_kube :: kube_env where
  "api_kube =
     \<lparr>secretCreate = (\<lambda>h sec. if map_of (api_content h) (sec_name sec) = None then None else Some AlreadyExists),
      secretGet = (\<lambda>h n. case map_of (api_content h) n of None \<Rightarrow> Inl NotFound | Some sec \<Rightarrow> Inr sec),
      secretUpdate = (\<lambda>h sec. case map_of (api_content h) (sec_name sec) of
          None \<Rightarrow> Some NotFound
        | Some cur \<Rightarrow> if sec_resourceVersion cur = sec_resourceVersion sec then None else Some Conflict),
      secretDelete = (\<lambda>h n. if map_of (api_content h) n = None then Some NotFound else None),
      secretList = (\<lambda>h l. Inr (filter (carries l) (map snd (api_content h))))\<rparr>"

lemma api_content_snoc:
  "\<exists>n. api_content (h @ [e]) = snd (kube_apply e (n, api_content h))"
  by (rule exI [of _ "fst (fold kube_apply h (0, []))"]) (simp add: api_content_def)

lemma distinct_api_content: "distinct (keys (api_content h))"
proof -
  have step: "distinct (keys (snd nm)) \<Longrightarrow> distinct (keys (snd (kube_apply e nm)))" for e nm
  proof (cases e)
    case (Kube c)
    moreover assume "distinct (keys (snd nm))"
    ultimately show ?thesis
      by (cases nm; cases c) (auto simp: distinct_update distinct_delete split: option.splits)
  qed (simp_all add: kube_apply_def)
  have "distinct (keys (snd nm)) \<Longrightarrow> distinct (keys (snd (fold kube_apply es nm)))" for nm es
    by (induction es arbitrary: nm) (auto simp: step)
  then show ?thesis by (simp add: api_content_def)
qed

lemma api_content_start: "map_of (api_content (trace start)) = Map.empty"
  by (simp add: start_def api_content_def)

lemma api_content_named: "map_of (api_content h) n = Some sec \<Longrightarrow> sec_name sec = n"
proof -
  let ?ok = "\<lambda>m. \<forall>n sec. map_of m n = Some sec \<longrightarrow> sec_name sec = n"
  have step: "?ok (snd nm) \<Longrightarrow> ?ok (snd (kube_apply e nm))" for e nm
  proof (cases e)
    case (Kube c)
    moreover assume "?ok (snd nm)"
    ultimately show ?thesis
      by (cases nm; cases c) (auto split: option.splits if_splits)
  qed (simp_all add: kube_apply_def)
  have "?ok (snd nm) \<Longrightarrow> ?ok (snd (fold kube_apply es nm))" for nm es
  proof (induction es arbitrary: nm)
    case (Cons e es)
    from Cons.IH [OF step [OF Cons.prems]] show ?case by simp
  qed simp
  from this [of "(0, [])" h] show "map_of (api_content h) n = Some sec \<Longrightarrow> sec_name sec = n"
    by (simp add: api_content_def)
qed

lemma api_serves_writes: "serves_writes api_kube (\<lambda>h. map_of (api_content h))"
proof -
  have create: "\<exists>v. map_of (api_content (h @ [Kube (SecretCreate sec)])) =
        (if map_of (api_content h) (sec_name sec) = None
         then (map_of (api_content h))(sec_name sec \<mapsto> as_stored sec v) else map_of (api_content h))" for h sec
  proof -
    obtain n where "api_content (h @ [Kube (SecretCreate sec)])
        = snd (kube_apply (Kube (SecretCreate sec)) (n, api_content h))"
      using api_content_snoc by blast
    then show ?thesis by (intro exI [of _ "nat_text n"]) (simp split: option.split)
  qed
  have update: "\<exists>v. map_of (api_content (h @ [Kube (SecretUpdate sec)])) =
        (map_of (api_content h))(sec_name sec \<mapsto> as_stored sec v)"
    if "map_of (api_content h) (sec_name sec) = Some cur" "sec_resourceVersion cur = sec_resourceVersion sec"
    for h sec cur
    using api_content_snoc [of h "Kube (SecretUpdate sec)"] that by auto
  have delete: "map_of (api_content (h @ [Kube (SecretDelete n)])) = (map_of (api_content h))(n := None)" for h n
    using api_content_snoc [of h "Kube (SecretDelete n)"] by auto
  show ?thesis
    unfolding serves_writes_def using create update by (simp add: api_kube_def delete)
qed

lemma api_serves_reads: "serves_reads api_kube (\<lambda>h. map_of (api_content h))"
proof -
  have "api_content (h @ [e]) = api_content h" if "e = Now \<or> (\<exists>n. e = Kube (SecretGet n)) \<or> (\<exists>l. e = Kube (SecretList l))"
    for h e
    using that by (auto simp: api_content_def)
  moreover have "set (filter (carries l) (map snd (api_content h)))
      = {sec \<in> ran (map_of (api_content h)). carries l sec}" for h l
    using ran_distinct [OF distinct_api_content [of h]] by auto
  ultimately show ?thesis
    by (simp add: serves_reads_def api_kube_def)
qed

definition api_env :: env where
  "api_env = example_env\<lparr>kube_of := api_kube\<rparr>"

definition example_state :: mount_state where
  "example_state = \<lparr>ms_volumeID = ''vol-a'', ms_stagingPath = '''', ms_targetPath = ''/pods/1'',
     ms_timestamp = Some 7, ms_configData = ''[s3]'', ms_remoteName = ''s3'', ms_remotePath = ''data'',
     ms_remoteType = '''', ms_mountParams = [], ms_mountOptions = [], ms_readOnly = True\<rparr>"

lemma api_env_simps [simp]: "kube_of api_env = api_kube" "lib_of api_env = example_lib"
  by (simp_all add: api_env_def example_env_def)

lemma example_state_valid: "Validate (Some example_state) = None"
  by (simp add: Validate_def example_state_def)

lemma example_state_reads_back: "reads_back example_lib example_state 7"
proof -
  have "int_text 7 = ''7''" "atoi ''7'' = Some 7" by code_simp+
  then show ?thesis by (simp add: reads_back_def example_lib_def example_state_def)
qed

section \<open>Properties\<close>



text \<open>
  Property C32: the name of a state secret ignores the node. When two nodes save a state for
  the same volume and path, the second takes over the secret of the first, and
  \<open>LoadState\<close> on the first node no longer returns any state of that volume and path.
\<close>

theorem SaveState_other_node:
  assumes "serves_writes (kube_of env) st" and "serves_reads (kube_of env) st"
    and "Validate (Some ms) = None" and "Validate (Some ms') = None"
    and "ms_volumeID ms' = ms_volumeID ms" and "ms_targetPath ms' = ms_targetPath ms"
    and "sm_nodeID a \<noteq> sm_nodeID b" and "st (trace s) = Map.empty"
    and "run_state (SaveState env a ms) s = (r, s1)" and "run_state (SaveState env b ms') s1 = (r', s2)"
    and "run_state (LoadState env a) s2 = (q, s3)"
  shows "r = Inr () \<and> r' = Inr () \<and> q = Inr []"
proof -
  obtain sec where "r = Inr ()"
    "st (trace s1) = [makeSecretName (lib_of env) (ms_volumeID ms) (ms_targetPath ms) \<mapsto> sec]"
    using wp_runD [OF SaveState_writes [OF assms(1,2,3)] assms(9)] assms(8) by auto
  moreover obtain v where "r' = Inr ()"
    "st (trace s2) = (st (trace s1))(makeSecretName (lib_of env) (ms_volumeID ms) (ms_targetPath ms)
        \<mapsto> as_stored (state_secret (lib_of env) b ms' (save_time env ms' (trace s1))) v)"
    using wp_runD [OF SaveState_writes [OF assms(1,2,4)] assms(10)] assms(5,6) by auto
  moreover define sec' where "sec' = as_stored (state_secret (lib_of env) b ms' (save_time env ms' (trace s1))) v"
  ultimately have sec': "r = Inr () \<and> r' = Inr ()" "ran (st (trace s2)) = {sec'}" "sec_labels sec' = state_labels b"
    by auto
  have "\<not> carries (state_labels a) sec'"
    using carries_own [OF sec'(3), of a] assms(7) by simp
  then have "{sec \<in> ran (st (trace s2)). carries (state_labels a) sec} = {}" unfolding sec'(2) by auto
  then show ?thesis
    using wp_runD [OF LoadState_reads [OF assms(2)] assms(11)] sec'(1) by (auto simp del: Collect_empty_eq)
qed

theorem SaveState_other_node_witness:
  "let a = \<lparr>sm_namespace = ''csi'', sm_nodeID = ''n1''\<rparr>; b = \<lparr>sm_namespace = ''csi'', sm_nodeID = ''n2''\<rparr>;
       s1 = snd (run_state (SaveState api_env a example_state) start);
       s2 = snd (run_state (SaveState api_env b example_state) s1)
   in fst (run_state (LoadState api_env a) s2) = Inr []"
proof -
  let ?a = "\<lparr>sm_namespace = ''csi'', sm_nodeID = ''n1''\<rparr>"
  let ?b = "\<lparr>sm_namespace = ''csi'', sm_nodeID = ''n2''\<rparr>"
  obtain r s1 where 1: "run_state (SaveState api_env ?a example_state) start = (r, s1)" by fastforce
  obtain r' s2 where 2: "run_state (SaveState api_env ?b example_state) s1 = (r', s2)" by fastforce
  obtain q s3 where 3: "run_state (LoadState api_env ?a) s2 = (q, s3)" by fastforce
  have "r = Inr () \<and> r' = Inr () \<and> q = Inr []"
    by (rule SaveState_other_node [where st = "\<lambda>h. map_of (api_content h)", OF _ _ example_state_valid example_state_valid refl refl _ _ 1 2 3])
      (simp_all add: api_serves_writes api_serves_reads api_content_start)
  with 1 2 3 show ?thesis by simp
qed

text \<open>
  \<open>DeleteState\<close> succeeds whether or not the secret is there, removes exactly the
  secret of its volume and target, and undoes a \<open>SaveState\<close> into an empty place.
\<close>

theorem DeleteState_undoes_SaveState:
  assumes "serves_writes (kube_of env) st" and "serves_reads (kube_of env) st"
    and "Validate (Some ms) = None"
    and "run_state (SaveState env sm ms) s = (r, s1)"
    and "run_state (DeleteState env sm (ms_volumeID ms) (ms_targetPath ms)) s1 = (q, s2)"
    and "run_state (DeleteState env sm (ms_volumeID ms) (ms_targetPath ms)) s2 = (q', s3)"
  shows "q = Inr () \<and> q' = Inr () \<and> st (trace s3) = st (trace s2)
    \<and> st (trace s2) = (st (trace s))(makeSecretName (lib_of env) (ms_volumeID ms) (ms_targetPath ms) := None)"
proof -
  have ne: "ms_volumeID ms \<noteq> ''''" using assms(3) by (simp add: Validate_def split: if_splits)
  show ?thesis
    using wp_runD [OF SaveState_writes [OF assms(1,2,3)] assms(4)]
      wp_runD [OF DeleteState_deletes [OF assms(1) ne] assms(5)]
      wp_runD [OF DeleteState_deletes [OF assms(1) ne] assms(6)] by auto
qed

theorem DeleteState_undoes_SaveState_witness:
  "let sm = \<lparr>sm_namespace = ''csi'', sm_nodeID = ''n1''\<rparr>;
       s1 = snd (run_state (SaveState api_env sm example_state) start)
   in fst (run_state (DeleteState api_env sm ''vol-a'' ''/pods/1'') s1) = Inr ()"
proof -
  let ?sm = "\<lparr>sm_namespace = ''csi'', sm_nodeID = ''n1''\<rparr>"
  have id: "ms_volumeID example_state = ''vol-a''" "ms_targetPath example_state = ''/pods/1''"
    by (simp_all add: example_state_def)
  obtain r s1 where 1: "run_state (SaveState api_env ?sm example_state) start = (r, s1)" by fastforce
  obtain q s2 where 2: "run_state (DeleteState api_env ?sm ''vol-a'' ''/pods/1'') s1 = (q, s2)" by fastforce
  obtain q' s3 where 3: "run_state (DeleteState api_env ?sm ''vol-a'' ''/pods/1'') s2 = (q', s3)" by fastforce
  have "q = Inr ()"
    using DeleteState_undoes_SaveState [OF _ _ example_state_valid 1, unfolded id, OF _ _ 2 3]
      api_serves_writes api_serves_reads by simp
  with 1 2 show ?thesis by simp
qed

end
