(* ===== verification/Mount_Health.thy ===== *)
theory Mount_Health
  imports Volume_Locks
begin

text \<open>
  The mount probes of pkg/rclone/mount_health.go. A probe reads the directory; the operating
  system's error says whether the mount is corrupted. The probe with a deadline is given
  twice: as what one call returns, and as the system of all concurrent calls over the one
  probe slot of the process.
\<close>

section \<open>Probes\<close>

text \<open>A reason text is its format with the arguments, \<open>None\<close> the empty text.\<close>

type_synonym reason = "(string \<times> arg list) option"

definition IsMountPathCorrupted :: "env \<Rightarrow> string \<Rightarrow> ('w world_scheme, bool \<times> reason) state" where
  "IsMountPathCorrupted env path = do {
     err \<leftarrow> call (Os (ReadDir path)) (\<lambda>h. readDir (os_of env) h path);
     State_Monad.return (case err of
        None \<Rightarrow> (False, None)
      | Some e \<Rightarrow> if oe_corrupted e then (True, Some (''mount point corrupted: %v'', [E (OsError e)]))
                  else (False, None)) }"

definition IsMountPathHealthy :: "env \<Rightarrow> string \<Rightarrow> ('w world_scheme, bool \<times> reason) state" where
  "IsMountPathHealthy env path = do {
     (corrupted, msg) \<leftarrow> IsMountPathCorrupted env path;
     if corrupted then State_Monad.return (False, msg)
     else do {
       err \<leftarrow> call (Os (ReadDir path)) (\<lambda>h. readDir (os_of env) h path);
       State_Monad.return (case err of
          None \<Rightarrow> (True, None)
        | Some e \<Rightarrow> (False, Some (''mount point not accessible: %v'', [E (OsError e)]))) } }"

definition maxConcurrentTimedMountProbes :: nat where
  "maxConcurrentTimedMountProbes = 1"

definition unavailable_reason :: "int \<Rightarrow> reason" where
  "unavailable_reason timeout = Some (''mount probe unavailable after %s'', [N timeout])"

definition timeout_reason :: "int \<Rightarrow> reason" where
  "timeout_reason timeout = Some (''mount probe timed out after %s'', [N timeout])"

text \<open>
  \<open>probeMountPathWithTimeout\<close> as its caller sees it. The first \<open>select\<close> waits for the slot
  and the second for the result, both against one timer; the probe runs in a goroutine
  whether or not its result comes in time.
\<close>

definition probeMountPathWithTimeout ::
    "env \<Rightarrow> int \<Rightarrow> ('w world_scheme, bool \<times> reason) state \<Rightarrow> ('w world_scheme, bool \<times> reason) state" where
  "probeMountPathWithTimeout env timeout probe =
     (if timeout \<le> 0 then probe
      else do {
        no_slot \<leftarrow> call Select (timer_first env);
        if no_slot then State_Monad.return (False, unavailable_reason timeout)
        else do {
          res \<leftarrow> probe;
          late \<leftarrow> call Select (timer_first env);
          State_Monad.return (if late then (True, timeout_reason timeout) else res) } })"

definition IsMountPathCorruptedWithTimeout :: "env \<Rightarrow> string \<Rightarrow> int \<Rightarrow> ('w world_scheme, bool \<times> reason) state" where
  "IsMountPathCorruptedWithTimeout env path timeout =
     probeMountPathWithTimeout env timeout (IsMountPathCorrupted env path)"

lemma keeps_IsMountPathCorrupted [frame]: "off_world p \<Longrightarrow> keeps p (IsMountPathCorrupted env path)"
  by (auto simp: IsMountPathCorrupted_def intro!: frame)

lemma keeps_IsMountPathHealthy [frame]: "off_world p \<Longrightarrow> keeps p (IsMountPathHealthy env path)"
  by (auto simp: IsMountPathHealthy_def intro!: frame)

lemma adds_IsMountPathCorrupted [frame]:
  "P (Os (ReadDir path)) \<Longrightarrow> adds P (IsMountPathCorrupted env path)"
  by (auto simp: IsMountPathCorrupted_def intro!: frame)

lemma adds_IsMountPathHealthy [frame]: "P (Os (ReadDir path)) \<Longrightarrow> adds P (IsMountPathHealthy env path)"
  by (auto simp: IsMountPathHealthy_def intro!: frame)

section \<open>Concurrent probes\<close>

text \<open>
  All calls with a positive timeout, numbered. A caller waits for the slot, then for the
  result; its goroutine holds the slot until the probe has answered.
\<close>

datatype caller = Idle | Waiting | Probing | Returned bool reason

record probes =
  callers :: "nat \<Rightarrow> caller"
  running :: "nat set" \<comment> \<open>the goroutines between taking and freeing a slot\<close>
  sent :: "nat \<Rightarrow> (bool \<times> reason) option" \<comment> \<open>the buffered result channels\<close>

inductive probe_step :: "int \<Rightarrow> probes \<Rightarrow> probes \<Rightarrow> bool" for timeout where
  call_probe: "callers s i = Idle \<Longrightarrow> probe_step timeout s (s\<lparr>callers := (callers s)(i := Waiting)\<rparr>)"
| take_slot: "callers s i = Waiting \<Longrightarrow> card (running s) < maxConcurrentTimedMountProbes \<Longrightarrow>
    probe_step timeout s (s\<lparr>callers := (callers s)(i := Probing), running := insert i (running s)\<rparr>)"
| no_slot: "callers s i = Waiting \<Longrightarrow>
    probe_step timeout s (s\<lparr>callers := (callers s)(i := Returned False (unavailable_reason timeout))\<rparr>)"
| answer: "i \<in> running s \<Longrightarrow> sent s i = None \<Longrightarrow>
    probe_step timeout s (s\<lparr>sent := (sent s)(i \<mapsto> res)\<rparr>)"
| free_slot: "i \<in> running s \<Longrightarrow> sent s i \<noteq> None \<Longrightarrow>
    probe_step timeout s (s\<lparr>running := running s - {i}\<rparr>)"
| receive: "callers s i = Probing \<Longrightarrow> sent s i = Some (c, r) \<Longrightarrow>
    probe_step timeout s (s\<lparr>callers := (callers s)(i := Returned c r)\<rparr>)"
| give_up: "callers s i = Probing \<Longrightarrow>
    probe_step timeout s (s\<lparr>callers := (callers s)(i := Returned True (timeout_reason timeout))\<rparr>)"

definition no_probes :: probes where
  "no_probes = \<lparr>callers = (\<lambda>_. Idle), running = {}, sent = (\<lambda>_. None)\<rparr>"

inductive probe_reach :: "int \<Rightarrow> probes \<Rightarrow> bool" for timeout where
  initially: "probe_reach timeout no_probes"
| later: "probe_reach timeout s \<Longrightarrow> probe_step timeout s s' \<Longrightarrow> probe_reach timeout s'"

text \<open>
  The invariant: at most one goroutine is in the slot, only callers past the slot have one,
  and a caller that returned got an answer of its probe, gave up on a probe that had the
  slot, or never had the slot and then reports no corruption.
\<close>

definition returned_well :: "int \<Rightarrow> probes \<Rightarrow> nat \<Rightarrow> bool" where
  "returned_well timeout s i =
     (case callers s i of
        Returned c r \<Rightarrow> sent s i = Some (c, r) \<or> (c \<and> r = timeout_reason timeout)
          \<or> (\<not> c \<and> r = unavailable_reason timeout \<and> i \<notin> running s)
      | Probing \<Rightarrow> i \<in> running s \<or> sent s i \<noteq> None
      | _ \<Rightarrow> i \<notin> running s \<and> sent s i = None)"

definition probes_inv :: "int \<Rightarrow> probes \<Rightarrow> bool" where
  "probes_inv timeout s \<longleftrightarrow> finite (running s) \<and> card (running s) \<le> maxConcurrentTimedMountProbes
     \<and> (\<forall>i. returned_well timeout s i)"

lemma probes_inv_step:
  assumes "probes_inv timeout s" and "probe_step timeout s s'"
  shows "probes_inv timeout s'"
proof -
  have "returned_well timeout s' j" if "returned_well timeout s j" for j
    using assms(2) that
    by (cases rule: probe_step.cases) (auto simp: returned_well_def split: caller.splits if_splits)
  moreover have "finite (running s') \<and> card (running s') \<le> maxConcurrentTimedMountProbes"
    using assms(2,1)
  proof (cases rule: probe_step.cases)
    case (free_slot i)
    with assms(1) card_Diff1_le [of "running s" i] show ?thesis
      by (auto simp: probes_inv_def simp del: card_Diff_insert intro: le_trans)
  qed (auto simp: probes_inv_def card_insert_if)
  ultimately show ?thesis using assms(1) by (auto simp: probes_inv_def)
qed

lemma probe_reach_inv: "probe_reach timeout s \<Longrightarrow> probes_inv timeout s"
proof (induction rule: probe_reach.induct)
  case initially
  show ?case by (simp add: probes_inv_def no_probes_def returned_well_def)
qed (rule probes_inv_step)

section \<open>Properties\<close>



end
