(* ===== verification/Node_State.thy ===== *)
theory Node_State
  imports Config_Isolation Mount_State Mount_Health
begin

text \<open>
  The state of the node server (\<open>NodeServer\<close> of pkg/rclone/nodeserver.go): its two caches,
  the mounts of published and staged volumes by path and the staged volumes by volume ID,
  and the orphan mounts that wait for their reaper. The locale \<open>keyed_cache\<close> is the contract
  of both caches.
\<close>

section \<open>The interface of a cache\<close>

datatype ('k, 'v) cache_op = Store 'k 'v | Remove 'k

fun op_key :: "('k, 'v) cache_op \<Rightarrow> 'k" where
  "op_key (Store k v) = k"
| "op_key (Remove k) = k"

locale keyed_cache =
  fixes lookup :: "'s \<Rightarrow> 'k \<Rightarrow> 'v option"
    and store :: "'k \<Rightarrow> 'v \<Rightarrow> 's \<Rightarrow> 's"
    and remove :: "'k \<Rightarrow> 's \<Rightarrow> 's"
  assumes lookup_store: "lookup (store k v s) j = (if j = k then Some v else lookup s j)"
    and lookup_remove: "lookup (remove k s) j = (if j = k then None else lookup s j)"
begin

definition apply_op :: "('k, 'v) cache_op \<Rightarrow> 's \<Rightarrow> 's" where
  "apply_op oper s = (case oper of Store k v \<Rightarrow> store k v s | Remove k \<Rightarrow> remove k s)"

lemma lookup_other: "op_key oper \<noteq> j \<Longrightarrow> lookup (apply_op oper s) j = lookup s j"
  by (cases oper) (auto simp: apply_op_def lookup_store lookup_remove)

text \<open>What a key holds depends on the operations on that key only.\<close>

lemma lookup_only_own:
  "lookup (fold apply_op ops s) j = lookup (fold apply_op (filter (\<lambda>oper. op_key oper = j) ops) s) j"
proof (induction ops arbitrary: s rule: rev_induct)
  case (snoc oper ops)
  show ?case
  proof (cases "op_key oper = j")
    case True
    have "lookup (apply_op oper s') j = lookup (apply_op oper s'') j" for s' s''
      using True by (cases oper) (simp_all add: apply_op_def lookup_store lookup_remove)
    with True show ?thesis by simp
  qed (use snoc lookup_other in simp)
qed simp

lemma last_store: "op_key oper = j \<Longrightarrow>
    lookup (fold apply_op (ops @ [oper]) s) j = (case oper of Store _ v \<Rightarrow> Some v | Remove _ \<Rightarrow> None)"
  by (cases oper) (simp_all add: apply_op_def lookup_store lookup_remove)

lemma remove_store: "lookup s k = None \<Longrightarrow> lookup (remove k (store k v s)) j = lookup s j"
  by (simp add: lookup_store lookup_remove)

end

section \<open>State\<close>

text \<open>
  \<open>mc_cancel\<close> lists the contexts that calling the \<open>cancel\<close> function cancels; it is empty for
  a nil function. A mount context is not changed after it has been stored, so sharing the
  pointer between the caches is sharing the value.
\<close>

record mount_context =
  mc_mountPoint :: "mount_point option"
  mc_remoteName :: string
  mc_remotes :: "string list"
  mc_cancel :: "nat list"
  mc_ctx :: "nat option"

record staged_volume =
  sv_volumeID :: string
  sv_stagingPath :: string
  sv_mountCtx :: "mount_context option"
  sv_readOnly :: bool

text \<open>
  A mount that runs in the background for \<open>NodePublishVolume\<close>: what its goroutine mounts, in
  which context, and what the handler or the reaper must give back.
\<close>

record mount_job =
  job_fsPath :: string
  job_target :: string
  job_options :: "string list"
  job_params :: smap
  job_attempt :: nat \<comment> \<open>\<open>attemptCtx\<close>\<close>
  job_remotes :: "string list"
  job_lockKey :: string

record node = lock_world +
  mountContext :: "(string \<times> mount_context) list"
  stagedVolumes :: "(string \<times> staged_volume) list"
  orphans :: "mount_job list"

text \<open>What is fixed when the server starts (\<open>Driver\<close> and \<open>mountStateManager\<close>).\<close>

record node_config =
  cf_nodeID :: string
  cf_name :: string
  cf_staging :: bool
  cf_mountTimeout :: int
  cf_stateManager :: "state_manager option"

definition defaultMountTimeout :: int where
  "defaultMountTimeout = 90 * 10 ^ 9"

definition gracefulUnmountTimeout :: int where
  "gracefulUnmountTimeout = 30 * 10 ^ 9"

definition mountTimeout :: "node_config \<Rightarrow> int" where
  "mountTimeout cf = (if 0 < cf_mountTimeout cf then cf_mountTimeout cf else defaultMountTimeout)"

definition initial_node :: node where
  "initial_node = \<lparr>trace = [], nextCtx = 0, locks = NewVolumeLocks, mountContext = [], stagedVolumes = [],
     orphans = []\<rparr>"

section \<open>The caches\<close>

definition mount_at :: "node \<Rightarrow> string \<Rightarrow> mount_context option" where
  "mount_at s p = map_of (mountContext s) p"

definition put_mount :: "string \<Rightarrow> mount_context \<Rightarrow> node \<Rightarrow> node" where
  "put_mount p mc s = s\<lparr>mountContext := AList.update p mc (mountContext s)\<rparr>"

definition drop_mount :: "string \<Rightarrow> node \<Rightarrow> node" where
  "drop_mount p s = s\<lparr>mountContext := AList.delete p (mountContext s)\<rparr>"

definition staged_at :: "node \<Rightarrow> string \<Rightarrow> staged_volume option" where
  "staged_at s v = map_of (stagedVolumes s) v"

definition put_staged :: "string \<Rightarrow> staged_volume \<Rightarrow> node \<Rightarrow> node" where
  "put_staged v sv s = s\<lparr>stagedVolumes := AList.update v sv (stagedVolumes s)\<rparr>"

definition drop_staged :: "string \<Rightarrow> node \<Rightarrow> node" where
  "drop_staged v s = s\<lparr>stagedVolumes := AList.delete v (stagedVolumes s)\<rparr>"

interpretation mounts: keyed_cache mount_at put_mount drop_mount
  by unfold_locales (auto simp: mount_at_def put_mount_def drop_mount_def)

interpretation staged: keyed_cache staged_at put_staged drop_staged
  by unfold_locales (auto simp: staged_at_def put_staged_def drop_staged_def)

definition getMountContext :: "string \<Rightarrow> (node, mount_context option) state" where
  "getMountContext p = gets (\<lambda>s. mount_at s p)"

definition setMountContext :: "string \<Rightarrow> mount_context \<Rightarrow> (node, unit) state" where
  "setMountContext p mc = modify (put_mount p mc)"

definition deleteMountContext :: "string \<Rightarrow> (node, unit) state" where
  "deleteMountContext p = modify (drop_mount p)"

definition getStagedVolume :: "string \<Rightarrow> (node, staged_volume option) state" where
  "getStagedVolume v = gets (\<lambda>s. staged_at s v)"

definition setStagedVolume :: "string \<Rightarrow> staged_volume \<Rightarrow> (node, unit) state" where
  "setStagedVolume v sv = modify (put_staged v sv)"

definition deleteStagedVolume :: "string \<Rightarrow> (node, unit) state" where
  "deleteStagedVolume v = modify (drop_staged v)"

lemma wp_caches [wp]:
  "wp (getMountContext p) R = (\<lambda>s. R (mount_at s p) s)"
  "wp (setMountContext p mc) Q = (\<lambda>s. Q () (put_mount p mc s))"
  "wp (deleteMountContext p) Q = (\<lambda>s. Q () (drop_mount p s))"
  "wp (getStagedVolume v) T = (\<lambda>s. T (staged_at s v) s)"
  "wp (setStagedVolume v sv) Q = (\<lambda>s. Q () (put_staged v sv s))"
  "wp (deleteStagedVolume v) Q = (\<lambda>s. Q () (drop_staged v s))"
  by (simp_all add: getMountContext_def setMountContext_def deleteMountContext_def
      getStagedVolume_def setStagedVolume_def deleteStagedVolume_def wp)

section \<open>What an operation keeps\<close>

lemma node_updates [simp]:
  "trace (put_mount p mc s) = trace s" "trace (drop_mount p s) = trace s"
  "trace (put_staged v sv s) = trace s" "trace (drop_staged v s) = trace s"
  "locks (put_mount p mc s) = locks s" "locks (drop_mount p s) = locks s"
  "locks (put_staged v sv s) = locks s" "locks (drop_staged v s) = locks s"
  "orphans (put_mount p mc s) = orphans s" "orphans (drop_mount p s) = orphans s"
  "orphans (put_staged v sv s) = orphans s" "orphans (drop_staged v s) = orphans s"
  "staged_at (put_mount p mc s) = staged_at s" "staged_at (drop_mount p s) = staged_at s"
  "mount_at (put_staged v sv s) = mount_at s" "mount_at (drop_staged v s) = mount_at s"
  "mount_at (put_mount p mc s) = (mount_at s)(p \<mapsto> mc)"
  "mount_at (drop_mount p s) = (mount_at s)(p := None)"
  "staged_at (put_staged v sv s) = (staged_at s)(v \<mapsto> sv)"
  "staged_at (drop_staged v s) = (staged_at s)(v := None)"
  by (auto simp: put_mount_def drop_mount_def put_staged_def drop_staged_def staged_at_def mount_at_def
      fun_eq_iff)

lemma mount_at_world [simp]:
  "mount_at (s\<lparr>trace := t\<rparr>) = mount_at s" "mount_at (s\<lparr>nextCtx := n\<rparr>) = mount_at s"
  "mount_at (s\<lparr>locks := l\<rparr>) = mount_at s" "mount_at (s\<lparr>orphans := os\<rparr>) = mount_at s"
  "staged_at (s\<lparr>trace := t\<rparr>) = staged_at s" "staged_at (s\<lparr>nextCtx := n\<rparr>) = staged_at s"
  "staged_at (s\<lparr>locks := l\<rparr>) = staged_at s" "staged_at (s\<lparr>orphans := os\<rparr>) = staged_at s"
  by (auto simp: mount_at_def staged_at_def fun_eq_iff)

lemma off_locks_node [frame]:
  "off_locks mount_at" "off_locks staged_at" "off_locks orphans" "off_locks mountContext"
  "off_locks stagedVolumes"
  by (simp_all add: off_locks_def off_world_def)

lemma off_world_locks [frame]: "off_world locks"
  by (simp add: off_world_def)

lemma keeps_caches [frame]:
  "keeps staged_at (setMountContext p mc)" "keeps staged_at (deleteMountContext p)"
  "keeps mount_at (setStagedVolume v sv)" "keeps mount_at (deleteStagedVolume v)"
  "keeps orphans (setMountContext p mc)" "keeps orphans (deleteMountContext p)"
  "keeps orphans (setStagedVolume v sv)" "keeps orphans (deleteStagedVolume v)"
  "keeps locks (setMountContext p mc)" "keeps locks (deleteMountContext p)"
  "keeps locks (setStagedVolume v sv)" "keeps locks (deleteStagedVolume v)"
  "keeps q (getMountContext p)" "keeps q (getStagedVolume v)"
  by (simp_all add: keeps_def setMountContext_def deleteMountContext_def setStagedVolume_def
      deleteStagedVolume_def getMountContext_def getStagedVolume_def)

lemma adds_caches [frame]:
  "adds P (setMountContext p mc)" "adds P (deleteMountContext p)"
  "adds P (setStagedVolume v sv)" "adds P (deleteStagedVolume v)"
  "adds P (getMountContext p)" "adds P (getStagedVolume v)"
  by (simp_all add: adds_def setMountContext_def deleteMountContext_def setStagedVolume_def
      deleteStagedVolume_def getMountContext_def getStagedVolume_def)

end
