(* ===== verification/Node_Mount.thy ===== *)
theory Node_Mount
  imports Node_State
begin

text \<open>
  Mounting and unmounting in pkg/rclone/nodeserver.go: the target directory, the flags and
  options handed to rclone, \<open>createAndMountFilesystem\<close> with its context, the wait for the
  VFS cache and \<open>unmountVolume\<close>.
\<close>

section \<open>The target directory\<close>

text \<open>
  \<open>mount.CleanupMountWithForce\<close> when the mounter can force, else \<open>mount.CleanupMountPoint\<close>.
\<close>

definition forceCleanupMount :: "env \<Rightarrow> string \<Rightarrow> ('w world_scheme, gerr option) state" where
  "forceCleanupMount env target =
     call (Os (CleanupMount target (forceUnmounter (os_of env)))) (\<lambda>h. cleanupMount (os_of env) h target)"

definition mkdir_all :: "env \<Rightarrow> string \<Rightarrow> ('w world_scheme, os_err option) state" where
  "mkdir_all env path = call (Os (MkdirAll path)) (\<lambda>h. mkdirAll (os_of env) h path)"

text \<open>Force the stale mount away and recreate the directory, with the two messages of the code.\<close>

definition clean_and_recreate ::
    "env \<Rightarrow> string \<Rightarrow> (gerr \<Rightarrow> gerr) \<Rightarrow> (os_err \<Rightarrow> gerr) \<Rightarrow> ('w world_scheme, gerr + unit) state" where
  "clean_and_recreate env target cleanup_failed mkdir_failed = do {
     cerr \<leftarrow> forceCleanupMount env target;
     case cerr of
       Some e \<Rightarrow> fail (cleanup_failed e)
     | None \<Rightarrow> do {
         derr \<leftarrow> mkdir_all env target;
         case derr of Some e \<Rightarrow> fail (mkdir_failed e) | None \<Rightarrow> ok () } }"

definition corrupted_cleanup_failed :: "gerr \<Rightarrow> gerr" where
  "corrupted_cleanup_failed e = Status Internal ''corrupted mount could not be cleaned up: %v'' [E e]"

definition recreate_failed :: "os_err \<Rightarrow> gerr" where
  "recreate_failed e = Status Internal ''failed to recreate target directory after cleanup: %v'' [E (OsError e)]"

text \<open>What the first check of the path finds: \<open>notMnt\<close>, after creating or cleaning it where needed.\<close>

definition check_target :: "env \<Rightarrow> string \<Rightarrow> ('w world_scheme, gerr + bool) state" where
  "check_target env target = do {
     r \<leftarrow> call (Os (IsLikelyNotMountPoint target)) (\<lambda>h. isLikelyNotMountPoint (os_of env) h target);
     case r of
       Inr notMnt \<Rightarrow> ok notMnt
     | Inl e \<Rightarrow>
         if oe_not_exist e then do {
           derr \<leftarrow> mkdir_all env target;
           case derr of Some d \<Rightarrow> fail (Status Internal ''%v'' [E (OsError d)]) | None \<Rightarrow> ok True }
         else if oe_corrupted e then do {
           c \<leftarrow> clean_and_recreate env target corrupted_cleanup_failed recreate_failed;
           case c of Inl ce \<Rightarrow> fail ce | Inr _ \<Rightarrow> ok True }
         else fail (Status Internal ''%v'' [E (OsError e)]) }"

definition prepareTargetDirectory :: "env \<Rightarrow> string \<Rightarrow> ('w world_scheme, gerr + unit) state" where
  "prepareTargetDirectory env target = do {
     r \<leftarrow> check_target env target;
     case r of
       Inl e \<Rightarrow> fail e
     | Inr notMnt \<Rightarrow> do {
         c \<leftarrow> (if notMnt then ok ()
              else do {
                readErr \<leftarrow> call (Os (ReadDir target)) (\<lambda>h. readDir (os_of env) h target);
                case readErr of
                  None \<Rightarrow> fail ErrMountAlreadyHealthy
                | Some _ \<Rightarrow> clean_and_recreate env target corrupted_cleanup_failed recreate_failed });
         case c of
           Inl e \<Rightarrow> fail e
         | Inr _ \<Rightarrow> do {
             call (Os (Chmod target)) (\<lambda>h. chmod (os_of env) h target);
             ok () } } }"

section \<open>Options\<close>

definition set_dir ::
    "smap \<Rightarrow> string \<Rightarrow> (string \<Rightarrow> rc_call) \<Rightarrow> (history \<Rightarrow> string \<Rightarrow> gerr option) \<Rightarrow> string
       \<Rightarrow> ('w world_scheme, gerr + unit) state" where
  "set_dir params key c answer msg =
     (case map_of params key of
        None \<Rightarrow> ok ()
      | Some dir \<Rightarrow> do {
          r \<leftarrow> call (Rc (c dir)) (\<lambda>h. answer h dir);
          case r of Some e \<Rightarrow> fail (Status Internal msg [E e]) | None \<Rightarrow> ok () })"

text \<open>\<open>setRcloneConfigFlags\<close>. Any value of \<open>log_level\<close> sets the level to debug.\<close>

definition config_map :: "lib \<Rightarrow> smap \<Rightarrow> smap" where
  "config_map lib params =
     fold (\<lambda>(k, v) m. if is_config_option lib k then AList.update k v m else m) params []"

definition setRcloneConfigFlags :: "env \<Rightarrow> smap \<Rightarrow> ('w world_scheme, gerr + unit) state" where
  "setRcloneConfigFlags env params = do {
     r1 \<leftarrow> set_dir params paramCacheDir SetCacheDir (setCacheDir (rc_of env)) ''failed to set cache directory: %v'';
     case r1 of Inl e \<Rightarrow> fail e | Inr _ \<Rightarrow> do {
     r2 \<leftarrow> set_dir params paramTmpDir SetTempDir (setTempDir (rc_of env)) ''failed to set temp directory: %v'';
     case r2 of Inl e \<Rightarrow> fail e | Inr _ \<Rightarrow> do {
     (if map_of params paramLogLevel \<noteq> None then emit (Rc SetLogLevel) else State_Monad.return ());
     (case map_of params paramDisabledFeatures of
        Some f \<Rightarrow> emit (Rc (DisableFeatures (split_on (CHR '','') f))) | None \<Rightarrow> State_Monad.return ());
     let m = config_map (lib_of env) params;
     r3 \<leftarrow> call (Rc (ConfigInfoSet m)) (\<lambda>h. configInfoSet (rc_of env) h m);
     case r3 of
       Some e \<Rightarrow> fail (Errorf ''failed to update global config: %v'' [E e])
     | None \<Rightarrow> do {
         r4 \<leftarrow> call (Rc ConfigReload) (\<lambda>h. configReload (rc_of env) h);
         case r4 of Some e \<Rightarrow> fail (Errorf ''failed to reload config changes: %v'' [E e]) | None \<Rightarrow> ok () } } } }"

text \<open>
  The option maps: rclone's defaults, overridden by the parameters that name an option.
\<close>

definition default_options :: "(string \<times> string option) list \<Rightarrow> smap" where
  "default_options infos =
     fold (\<lambda>(n, d) m. case d of None \<Rightarrow> m | Some v \<Rightarrow> AList.update n v m) infos []"

definition overridden_options :: "(string \<times> string option) list \<Rightarrow> smap \<Rightarrow> smap" where
  "overridden_options infos params =
     fold (\<lambda>(n, d) m.
        let m' = (case d of None \<Rightarrow> m | Some v \<Rightarrow> AList.update n v m)
        in case map_of params n of None \<Rightarrow> m' | Some v \<Rightarrow> AList.update n v m') infos []"

definition extractVFSOptions :: "env \<Rightarrow> smap \<Rightarrow> ('w world_scheme, gerr + unit) state" where
  "extractVFSOptions env params = do {
     let defaults = default_options (vfs_options (lib_of env));
     r1 \<leftarrow> call (Rc (LoadVFSOptions defaults)) (\<lambda>h. loadVFSOptions (rc_of env) h defaults);
     case r1 of
       Some e \<Rightarrow> fail (Errorf ''failed to load VFS options: %v'' [E e])
     | None \<Rightarrow> do {
         let m = overridden_options (vfs_options (lib_of env)) params;
         r2 \<leftarrow> call (Rc (LoadVFSOptions m)) (\<lambda>h. loadVFSOptions (rc_of env) h m);
         case r2 of Some e \<Rightarrow> fail (Errorf ''failed to update VFS options: %v'' [E e]) | None \<Rightarrow> ok () } }"

definition extractMountOptions :: "env \<Rightarrow> smap \<Rightarrow> ('w world_scheme, gerr + mount_opts) state" where
  "extractMountOptions env params = do {
     let defaults = default_options (mount_options (lib_of env));
     r1 \<leftarrow> call (Rc (LoadMountOptions defaults)) (\<lambda>h. loadMountOptions (rc_of env) h defaults);
     case r1 of
       Inl e \<Rightarrow> fail (Errorf ''failed to load mount options: %v'' [E e])
     | Inr _ \<Rightarrow> do {
         let m = overridden_options (mount_options (lib_of env)) params;
         r2 \<leftarrow> call (Rc (LoadMountOptions m)) (\<lambda>h. loadMountOptions (rc_of env) h m);
         case r2 of
           Inl e \<Rightarrow> fail (Errorf ''failed to update mount options: %v'' [E e])
         | Inr opts \<Rightarrow> ok opts } }"

definition resolveMountMethod :: "env \<Rightarrow> smap \<Rightarrow> ('w world_scheme, gerr + string) state" where
  "resolveMountMethod env params =
     (case map_of params paramMountType of
        Some mountType \<Rightarrow> do {
          r \<leftarrow> call (Rc (ResolveMount mountType)) (\<lambda>h. resolveMount (rc_of env) h mountType);
          case r of
            Some t \<Rightarrow> ok t
          | None \<Rightarrow> fail (Errorf ''specified mount type '%s' not available'' [S mountType]) }
      | None \<Rightarrow> do {
          r \<leftarrow> call (Rc (ResolveMount '''')) (\<lambda>h. resolveMount (rc_of env) h '''');
          case r of Some t \<Rightarrow> ok t | None \<Rightarrow> fail (Errorf ''no mount methods available'' []) })"

section \<open>Mounting\<close>

text \<open>
  \<open>handleRcloneDaemon\<close>: on a failed wait it signals the daemon and cancels. Without a daemon
  the process pointer is nil and the signal panics (\<open>SignalNilDaemon\<close>); what the model does
  after that event has no counterpart in the code.
\<close>

definition handleRcloneDaemon ::
    "env \<Rightarrow> string \<Rightarrow> bool \<Rightarrow> mount_opts \<Rightarrow> nat \<Rightarrow> ('w world_scheme, gerr + unit) state" where
  "handleRcloneDaemon env target has_daemon opts mountCtx = do {
     (if mo_daemon opts then emit (Rc PassConfigKey) else State_Monad.return ());
     if mo_daemonWait opts \<le> 0 then ok ()
     else do {
       r \<leftarrow> call (Rc (WaitMountReady target)) (\<lambda>h. waitMountReady (rc_of env) h target);
       case r of
         None \<Rightarrow> ok ()
       | Some e \<Rightarrow> do {
           emit (Rc (if has_daemon then SignalDaemon else SignalNilDaemon));
           cancelCtx [mountCtx];
           fail (Status Internal ''failed to wait for mount: %v'' [E e]) } } }"

text \<open>An error return of \<open>createAndMountFilesystem\<close> cancels the mount context first.\<close>

definition cancel_fail :: "nat \<Rightarrow> gerr \<Rightarrow> ('w world_scheme, gerr + 'a) state" where
  "cancel_fail mountCtx e = do { cancelCtx [mountCtx]; fail e }"

text \<open>The part from the mount options on: options, mount method, mount and daemon.\<close>

definition mount_with_options ::
    "env \<Rightarrow> string \<Rightarrow> string \<Rightarrow> smap \<Rightarrow> nat \<Rightarrow> ('w world_scheme, gerr + mount_point) state" where
  "mount_with_options env fsPath target opts mountCtx = do {
     r1 \<leftarrow> extractMountOptions env opts;
     case r1 of
       Inl e \<Rightarrow> cancel_fail mountCtx (Status Internal ''failed to parse mount options: %v'' [E e])
     | Inr mountOpts \<Rightarrow> do {
     r2 \<leftarrow> extractVFSOptions env opts;
     case r2 of
       Inl e \<Rightarrow> cancel_fail mountCtx (Status Internal ''failed to parse VFS options: %v'' [E e])
     | Inr _ \<Rightarrow> do {
     let mountOpts' = (if mo_deviceName mountOpts = '''' then mountOpts\<lparr>mo_deviceName := fsPath\<rparr> else mountOpts);
     r3 \<leftarrow> resolveMountMethod env opts;
     case r3 of
       Inl e \<Rightarrow> cancel_fail mountCtx (Status InvalidArgument ''mount method resolution failed: %v'' [E e])
     | Inr _ \<Rightarrow> do {
     r4 \<leftarrow> call (Rc (RcloneMount fsPath target)) (\<lambda>h. rcloneMount (rc_of env) h fsPath target mountOpts');
     case r4 of
       Inl e \<Rightarrow> cancel_fail mountCtx (Status Internal ''failed to mount: %v'' [E e])
     | Inr (mp, has_daemon) \<Rightarrow> do {
     r5 \<leftarrow> handleRcloneDaemon env target has_daemon mountOpts' mountCtx;
     case r5 of Inl e \<Rightarrow> cancel_fail mountCtx e | Inr _ \<Rightarrow> ok mp } } } } }"

text \<open>\<open>createAndMountFilesystem\<close>: the mount with its context, whose cancel function cancels it.\<close>

definition createAndMountFilesystem ::
    "env \<Rightarrow> string \<Rightarrow> string \<Rightarrow> string list \<Rightarrow> smap \<Rightarrow> ('w world_scheme, gerr + mount_point \<times> nat) state" where
  "createAndMountFilesystem env fsPath target mountOptions params = do {
     mountCtx \<leftarrow> freshCtx;
     case extractVolumeMountOptions mountOptions of
       Inl e \<Rightarrow> cancel_fail mountCtx (Status Internal ''failed to parse volume mount options: %v'' [E e])
     | Inr volumeMountOpts \<Rightarrow> do {
     let opts = mergeCopy params volumeMountOpts;
     r1 \<leftarrow> setRcloneConfigFlags env opts;
     case r1 of
       Inl e \<Rightarrow> cancel_fail mountCtx e
     | Inr _ \<Rightarrow> do {
     r2 \<leftarrow> call (Rc (NewFs fsPath)) (\<lambda>h. newFs (rc_of env) h fsPath);
     case r2 of
       Some e \<Rightarrow> cancel_fail mountCtx (Status Internal ''failed to initialize filesystem: %v'' [E e])
     | None \<Rightarrow> do {
     r3 \<leftarrow> mount_with_options env fsPath target opts mountCtx;
     case r3 of Inl e \<Rightarrow> fail e | Inr mp \<Rightarrow> ok (mp, mountCtx) } } } }"

section \<open>Unmounting\<close>

definition uploads_pending :: "disk_cache \<Rightarrow> bool" where
  "uploads_pending dc \<longleftrightarrow>
     0 < (case dc_uploadsInProgress dc of None \<Rightarrow> 0 | Some n \<Rightarrow> n)
     \<or> 0 < (case dc_uploadsQueued dc of None \<Rightarrow> 0 | Some n \<Rightarrow> n)"

definition cacheSyncMaxRetries :: nat where "cacheSyncMaxRetries = 5"

definition cache_sync_sleep :: "nat \<Rightarrow> int" where
  "cache_sync_sleep retryCount = min (int retryCount * 2 * 10 ^ 9) (10 * 10 ^ 9)"

function cache_sync :: "env \<Rightarrow> nat \<Rightarrow> int \<Rightarrow> nat \<Rightarrow> ('w lock_world_scheme, unit) state" where
  "cache_sync env mp timeout retryCount = do {
     now \<leftarrow> call Now (time_now env);
     if now < timeout \<and> retryCount < cacheSyncMaxRetries then do {
       stats \<leftarrow> call (Rc (VFSStats mp)) (\<lambda>h. vfsStats (rc_of env) h mp);
       (if (case vs_diskCache stats of None \<Rightarrow> False | Some dc \<Rightarrow> \<not> uploads_pending dc)
        then State_Monad.return ()
        else do { sleepFor env (cache_sync_sleep (Suc retryCount)); cache_sync env mp timeout (Suc retryCount) }) }
     else State_Monad.return () }"
  by pat_completeness auto
termination
  by (relation "measure (\<lambda>(env, mp, timeout, retryCount). cacheSyncMaxRetries - retryCount)") auto

declare cache_sync.simps [simp del]

definition waitForVFSCacheSync :: "env \<Rightarrow> mount_context option \<Rightarrow> ('w lock_world_scheme, unit) state" where
  "waitForVFSCacheSync env mc =
     (case mc of
        None \<Rightarrow> State_Monad.return ()
      | Some mc \<Rightarrow>
          (case mc_mountPoint mc of
             None \<Rightarrow> State_Monad.return ()
           | Some mp \<Rightarrow> do {
               stats \<leftarrow> call (Rc (VFSStats (mp_id mp))) (\<lambda>h. vfsStats (rc_of env) h (mp_id mp));
               if vs_diskCache stats = None then State_Monad.return ()
               else do {
                 now \<leftarrow> call Now (time_now env);
                 cache_sync env (mp_id mp) (now + 120 * 10 ^ 9) 0 } }))"

text \<open>
  \<open>unmountVolume\<close>: for a mount of this process wait for the cache, ask rclone to unmount for
  at most \<open>gracefulUnmountTimeout\<close>, cancel its context and drop its config sections; then
  in any case clean the mount point up.
\<close>

definition unmountVolume ::
    "env \<Rightarrow> mount_context option \<Rightarrow> string \<Rightarrow> ('w lock_world_scheme, gerr option) state" where
  "unmountVolume env mc target = do {
     (case mc of
        None \<Rightarrow> State_Monad.return ()
      | Some c \<Rightarrow>
          (case mc_mountPoint c of
             None \<Rightarrow> State_Monad.return ()
           | Some mp \<Rightarrow> do {
               waitForVFSCacheSync env mc;
               call (Rc (RcloneUnmount (mp_id mp))) (\<lambda>h. rcloneUnmount (rc_of env) h (mp_id mp));
               emit Select;
               cancelCtx (mc_cancel c);
               cleanupConfigRemotes (mc_remotes c) }));
     forceCleanupMount env target }"

section \<open>Frame\<close>

text \<open>None of these operations touches the locks (but for the sleeps) or the caches.\<close>

lemma keeps_mounting [frame]:
  assumes "off_world p"
  shows "keeps p (forceCleanupMount env target)" and "keeps p (mkdir_all env target)"
    and "keeps p (clean_and_recreate env target f g)" and "keeps p (check_target env target)"
    and "keeps p (prepareTargetDirectory env target)"
    and "keeps p (set_dir ps k c a m)" and "keeps p (setRcloneConfigFlags env ps)"
    and "keeps p (extractVFSOptions env ps)" and "keeps p (extractMountOptions env ps)"
    and "keeps p (resolveMountMethod env ps)" and "keeps p (handleRcloneDaemon env target d mo c')"
    and "keeps p (cancel_fail c' e)"
proof -
  note rules = frame assms keeps_call [OF assms] keeps_emit [OF assms]
  show 1: "keeps p (forceCleanupMount env target)" by (auto simp: forceCleanupMount_def intro!: rules)
  show 2: "keeps p (mkdir_all env target)" for target by (auto simp: mkdir_all_def intro!: rules)
  show 3: "keeps p (clean_and_recreate env target f g)" for f g
    by (auto simp: clean_and_recreate_def intro!: rules 1 2)
  show 4: "keeps p (check_target env target)" by (auto simp: check_target_def intro!: rules 2 3)
  show "keeps p (prepareTargetDirectory env target)"
    by (auto simp: prepareTargetDirectory_def intro!: rules 3 4)
  show 5: "keeps p (set_dir ps k c a m)" for ps k c a m by (auto simp: set_dir_def intro!: rules)
  show "keeps p (setRcloneConfigFlags env ps)"
    by (auto simp: setRcloneConfigFlags_def Let_def intro!: rules 5)
  show "keeps p (extractVFSOptions env ps)" by (auto simp: extractVFSOptions_def Let_def intro!: rules)
  show "keeps p (extractMountOptions env ps)" by (auto simp: extractMountOptions_def Let_def intro!: rules)
  show "keeps p (resolveMountMethod env ps)" by (auto simp: resolveMountMethod_def intro!: rules)
  show "keeps p (handleRcloneDaemon env target d mo c')" by (auto simp: handleRcloneDaemon_def intro!: rules)
  show "keeps p (cancel_fail c' e)" by (auto simp: cancel_fail_def intro!: rules)
qed

lemma keeps_mount_with_options [frame]: "off_world p \<Longrightarrow> keeps p (mount_with_options env f t os c)"
  by (auto simp: mount_with_options_def Let_def intro!: frame)

text \<open>\<open>createAndMountFilesystem\<close> takes a fresh context, and otherwise the same holds.\<close>

lemma keeps_createAndMount [frame]: "off_world p \<Longrightarrow> keeps p (createAndMountFilesystem env f t os ps)"
  by (auto simp: createAndMountFilesystem_def Let_def intro!: frame)

text \<open>The calls of each operation: operating system and rclone only, and the one context.\<close>

definition os_or_rc :: "ev \<Rightarrow> bool" where
  "os_or_rc e \<longleftrightarrow> (\<exists>c. e = Os c) \<or> (\<exists>c. e = Rc c)"

lemma os_or_rc_simps [simp]:
  "os_or_rc (Os c)" "os_or_rc (Rc c')" "\<not> os_or_rc (Cancel n)" "\<not> os_or_rc (Cfg f)" "\<not> os_or_rc (Kube k)"
  "\<not> os_or_rc (Sleep d)" "\<not> os_or_rc Now" "\<not> os_or_rc Select"
  by (simp_all add: os_or_rc_def)

lemma adds_mounting [frame]:
  assumes os: "\<And>c. P (Os c)"
  shows "adds P (forceCleanupMount env target)" and "adds P (mkdir_all env target)"
    and "adds P (clean_and_recreate env target f g)" and "adds P (check_target env target)"
    and "adds P (prepareTargetDirectory env target)"
proof -
  note rules = frame os
  show 1: "adds P (forceCleanupMount env target)" by (auto simp: forceCleanupMount_def intro!: rules)
  show 2: "adds P (mkdir_all env target)" for target by (auto simp: mkdir_all_def intro!: rules)
  show 3: "adds P (clean_and_recreate env target f g)" for f g
    by (auto simp: clean_and_recreate_def intro!: rules 1 2)
  show 4: "adds P (check_target env target)" by (auto simp: check_target_def intro!: rules 2 3)
  show "adds P (prepareTargetDirectory env target)"
    by (auto simp: prepareTargetDirectory_def intro!: rules 3 4)
qed

lemma adds_options [frame]:
  assumes rc: "\<And>c. P (Rc c)"
  shows "adds P (set_dir ps k c a m)" and "adds P (setRcloneConfigFlags env ps)"
    and "adds P (extractVFSOptions env ps)" and "adds P (extractMountOptions env ps)"
    and "adds P (resolveMountMethod env ps)"
proof -
  note rules = frame rc
  show 5: "adds P (set_dir ps k c a m)" for ps k c a m by (auto simp: set_dir_def intro!: rules)
  show "adds P (setRcloneConfigFlags env ps)"
    by (auto simp: setRcloneConfigFlags_def Let_def intro!: rules 5)
  show "adds P (extractVFSOptions env ps)" by (auto simp: extractVFSOptions_def Let_def intro!: rules)
  show "adds P (extractMountOptions env ps)" by (auto simp: extractMountOptions_def Let_def intro!: rules)
  show "adds P (resolveMountMethod env ps)" by (auto simp: resolveMountMethod_def intro!: rules)
qed

lemma adds_daemon [frame]:
  "(\<And>c. P (Rc c)) \<Longrightarrow> P (Cancel c') \<Longrightarrow> adds P (handleRcloneDaemon env target d mo c')"
  "P (Cancel c') \<Longrightarrow> adds P (cancel_fail c' e)"
  by (auto simp: handleRcloneDaemon_def cancel_fail_def intro!: frame)

lemma adds_mount_with_options [frame]:
  "(\<And>c. P (Rc c)) \<Longrightarrow> P (Cancel c') \<Longrightarrow> adds P (mount_with_options env f t os c')"
  by (auto simp: mount_with_options_def Let_def intro!: frame)

lemma adds_createAndMount [frame]:
  "(\<And>c. P (Rc c)) \<Longrightarrow> (\<And>c. P (Cancel c)) \<Longrightarrow> adds P (createAndMountFilesystem env f t os ps)"
  by (auto simp: createAndMountFilesystem_def Let_def intro!: frame)

lemma keeps_cache_sync [frame]: "off_locks p \<Longrightarrow> keeps p (cache_sync env mp timeout n)"
proof (induction env mp timeout n rule: cache_sync.induct)
  case (1 env mp timeout n)
  then show ?case by (subst cache_sync.simps) (auto intro!: frame)
qed

lemma keeps_waitForVFSCacheSync [frame]: "off_locks p \<Longrightarrow> keeps p (waitForVFSCacheSync env mc)"
  by (auto simp: waitForVFSCacheSync_def intro!: frame)

lemma keeps_unmountVolume [frame]: "off_locks p \<Longrightarrow> keeps p (unmountVolume env mc target)"
  by (auto simp: unmountVolume_def intro!: frame)

lemma adds_cache_sync [frame]:
  "(\<And>d. P (Sleep d)) \<Longrightarrow> P Now \<Longrightarrow> (\<And>c. P (Rc c)) \<Longrightarrow> adds P (cache_sync env mp timeout n)"
proof (induction env mp timeout n rule: cache_sync.induct)
  case (1 env mp timeout n)
  then show ?case by (subst cache_sync.simps) (auto intro!: frame)
qed

lemma adds_waitForVFSCacheSync [frame]:
  "(\<And>d. P (Sleep d)) \<Longrightarrow> P Now \<Longrightarrow> (\<And>c. P (Rc c)) \<Longrightarrow> adds P (waitForVFSCacheSync env mc)"
  by (auto simp: waitForVFSCacheSync_def intro!: frame)

section \<open>What the calls leave as it was\<close>

lemma keeps_trace:
  assumes "adds P m" and "\<And>e h. P e \<Longrightarrow> F (h @ [e]) = F h"
  shows "keeps (\<lambda>s. F (trace s)) m"
  unfolding keeps_def
proof
  fix s :: "'a world_scheme"
  obtain es where es: "trace (snd (run_state m s)) = trace s @ es" "list_all P es"
    using addsD [OF assms(1)] .
  have "list_all P es \<Longrightarrow> F (h @ es) = F h" for h
    by (induction es rule: rev_induct) (auto simp: assms(2) simp flip: append_assoc)
  with es show "F (trace (snd (run_state m s))) = F (trace s)" by simp
qed

definition no_cfg :: "ev \<Rightarrow> bool" where
  "no_cfg e \<longleftrightarrow> (\<forall>c. e \<noteq> Cfg c)"

lemma no_cfg_simps [simp]:
  "no_cfg (Os c)" "no_cfg (Rc c')" "no_cfg (Cancel n)" "no_cfg (Kube k)" "no_cfg (Sleep d)" "no_cfg Now"
  "no_cfg Select" "\<not> no_cfg (Cfg f)"
  by (simp_all add: no_cfg_def)

lemma config_sections_snoc: "no_cfg e \<Longrightarrow> config_sections (h @ [e]) = config_sections h"
  by (cases e) (simp_all add: config_sections_append)

lemma keeps_sections: "adds no_cfg m \<Longrightarrow> keeps (\<lambda>s. config_sections (trace s)) m"
  by (erule keeps_trace) (rule config_sections_snoc)

definition cancelled :: "nat \<Rightarrow> 'w world_scheme \<Rightarrow> bool" where
  "cancelled c s \<longleftrightarrow> Cancel c \<in> set (trace s)"

lemma cancelled_simps [simp]:
  "cancelled c (s\<lparr>trace := t\<rparr>) \<longleftrightarrow> Cancel c \<in> set t"
  "cancelled c (s\<lparr>nextCtx := n\<rparr>) \<longleftrightarrow> cancelled c s"
  by (auto simp: cancelled_def)

lemma keeps_cancelled: "adds (\<lambda>e. e \<noteq> Cancel c) m \<Longrightarrow> keeps (cancelled c) m"
  using keeps_trace [of "\<lambda>e. e \<noteq> Cancel c" m "\<lambda>h. Cancel c \<in> set h"]
  by (auto simp: keeps_def cancelled_def)

lemma wp_keeps_bind:
  assumes "keeps p m" and "\<And>r s'. p s' = p s \<Longrightarrow> wp (f r) Q s'"
  shows "wp (State_Monad.bind m f) Q s"
  unfolding wp_bind by (rule wp_mono [OF wp_keeps [OF assms(1)]]) (rule assms(2))

lemma wp_cancelCtx [wp]: "wp (cancelCtx [c]) Q = (\<lambda>s. Q () (s\<lparr>trace := trace s @ [Cancel c]\<rparr>))"
  by (simp add: cancelCtx_def wp)

section \<open>The mount context\<close>

text \<open>A mount operation fails exactly when it has cancelled its context.\<close>

definition cancelled_on_error :: "nat \<Rightarrow> gerr + 'a \<Rightarrow> 'w world_scheme \<Rightarrow> bool" where
  "cancelled_on_error c r s \<longleftrightarrow> (cancelled c s \<longleftrightarrow> (\<exists>e. r = Inl e))"

lemma cancel_fail_cancels: "wp (cancel_fail c e) (cancelled_on_error c) s"
  by (simp add: cancel_fail_def wp cancelled_on_error_def)

lemma handleRcloneDaemon_cancels:
  "\<not> cancelled c s \<Longrightarrow> wp (handleRcloneDaemon env t d mo c) (cancelled_on_error c) s"
  by (simp add: handleRcloneDaemon_def wp cancelled_on_error_def cancelled_def split: option.split)

lemma mount_with_options_cancels:
  assumes "\<not> cancelled c s"
  shows "wp (mount_with_options env f t os c) (cancelled_on_error c) s"
proof -
  have call: "keeps (cancelled c) (call (Rc x) g)" for x and g :: "history \<Rightarrow> 'y"
    by (rule keeps_cancelled) (auto intro: frame)
  have opts: "keeps (cancelled c) (extractMountOptions env os)" "keeps (cancelled c) (extractVFSOptions env os)"
    "keeps (cancelled c) (resolveMountMethod env os)"
    by (rule keeps_cancelled; auto intro!: frame)+
  have daemon: "wp (do { r5 \<leftarrow> handleRcloneDaemon env t d mo c;
        case r5 of Inl e \<Rightarrow> cancel_fail c e | Inr _ \<Rightarrow> ok mp }) (cancelled_on_error c) s'"
    if "\<not> cancelled c s'" for d mo s' and mp :: mount_point
    unfolding wp_bind
    by (rule wp_mono [OF handleRcloneDaemon_cancels [OF that]])
      (auto simp: wp cancelled_on_error_def cancel_fail_def split: sum.splits)
  show ?thesis
    unfolding mount_with_options_def Let_def
    apply (rule wp_keeps_bind [OF opts(1)])
    apply (simp only: wp_case_sum split: sum.split, intro conjI allI impI cancel_fail_cancels)
    apply (rule wp_keeps_bind [OF opts(2)])
    apply (simp only: wp_case_sum split: sum.split, intro conjI allI impI cancel_fail_cancels)
    apply (rule wp_keeps_bind [OF opts(3)])
    apply (simp only: wp_case_sum split: sum.split, intro conjI allI impI cancel_fail_cancels)
    apply (rule wp_keeps_bind [OF call])
    apply (simp only: wp_case_sum wp_case_prod split: sum.split prod.split, intro conjI allI impI cancel_fail_cancels)
    apply (rule daemon)
    using assms by simp
qed

lemma createAndMount_cancels:
  assumes "\<not> cancelled (nextCtx s) s"
  shows "wp (createAndMountFilesystem env f t os ps)
    (\<lambda>r s'. cancelled_on_error (nextCtx s) r s' \<and> (\<forall>mp c. r = Inr (mp, c) \<longrightarrow> c = nextCtx s)) s"
proof -
  let ?c = "nextCtx s" and ?Q = "\<lambda>r s'. cancelled_on_error (nextCtx s) r s' \<and> (\<forall>mp c. r = Inr (mp, c) \<longrightarrow> c = nextCtx s)"
  have flags: "keeps (cancelled ?c) (setRcloneConfigFlags env ps')" for ps'
    by (rule keeps_cancelled) (auto intro!: frame)
  have newfs: "keeps (cancelled ?c) (call (Rc x) g)" for x and g :: "history \<Rightarrow> 'y"
    by (rule keeps_cancelled) (auto intro: frame)
  have failed: "wp (cancel_fail ?c e) ?Q s'" for e s'
    by (simp add: cancel_fail_def wp cancelled_on_error_def)
  have mount: "wp (do { r3 \<leftarrow> mount_with_options env f t ps' ?c;
        case r3 of Inl e \<Rightarrow> fail e | Inr mp \<Rightarrow> ok (mp, ?c) }) ?Q s'"
    if "\<not> cancelled ?c s'" for ps' s'
    unfolding wp_bind
    by (rule wp_mono [OF mount_with_options_cancels [OF that]])
      (auto simp: wp cancelled_on_error_def split: sum.splits)
  show ?thesis
    unfolding createAndMountFilesystem_def Let_def wp_bind [where m = freshCtx] wp_freshCtx
    apply (simp only: wp_case_sum split: sum.split, intro conjI allI impI failed)
    apply (rule wp_keeps_bind [OF flags])
    apply (simp only: wp_case_sum split: sum.split, intro conjI allI impI failed)
    apply (rule wp_keeps_bind [OF newfs])
    apply (simp only: wp_case_option split: option.split, intro conjI allI impI failed)
    apply (rule mount)
    using assms by simp
qed

section \<open>The wait for the cache\<close>

fun sleep_time :: "ev \<Rightarrow> int" where
  "sleep_time (Sleep d) = d"
| "sleep_time _ = 0"

definition slept :: "history \<Rightarrow> int" where
  "slept h = sum_list (map sleep_time h)"

lemma slept_simps [simp]: "slept (h @ es) = slept h + slept es" "slept [] = 0" "slept (e # es) = sleep_time e + slept es"
  by (simp_all add: slept_def)

text \<open>The most that is slept from the retry \<open>n\<close> on.\<close>

definition sleep_bound :: "nat \<Rightarrow> int" where
  "sleep_bound n = (\<Sum>k\<leftarrow>[n..<cacheSyncMaxRetries]. cache_sync_sleep (Suc k))"

lemma sleep_bound_step:
  "n < cacheSyncMaxRetries \<Longrightarrow> sleep_bound n = cache_sync_sleep (Suc n) + sleep_bound (Suc n)"
  by (simp add: sleep_bound_def upt_conv_Cons)

lemma sleep_bound_nonneg: "0 \<le> sleep_bound n"
  by (auto simp: sleep_bound_def cache_sync_sleep_def intro!: sum_list_nonneg)

lemma sleep_bound_0: "sleep_bound 0 = 30 * 10 ^ 9"
  by (simp add: sleep_bound_def cacheSyncMaxRetries_def cache_sync_sleep_def upt_rec)

lemma cache_sync_sleeps:
  "wp (cache_sync env mp timeout n) (\<lambda>_ s'. slept (trace s') \<le> slept (trace s) + sleep_bound n) s"
proof (induction "cacheSyncMaxRetries - n" arbitrary: n s)
  case 0
  then show ?case by (subst cache_sync.simps) (simp add: wp sleep_bound_nonneg)
next
  case (Suc m)
  then have lt: "n < cacheSyncMaxRetries" by simp
  have "wp (cache_sync env mp timeout (Suc n))
      (\<lambda>_ s'. slept (trace s') \<le> slept (trace s) + sleep_bound n) s1"
    if "slept (trace s1) = slept (trace s) + cache_sync_sleep (Suc n)" for s1 :: "'a lock_world_scheme"
    by (rule wp_mono [OF Suc.hyps(1)]) (use that Suc.hyps(2) lt sleep_bound_step in auto)
  then show ?case
    by (subst cache_sync.simps) (auto simp: wp sleep_bound_nonneg)
qed

lemma waitForVFSCacheSync_sleeps:
  "wp (waitForVFSCacheSync env mc) (\<lambda>_ s'. slept (trace s') \<le> slept (trace s) + 30 * 10 ^ 9) s"
proof -
  have "wp (cache_sync env mp timeout 0) (\<lambda>_ s'. slept (trace s') \<le> slept (trace s) + 30 * 10 ^ 9) s1"
    if "slept (trace s1) = slept (trace s)" for mp timeout and s1 :: "'a lock_world_scheme"
    using cache_sync_sleeps [of env mp timeout 0 s1] that by (simp add: sleep_bound_0)
  then show ?thesis
    by (auto simp: waitForVFSCacheSync_def wp sleep_bound_0 [symmetric] split: option.split)
qed

section \<open>Unmounting\<close>

lemma keeps_sections_wait: "keeps (\<lambda>s. config_sections (trace s)) (waitForVFSCacheSync env mc)"
  by (rule keeps_sections) (auto intro!: frame)

lemma run_cancelCtx: "run_state (cancelCtx cs) s = ((), s\<lparr>trace := trace s @ map Cancel cs\<rparr>)"
  unfolding cancelCtx_def by (induction cs arbitrary: s) simp_all

lemma wp_cancelCtxs: "wp (cancelCtx cs) Q = (\<lambda>s. Q () (s\<lparr>trace := trace s @ map Cancel cs\<rparr>))"
  by (simp add: wp_def run_cancelCtx fun_eq_iff)

lemma wp_cleanup [wp]:
  "wp (cleanupConfigRemotes ns) Q = (\<lambda>s. Q () (s\<lparr>trace := trace s @ map (\<lambda>n. Cfg (CfgDelete n)) ns\<rparr>))"
  by (simp add: wp_def cleanup_trace fun_eq_iff)

lemma config_sections_cancels: "config_sections (h @ map Cancel cs) = config_sections h"
proof (induction cs rule: rev_induct)
  case (snoc c cs)
  have "config_sections ((h @ map Cancel cs) @ [Cancel c]) = config_sections (h @ map Cancel cs)"
    by (rule config_sections_snoc) simp
  with snoc show ?case by simp
qed simp

text \<open>The remotes that unmounting a context removes: those of a mount of this process.\<close>

definition owned_remotes :: "mount_context option \<Rightarrow> string set" where
  "owned_remotes mc = (case mc of None \<Rightarrow> {} | Some c \<Rightarrow> if mc_mountPoint c = None then {} else set (mc_remotes c))"

definition owned_contexts :: "mount_context option \<Rightarrow> nat set" where
  "owned_contexts mc = (case mc of None \<Rightarrow> {} | Some c \<Rightarrow> if mc_mountPoint c = None then {} else set (mc_cancel c))"

lemma wp_forceCleanupMount [wp]:
  "wp (forceCleanupMount env t) Q = (\<lambda>s. Q (cleanupMount (os_of env) (trace s) t)
     (s\<lparr>trace := trace s @ [Os (CleanupMount t (forceUnmounter (os_of env)))]\<rparr>))"
  by (simp add: forceCleanupMount_def wp)

lemma unmountVolume_effect:
  "wp (unmountVolume env mc t) (\<lambda>r s'. \<exists>h. trace s' = h @ [Os (CleanupMount t (forceUnmounter (os_of env)))]
      \<and> r = cleanupMount (os_of env) h t
      \<and> config_sections (trace s') = config_sections (trace s) - owned_remotes mc
      \<and> (\<forall>c \<in> owned_contexts mc. Cancel c \<in> set (trace s'))) s"
proof (cases "mc = None \<or> mc_mountPoint (the mc) = None")
  case True
  then show ?thesis
    by (auto simp: unmountVolume_def wp owned_remotes_def owned_contexts_def config_sections_snoc
        split: option.split)
next
  case False
  then obtain c mp where mc: "mc = Some c" "mc_mountPoint c = Some mp" by auto
  have rest: "wp (do {
         call (Rc (RcloneUnmount (mp_id mp))) (\<lambda>h. rcloneUnmount (rc_of env) h (mp_id mp));
         emit Select; cancelCtx (mc_cancel c); cleanupConfigRemotes (mc_remotes c); forceCleanupMount env t })
      (\<lambda>r s'. \<exists>h. trace s' = h @ [Os (CleanupMount t (forceUnmounter (os_of env)))]
      \<and> r = cleanupMount (os_of env) h t
      \<and> config_sections (trace s') = config_sections (trace s) - owned_remotes mc
      \<and> (\<forall>c \<in> owned_contexts mc. Cancel c \<in> set (trace s'))) s1"
    if same: "config_sections (trace s1) = config_sections (trace s)" for s1 :: "'a lock_world_scheme"
  proof -
    let ?h1 = "trace s1 @ [Rc (RcloneUnmount (mp_id mp)), Select] @ map Cancel (mc_cancel c)"
    let ?h2 = "?h1 @ map (\<lambda>n. Cfg (CfgDelete n)) (mc_remotes c)"
    have "config_sections ?h1 = config_sections (trace s)"
      using config_sections_cancels [of "trace s1 @ [Rc (RcloneUnmount (mp_id mp)), Select]" "mc_cancel c"]
        config_sections_snoc [of "Rc (RcloneUnmount (mp_id mp))" "trace s1"]
        config_sections_snoc [of Select "trace s1 @ [Rc (RcloneUnmount (mp_id mp))]"] same by simp
    then have "config_sections (?h2 @ [Os (CleanupMount t (forceUnmounter (os_of env)))])
        = config_sections (trace s) - set (mc_remotes c)"
      by (simp only: config_sections_snoc no_cfg_simps config_sections_cleanup)
    then show ?thesis
      by (auto simp: wp wp_cancelCtxs mc owned_remotes_def owned_contexts_def)
  qed
  show ?thesis
    unfolding unmountVolume_def mc option.case bind_assoc
    by (rule wp_keeps_bind [OF keeps_sections_wait]) (rule rest [unfolded mc], simp)
qed

section \<open>Options given to rclone\<close>

text \<open>A parameter reaches the options exactly when it names one; then it beats the default.\<close>

lemma overridden_options_value:
  assumes "distinct (map fst infos)"
  shows "map_of (overridden_options infos params) n =
     (case map_of infos n of
        None \<Rightarrow> None
      | Some d \<Rightarrow> (case map_of params n of None \<Rightarrow> d | Some v \<Rightarrow> Some v))"
proof -
  let ?f = "\<lambda>(n, d) m.
        let m' = (case d of None \<Rightarrow> m | Some v \<Rightarrow> AList.update n v m)
        in case map_of params n of None \<Rightarrow> m' | Some v \<Rightarrow> AList.update n v m'"
  have "map_of (fold ?f infos acc) n = (case map_of infos n of
        None \<Rightarrow> map_of acc n
      | Some d \<Rightarrow> (case map_of params n of None \<Rightarrow> (case d of None \<Rightarrow> map_of acc n | Some v \<Rightarrow> Some v) | Some v \<Rightarrow> Some v))"
    for acc
    using assms
  proof (induction infos arbitrary: acc)
    case (Cons x infos)
    obtain k d where x: "x = (k, d)" by fastforce
    with Cons.prems have "k = n \<Longrightarrow> map_of infos n = None" by (auto simp: map_of_eq_None_iff)
    with Cons x show ?case by (auto simp: Let_def split: option.split)
  qed simp
  from this [of "[]"] show ?thesis
    by (simp add: overridden_options_def split: option.split)
qed

section \<open>Properties\<close>

text \<open>The calls that an operation has made since the state \<open>s\<close>.\<close>

definition new_calls :: "'w world_scheme \<Rightarrow> 'w world_scheme \<Rightarrow> ev set" where
  "new_calls s s' = set (drop (length (trace s)) (trace s'))"

text \<open>
  \<open>createAndMountFilesystem\<close> fails exactly when it has cancelled the context it
  made for the mount, so a failed mount leaves no live context behind and a successful one
  returns a live context.
\<close>

theorem createAndMountFilesystem_context:
  assumes "Cancel (nextCtx s) \<notin> set (trace s)"
    and "run_state (createAndMountFilesystem env fsPath target opts params) s = (r, s')"
  shows "(Cancel (nextCtx s) \<in> set (trace s') \<longleftrightarrow> (\<exists>e. r = Inl e))
    \<and> ((\<exists>e. r = Inl e) \<or> (\<exists>mp. r = Inr (mp, nextCtx s)))"
proof -
  have "\<not> cancelled (nextCtx s) s" using assms(1) by (simp add: cancelled_def)
  from wp_runD [OF createAndMount_cancels [OF this] assms(2)] show ?thesis
    by (cases r) (auto simp: cancelled_on_error_def cancelled_def)
qed

theorem createAndMountFilesystem_context_witness:
  "let env = example_env\<lparr>rc_of := example_rclone\<lparr>newFs := \<lambda>h p. Some (ExtError ''no network'')\<rparr>\<rparr>
   in Cancel 0 \<in> set (trace (snd (run_state (createAndMountFilesystem env ''s3:'' ''/t'' [] []) start)))"
proof -
  let ?env = "example_env\<lparr>rc_of := example_rclone\<lparr>newFs := \<lambda>h p. Some (ExtError ''no network'')\<rparr>\<rparr>"
  obtain r s' where run: "run_state (createAndMountFilesystem ?env ''s3:'' ''/t'' [] []) start = (r, s')"
    by fastforce
  have "\<exists>e. r = Inl e"
    using run by (auto simp: createAndMountFilesystem_def extractVolumeMountOptions_def mergeCopy_def
        setRcloneConfigFlags_def set_dir_def example_rclone_def cancel_fail_def run_cancelCtx)
  with createAndMountFilesystem_context [OF _ run] run show ?thesis by (simp add: start_def)
qed

text \<open>
  \<open>prepareTargetDirectory\<close> reports an existing healthy mount exactly when the
  path is a mount point whose directory can be read, and it force-cleans the path exactly
  when the check of the path finds a corrupted mount, or a mount whose directory cannot be
  read. A readable mount and a plain or missing directory are never unmounted.
\<close>

theorem prepareTargetDirectory_outcome:
  fixes env t and s :: "'w world_scheme"
  defines "chk \<equiv> isLikelyNotMountPoint (os_of env) (trace s) t"
    and "unreadable \<equiv> readDir (os_of env) (trace s @ [Os (IsLikelyNotMountPoint t)]) t"
    and "r \<equiv> fst (run_state (prepareTargetDirectory env t) s)"
    and "s' \<equiv> snd (run_state (prepareTargetDirectory env t) s)"
  shows "(r = Inl ErrMountAlreadyHealthy \<longleftrightarrow> chk = Inr False \<and> unreadable = None)
    \<and> (Os (CleanupMount t (forceUnmounter (os_of env))) \<in> new_calls s s'
         \<longleftrightarrow> (\<exists>e. chk = Inl e \<and> \<not> oe_not_exist e \<and> oe_corrupted e)
           \<or> chk = Inr False \<and> (\<exists>e. unreadable = Some e))"
  unfolding chk_def unreadable_def r_def s'_def new_calls_def
  by (auto simp: prepareTargetDirectory_def check_target_def clean_and_recreate_def forceCleanupMount_def
      mkdir_all_def corrupted_cleanup_failed_def recreate_failed_def split: sum.split option.split)

text \<open>
  The wait for the VFS cache is bounded. Whatever the statistics and the clock
  say, \<open>waitForVFSCacheSync\<close> sleeps for at most 30 seconds in total.
\<close>

theorem waitForVFSCacheSync_bounded:
  "slept (trace (snd (run_state (waitForVFSCacheSync env mc) s))) \<le> slept (trace s) + 30 * 10 ^ 9"
  using waitForVFSCacheSync_sleeps [of env mc s] by (simp add: wp_snd)

text \<open>
  Unmounting always ends with the forced cleanup of the target, whose result it
  returns, whatever rclone's own unmount did; and before that it has cancelled the contexts
  of the mount and removed exactly its sections from rclone's storage.
\<close>

theorem unmountVolume_complete:
  fixes env mc t and s :: "'w lock_world_scheme"
  defines "r \<equiv> fst (run_state (unmountVolume env mc t) s)"
    and "s' \<equiv> snd (run_state (unmountVolume env mc t) s)"
  shows "(\<exists>h. trace s' = h @ [Os (CleanupMount t (forceUnmounter (os_of env)))] \<and> r = cleanupMount (os_of env) h t)
    \<and> config_sections (trace s') = config_sections (trace s) - owned_remotes mc
    \<and> Cancel ` owned_contexts mc \<subseteq> set (trace s')"
proof -
  have "wp (unmountVolume env mc t) (\<lambda>r s'.
      (\<exists>h. trace s' = h @ [Os (CleanupMount t (forceUnmounter (os_of env)))] \<and> r = cleanupMount (os_of env) h t)
    \<and> config_sections (trace s') = config_sections (trace s) - owned_remotes mc
    \<and> Cancel ` owned_contexts mc \<subseteq> set (trace s')) s"
    by (rule wp_mono [OF unmountVolume_effect]) blast
  then show ?thesis by (simp add: wp_def r_def s'_def split: prod.splits)
qed

text \<open>
  A mount without a daemon is not covered by the wait. When rclone returns no
  daemon process, \<open>handleRcloneDaemon\<close> signals the nil process exactly when a daemon wait is
  configured and waiting for the mount fails.
\<close>

theorem handleRcloneDaemon_nil_signal:
  fixes env t mo c and s :: "'w world_scheme"
  defines "waited_from \<equiv> trace s @ (if mo_daemon mo then [Rc PassConfigKey] else [])"
  shows "Rc SignalNilDaemon \<in> new_calls s (snd (run_state (handleRcloneDaemon env t False mo c) s))
    \<longleftrightarrow> 0 < mo_daemonWait mo \<and> (\<exists>e. waitMountReady (rc_of env) waited_from t = Some e)"
  unfolding waited_from_def new_calls_def
  by (auto simp: handleRcloneDaemon_def run_cancelCtx split: option.split)

end
