(* ===== verification/Node_Publish.thy ===== *)
theory Node_Publish
  imports Node_Mount "HOL-Library.Word"
begin

text \<open>
  Publishing without staging (pkg/rclone/nodeserver.go): \<open>nodePublishVolumeDirect\<close> with its
  background mount, timeout and cancellation, the reaper of an orphan mount, unpublishing,
  the health check, volume statistics and the unmount of everything on shutdown.

  One run of an operation is the run of its goroutine; other goroutines act on the lock table
  while it sleeps. The background mount of a publish is run where its result is taken: by
  the handler when the result comes first, by the reaper when the handler has handed it off.
\<close>

section \<open>NodePublishVolume without staging\<close>

text \<open>\<open>status.FromContextError(ctx.Err())\<close>.\<close>

definition from_context_error :: "bool \<Rightarrow> gerr" where
  "from_context_error deadline =
     (if deadline then Status DeadlineExceeded ''context deadline exceeded'' []
      else Status Canceled ''context canceled'' [])"

definition release_and :: "string \<Rightarrow> (node, 'a) state \<Rightarrow> (node, 'a) state" where
  "release_and k m = deferred (releaseLock k) m"

text \<open>
  The target directory of a publish: \<open>Inr True\<close> when the volume is published there already. A
  healthy mount that this process does not know is cleaned up for a remount.
\<close>

definition publish_target :: "env \<Rightarrow> string \<Rightarrow> (node, gerr + bool) state" where
  "publish_target env target = do {
     r \<leftarrow> prepareTargetDirectory env target;
     case r of
       Inr _ \<Rightarrow> ok False
     | Inl e \<Rightarrow>
         if errors_Is_healthy e then do {
           mc \<leftarrow> getMountContext target;
           if mc \<noteq> None then ok True
           else do {
             c \<leftarrow> clean_and_recreate env target
                (\<lambda>e. Status Internal ''failed to cleanup stale mount before remount: %v'' [E e]) recreate_failed;
             case c of Inl e \<Rightarrow> fail e | Inr _ \<Rightarrow> ok False } }
         else fail e }"

text \<open>The parameters of a publish, with the volume's effective configuration.\<close>

definition publish_params_of :: "publish_req \<Rightarrow> gerr + publish_params" where
  "publish_params_of req =
     extractPublishParams (applyVolumeMountGroup (volumeCapability req) (mergeVolumeParameters req))"

text \<open>
  The state that is saved for a published volume: the configuration and the remote name as they
  were given. \<open>prepareIsolatedConfig\<close> changes only these two, so the other fields are the
  same before and after it.
\<close>

definition published_state :: "publish_req \<Rightarrow> publish_params \<Rightarrow> string list \<Rightarrow> int \<Rightarrow> mount_state" where
  "published_state req orig opts now =
     \<lparr>ms_volumeID = volumeId req, ms_stagingPath = '''', ms_targetPath = targetPath req,
      ms_timestamp = Some now, ms_configData = pv_configData orig, ms_remoteName = pv_remoteName orig,
      ms_remotePath = pv_remotePath orig, ms_remoteType = pv_remoteType orig,
      ms_mountParams = mountParamsForState orig, ms_mountOptions = opts, ms_readOnly = readonly req\<rparr>"

text \<open>A failing save is only logged. \<open>time.Now()\<close> is never the zero time.\<close>

definition save_published ::
    "env \<Rightarrow> node_config \<Rightarrow> publish_req \<Rightarrow> publish_params \<Rightarrow> string list \<Rightarrow> (node, unit) state" where
  "save_published env cf req orig opts =
     (case cf_stateManager cf of
        None \<Rightarrow> State_Monad.return ()
      | Some sm \<Rightarrow> do {
          now \<leftarrow> call Now (time_now env);
          SaveState env sm (published_state req orig opts now);
          State_Monad.return () })"

text \<open>
  From the loaded configuration on: the background mount, and the \<open>select\<close> over its result,
  the timer and the caller's context. \<open>orig\<close> has the configuration as given, \<open>pvp\<close> the
  isolated one. The result says whether the mount was handed off.
\<close>

definition publish_mount ::
    "env \<Rightarrow> node_config \<Rightarrow> publish_req \<Rightarrow> string \<Rightarrow> publish_params \<Rightarrow> publish_params \<Rightarrow> string list
       \<Rightarrow> (node, bool \<times> (gerr + unit)) state" where
  "publish_mount env cf req lockKey orig pvp remotes = do {
     let opts = publishMountOptions (volumeCapability req) (readonly req);
     let fsPath = buildFsPath (pv_remoteName pvp) (pv_remotePath pvp);
     attempt \<leftarrow> freshCtx;
     let job = \<lparr>job_fsPath = fsPath, job_target = targetPath req, job_options = opts, job_params = pv_params pvp,
                job_attempt = attempt, job_remotes = remotes, job_lockKey = lockKey\<rparr>;
     sel \<leftarrow> call Select (select_of env);
     case sel of
       ResultReady \<Rightarrow> do {
         res \<leftarrow> createAndMountFilesystem env fsPath (targetPath req) opts (pv_params pvp);
         case res of
           Inl e \<Rightarrow> do {
             cancelCtx [attempt];
             cleanupConfigRemotes remotes;
             State_Monad.return (False, Inl e) }
         | Inr (mp, mountCtx) \<Rightarrow> do {
             setMountContext (targetPath req)
               \<lparr>mc_mountPoint = Some mp, mc_remoteName = pv_remoteName pvp, mc_remotes = remotes,
                mc_cancel = [mountCtx, attempt], mc_ctx = Some mountCtx\<rparr>;
             save_published env cf req orig opts;
             State_Monad.return (False, Inr ()) } }
     | TimerFired \<Rightarrow> do {
         cancelCtx [attempt];
         modify (\<lambda>s. s\<lparr>orphans := job # orphans s\<rparr>);
         State_Monad.return (True, Inl (Status Aborted volumeOperationAlreadyExistsFmt [S (volumeId req)])) }
     | CtxDone deadline \<Rightarrow> do {
         cancelCtx [attempt];
         modify (\<lambda>s. s\<lparr>orphans := job # orphans s\<rparr>);
         State_Monad.return (True, Inl (from_context_error deadline)) } }"

text \<open>From a prepared target on: the configuration is generated, isolated and loaded.\<close>

definition publish_configured ::
    "env \<Rightarrow> node_config \<Rightarrow> publish_req \<Rightarrow> string \<Rightarrow> publish_params \<Rightarrow> (node, bool \<times> (gerr + unit)) state" where
  "publish_configured env cf req lockKey pvp0 =
     (case generateConfigData pvp0 of
        Inl e \<Rightarrow> State_Monad.return (False, Inl e)
      | Inr orig \<Rightarrow>
          (case prepareIsolatedConfig (lib_of env) (volumeId req) orig of
             Inl e \<Rightarrow> State_Monad.return (False, Inl e)
           | Inr pvp \<Rightarrow> do {
               l \<leftarrow> loadRcloneConfig env pvp;
               case l of
                 Inl e \<Rightarrow> State_Monad.return (False, Inl e)
               | Inr remotes \<Rightarrow> publish_mount env cf req lockKey orig pvp remotes }))"

text \<open>The body under the lock; its first component is \<open>handOff\<close>.\<close>

definition publish_locked ::
    "env \<Rightarrow> node_config \<Rightarrow> publish_req \<Rightarrow> string \<Rightarrow> (node, bool \<times> (gerr + unit)) state" where
  "publish_locked env cf req lockKey =
     (case publish_params_of req of
        Inl e \<Rightarrow> State_Monad.return (False, Inl e)
      | Inr pvp0 \<Rightarrow> do {
          t \<leftarrow> publish_target env (targetPath req);
          case t of
            Inl e \<Rightarrow> State_Monad.return (False, Inl e)
          | Inr already \<Rightarrow>
              if already then State_Monad.return (False, Inr ())
              else publish_configured env cf req lockKey pvp0 })"

definition nodePublishVolumeDirect :: "env \<Rightarrow> node_config \<Rightarrow> publish_req \<Rightarrow> (node, gerr + unit) state" where
  "nodePublishVolumeDirect env cf req =
     (case validatePublishVolumeRequest req of
        Some e \<Rightarrow> fail e
      | None \<Rightarrow> do {
          let lockKey = publishVolumeLockKey (cf_staging cf) (volumeId req) (targetPath req);
          a \<leftarrow> acquireVolumeLock env lockKey (volumeId req);
          case a of
            Inl e \<Rightarrow> fail e
          | Inr _ \<Rightarrow> do {
              (handOff, res) \<leftarrow> publish_locked env cf req lockKey;
              (if handOff then State_Monad.return () else releaseLock lockKey);
              State_Monad.return res } })"

section \<open>The reaper\<close>

definition forceUnmountBounded :: "env \<Rightarrow> string \<Rightarrow> (node, unit) state" where
  "forceUnmountBounded env target = do { forceCleanupMount env target; State_Monad.return () }"

text \<open>
  The goroutine of a handed-off mount, from the result of the mount on; the job leaves the
  list of orphans.
\<close>

definition reapOrphanMount :: "env \<Rightarrow> mount_job \<Rightarrow> (node, unit) state" where
  "reapOrphanMount env job = release_and (job_lockKey job) (do {
     modify (\<lambda>s. s\<lparr>orphans := remove1 job (orphans s)\<rparr>);
     res \<leftarrow> createAndMountFilesystem env (job_fsPath job) (job_target job) (job_options job) (job_params job);
     case res of
       Inl e \<Rightarrow> cleanupConfigRemotes (job_remotes job)
     | Inr (mp, mountCtx) \<Rightarrow> do {
         cancelCtx [mountCtx, job_attempt job];
         forceUnmountBounded env (job_target job);
         cleanupConfigRemotes (job_remotes job) } })"

section \<open>NodeUnpublishVolume\<close>

definition unbindPublish :: "env \<Rightarrow> string \<Rightarrow> (node, gerr option) state" where
  "unbindPublish env target = forceCleanupMount env target"

definition unpublish_locked :: "env \<Rightarrow> node_config \<Rightarrow> string \<Rightarrow> string \<Rightarrow> (node, gerr + unit) state" where
  "unpublish_locked env cf volumeID target =
     (if cf_staging cf then do {
        r \<leftarrow> unbindPublish env target;
        case r of
          Some e \<Rightarrow> fail (Status Internal ''failed to unmount target %q: %v'' [S target, E e])
        | None \<Rightarrow> ok () }
      else do {
        mc \<leftarrow> getMountContext target;
        r \<leftarrow> unmountVolume env mc target;
        case r of
          Some e \<Rightarrow> fail (Status Internal ''failed to unmount target %q: %v'' [S target, E e])
        | None \<Rightarrow> do {
            deleteMountContext target;
            case cf_stateManager cf of
              None \<Rightarrow> ok ()
            | Some sm \<Rightarrow> do {
                d \<leftarrow> DeleteState env sm volumeID target;
                case d of
                  Inl e \<Rightarrow> fail (Status Internal ''delete mount state for volume %s: %v'' [S volumeID, E e])
                | Inr _ \<Rightarrow> ok () } } })"

definition NodeUnpublishVolume :: "env \<Rightarrow> node_config \<Rightarrow> string \<Rightarrow> string \<Rightarrow> (node, gerr + unit) state" where
  "NodeUnpublishVolume env cf volumeID target =
     (case validateUnpublishVolumeRequest volumeID target of
        Some e \<Rightarrow> fail e
      | None \<Rightarrow> do {
          let lockKey = publishVolumeLockKey (cf_staging cf) volumeID target;
          a \<leftarrow> acquireVolumeLock env lockKey volumeID;
          case a of
            Inl e \<Rightarrow> fail e
          | Inr _ \<Rightarrow> release_and lockKey (unpublish_locked env cf volumeID target) })"

section \<open>Health\<close>

definition isMountHealthy :: "env \<Rightarrow> string \<Rightarrow> (node, bool \<times> reason) state" where
  "isMountHealthy env target = do {
     (healthy, msg) \<leftarrow> IsMountPathHealthy env target;
     if \<not> healthy then State_Monad.return (False, msg)
     else do {
       mc \<leftarrow> getMountContext target;
       case mc of
         None \<Rightarrow> State_Monad.return (True, None)
       | Some c \<Rightarrow>
           (case mc_mountPoint c of
              None \<Rightarrow> State_Monad.return (True, None)
            | Some mp \<Rightarrow>
                if \<not> mp_vfs mp then State_Monad.return (True, None)
                else do {
                  stats \<leftarrow> call (Rc (VFSStats (mp_id mp))) (\<lambda>h. vfsStats (rc_of env) h (mp_id mp));
                  case vs_errors stats of
                    None \<Rightarrow> State_Monad.return (True, None)
                  | Some n \<Rightarrow>
                      if 0 < n then State_Monad.return (False, Some (''VFS errors detected: %d'', [N n]))
                      else State_Monad.return (True, None) }) } }"

section \<open>Volume statistics\<close>

text \<open>\<open>csi.VolumeUsage\<close> and the response of \<open>NodeGetVolumeStats\<close>; the numbers are \<open>int64\<close>.\<close>

datatype usage_unit = UnitBytes | UnitInodes

record volume_usage =
  vu_available :: int
  vu_total :: int
  vu_used :: int
  vu_unit :: usage_unit

record stats_response =
  sr_usage :: "volume_usage list"
  sr_abnormal :: bool
  sr_message :: reason

text \<open>
  The computation on \<open>statfs\<close>: the counters are \<open>uint64\<close>, converted to \<open>int64\<close> and
  multiplied there, so it wraps at 64 bit; a value is read with its sign.
\<close>

definition int64 :: "nat \<Rightarrow> 64 word" where
  "int64 n = of_nat n"

definition volume_usages :: "statfs \<Rightarrow> volume_usage list" where
  "volume_usages st =
     (let blockSize = (word_of_int (st_bsize st) :: 64 word);
          totalBytes = int64 (st_blocks st) * blockSize;
          availableBytes = int64 (st_bavail st) * blockSize;
          freeBytes = int64 (st_bfree st) * blockSize;
          usedBytes = totalBytes - freeBytes;
          totalInodes = int64 (st_files st);
          freeInodes = int64 (st_ffree st);
          usedInodes = totalInodes - freeInodes
      in \<lparr>vu_available = sint availableBytes, vu_total = sint totalBytes, vu_used = sint usedBytes,
          vu_unit = UnitBytes\<rparr>
         # (if 0 < sint totalInodes
            then [\<lparr>vu_available = sint freeInodes, vu_total = sint totalInodes, vu_used = sint usedInodes,
                   vu_unit = UnitInodes\<rparr>]
            else []))"

text \<open>\<open>health_path\<close> is the path probed: the staging path of the volume in staging mode.\<close>

definition volume_stats ::
    "env \<Rightarrow> (node, string) state \<Rightarrow> string \<Rightarrow> (node, gerr + stats_response) state" where
  "volume_stats env health_path volumePath =
     (if volumePath = '''' then fail (Status InvalidArgument ''volume path is required'' [])
      else do {
        r \<leftarrow> call (Os (Statfs volumePath)) (\<lambda>h. statfs_of (os_of env) h volumePath);
        case r of
          Inl e \<Rightarrow> ok \<lparr>sr_usage = [], sr_abnormal = True,
                      sr_message = Some (''Failed to get filesystem statistics: %v'', [E (OsError e)])\<rparr>
        | Inr st \<Rightarrow> do {
            path \<leftarrow> health_path;
            (healthy, msg) \<leftarrow> isMountHealthy env path;
            ok \<lparr>sr_usage = volume_usages st, sr_abnormal = \<not> healthy,
                sr_message = (if healthy then Some (''Volume is healthy and accessible'', []) else msg)\<rparr> } })"

section \<open>Unmounting everything\<close>

text \<open>
  \<open>UnmountAll\<close>: every mount of the process is unmounted in a goroutine of its own, here in
  the order of the list; an entry stays when its unmount fails. \<open>in_time\<close> says whether the
  caller's context outlives them; \<open>errors.Join\<close> of no error is nil.
\<close>

definition unmount_one :: "env \<Rightarrow> string \<times> mount_context \<Rightarrow> gerr list \<Rightarrow> (node, gerr list) state" where
  "unmount_one env pm errs = (case pm of (path, mc) \<Rightarrow> do {
     r \<leftarrow> unmountVolume env (Some mc) path;
     case r of
       Some e \<Rightarrow> State_Monad.return (errs @ [Wrapf ''failed to unmount %s: %w'' [S path] e])
     | None \<Rightarrow> do { deleteMountContext path; State_Monad.return errs } })"

fun unmount_each :: "env \<Rightarrow> (string \<times> mount_context) list \<Rightarrow> gerr list \<Rightarrow> (node, gerr list) state" where
  "unmount_each env [] errs = State_Monad.return errs"
| "unmount_each env (pm # pms) errs = do { errs' \<leftarrow> unmount_one env pm errs; unmount_each env pms errs' }"

definition UnmountAll :: "env \<Rightarrow> (node, gerr list) state" where
  "UnmountAll env = do {
     mounts \<leftarrow> gets mountContext;
     if mounts = [] then State_Monad.return []
     else do {
       errs \<leftarrow> unmount_each env mounts [];
       sel \<leftarrow> call Select (select_of env);
       case sel of
         CtxDone deadline \<Rightarrow> State_Monad.return [Wrapf ''unmount timeout: %w'' [] (from_context_error deadline)]
       | _ \<Rightarrow> State_Monad.return errs } }"

section \<open>Frame\<close>

lemma keeps_publishing [frame]:
  assumes "off_locks p"
  shows "keeps p (forceUnmountBounded env t)" and "keeps p (unbindPublish env t)"
    and "keeps p (isMountHealthy env t)" and "keeps p (publish_target env t)"
proof -
  note rules = frame off_locks_world [OF assms] assms
  show "keeps p (forceUnmountBounded env t)" by (auto simp: forceUnmountBounded_def intro!: rules)
  show "keeps p (unbindPublish env t)" by (auto simp: unbindPublish_def intro!: rules)
  show "keeps p (isMountHealthy env t)" by (auto simp: isMountHealthy_def intro!: rules)
  show "keeps p (publish_target env t)" by (auto simp: publish_target_def intro!: rules)
qed

lemma keeps_locks_target [frame]: "keeps locks (publish_target env t)"
  by (auto simp: publish_target_def intro!: frame)

lemma keeps_save_published [frame]: "off_world p \<Longrightarrow> keeps p (save_published env cf req pvp opts)"
  by (auto simp: save_published_def intro!: frame)

lemma keeps_locks_publish_mount [frame]: "keeps locks (publish_mount env cf req k orig pvp remotes)"
  by (auto simp: publish_mount_def Let_def intro!: frame keeps_modify split: select_case.split)

lemma keeps_locks_publish_locked [frame]: "keeps locks (publish_locked env cf req k)"
  by (auto simp: publish_locked_def publish_configured_def intro!: frame)

section \<open>What a publish leaves behind\<close>

text \<open>
  The outcome of the body under the lock. With a hand-off exactly one orphan is added, which
  has the lock key and the remotes; without, no orphan is added and the caches change only on
  success.
\<close>

definition publish_outcome :: "publish_req \<Rightarrow> string \<Rightarrow> node \<Rightarrow> bool \<Rightarrow> gerr + unit \<Rightarrow> node \<Rightarrow> bool" where
  "publish_outcome req k s handOff r s' \<longleftrightarrow>
     (if handOff then
        (\<exists>job. orphans s' = job # orphans s \<and> job_lockKey job = k \<and> job_target job = targetPath req)
        \<and> (\<exists>e. r = Inl e \<and> status_code e \<in> {Aborted, DeadlineExceeded, Canceled}) \<and> mount_at s' = mount_at s
      else orphans s' = orphans s
        \<and> (case r of Inl e \<Rightarrow> mount_at s' = mount_at s
           | Inr _ \<Rightarrow> mount_at s' (targetPath req) \<noteq> None
               \<and> (mount_at s')(targetPath req := None) = (mount_at s)(targetPath req := None)))"

lemma publish_outcome_cong:
  "mount_at s1 = mount_at s \<Longrightarrow> orphans s1 = orphans s
    \<Longrightarrow> publish_outcome req k s1 h r s' = publish_outcome req k s h r s'"
  by (auto simp: publish_outcome_def split: sum.splits)

lemma not_handed_off: "publish_outcome req k s h r s' \<Longrightarrow> orphans s' = orphans s \<Longrightarrow> \<not> h"
  by (simp add: publish_outcome_def split: if_splits)

lemma save_published_outcome:
  "wp (save_published env cf req pvp opts)
     (\<lambda>_ s'. mount_at s' = mount_at s \<and> orphans s' = orphans s \<and> config_sections (trace s') = config_sections (trace s)) s"
proof -
  have "keeps (\<lambda>s. config_sections (trace s)) (save_published env cf req pvp opts)"
    by (rule keeps_sections) (auto simp: save_published_def intro!: frame)
  moreover have "keeps mount_at (save_published env cf req pvp opts)" "keeps orphans (save_published env cf req pvp opts)"
    by (auto intro!: frame)
  ultimately show ?thesis by (intro wp_conjI wp_keeps)
qed

lemma publish_mount_outcome:
  "wp (publish_mount env cf req k orig pvp remotes) (\<lambda>(h, r) s'. publish_outcome req k s h r s') s"
proof -
  let ?create = "createAndMountFilesystem env (buildFsPath (pv_remoteName pvp) (pv_remotePath pvp)) (targetPath req)
      (publishMountOptions (volumeCapability req) (readonly req)) (pv_params pvp)"
  have same: "keeps (\<lambda>s. (mount_at s, orphans s)) ?create"
    by (rule keeps_createAndMount) (auto intro!: off_worldI simp: fun_eq_iff)
  have create: "wp ?create Q s1"
    if "\<And>r s2. mount_at s2 = mount_at s1 \<Longrightarrow> orphans s2 = orphans s1 \<Longrightarrow> Q r s2" for Q s1
    by (rule wp_mono [OF wp_keeps [OF same]]) (auto intro: that)
  show ?thesis
    by (auto simp: publish_mount_def Let_def wp publish_outcome_def from_context_error_def
        split: select_case.split sum.split intro!: create wp_mono [OF save_published_outcome])
qed

lemma publish_target_already:
  "wp (publish_target env t) (\<lambda>r s'. r = Inr True \<longrightarrow> mount_at s t \<noteq> None) s"
proof -
  have "keeps mount_at (prepareTargetDirectory env t)" by (auto intro!: frame)
  then show ?thesis
    unfolding publish_target_def
    by (rule wp_keeps_bind)
      (auto simp: wp clean_and_recreate_def mkdir_all_def split: sum.split option.split)
qed

lemma keeps_both: "off_locks p \<Longrightarrow> off_locks q \<Longrightarrow> off_locks (\<lambda>s. (p s, q s))"
  by (simp add: off_locks_def off_world_def)

lemma publish_target_outcome:
  "wp (publish_target env t) (\<lambda>r s'. (r = Inr True \<longrightarrow> mount_at s t \<noteq> None)
     \<and> mount_at s' = mount_at s \<and> orphans s' = orphans s) s"
proof -
  have "off_locks (\<lambda>s. (mount_at s, orphans s))"
    by (intro keeps_both) (auto intro: frame)
  from wp_conjI [OF publish_target_already wp_keeps [OF keeps_publishing(4) [OF this]]]
  show ?thesis by simp
qed

lemma publish_configured_outcome:
  "wp (publish_configured env cf req k pvp0) (\<lambda>(h, r) s'. publish_outcome req k s h r s') s"
proof -
  have load: "wp (loadRcloneConfig env pvp) (\<lambda>_ s'. mount_at s' = mount_at s \<and> orphans s' = orphans s) s" for pvp
    by (intro wp_conjI wp_keeps) (auto intro!: frame)
  have mount: "wp (publish_mount env cf req k orig pvp remotes) (\<lambda>(h, r) s'. publish_outcome req k s h r s') s2"
    if "mount_at s2 = mount_at s" "orphans s2 = orphans s" for orig pvp remotes s2
    using publish_mount_outcome [of env cf req k orig pvp remotes s2] publish_outcome_cong [OF that] by simp
  show ?thesis
    by (auto simp: publish_configured_def wp publish_outcome_def [of _ _ _ False] split: sum.split
        intro!: wp_mono [OF load] mount)
qed

lemma publish_locked_outcome:
  "wp (publish_locked env cf req k) (\<lambda>(h, r) s'. publish_outcome req k s h r s') s"
proof -
  have rest: "wp (publish_configured env cf req k pvp0) (\<lambda>(h, r) s'. publish_outcome req k s h r s') s2"
    if "mount_at s2 = mount_at s" "orphans s2 = orphans s" for pvp0 s2
    using publish_configured_outcome [of env cf req k pvp0 s2] publish_outcome_cong [OF that] by simp
  have already: "publish_outcome req k s False (Inr ()) s2"
    if "mount_at s (targetPath req) \<noteq> None" "mount_at s2 = mount_at s" "orphans s2 = orphans s" for s2
    using that by (auto simp: publish_outcome_def fun_upd_idem)
  have "wp (publish_target env (targetPath req))
      (\<lambda>t. wp (case t of
            Inl e \<Rightarrow> State_Monad.return (False, Inl e)
          | Inr already \<Rightarrow>
              if already then State_Monad.return (False, Inr ())
              else publish_configured env cf req k pvp0) (\<lambda>(h, r) s'. publish_outcome req k s h r s')) s" for pvp0
    by (rule wp_mono [OF publish_target_outcome])
      (auto simp: wp publish_outcome_def [of _ _ _ False "Inl _"] split: sum.split
        intro!: already rest)
  then show ?thesis
    by (auto simp: publish_locked_def wp publish_outcome_def [of _ _ _ False "Inl _"] split: sum.split)
qed

section \<open>Sections of rclone's storage\<close>

lemma keeps_sections_createAndMount: "keeps (\<lambda>s. config_sections (trace s)) (createAndMountFilesystem env f t os ps)"
  by (rule keeps_sections) (auto intro!: frame)

lemma keeps_sections_target: "keeps (\<lambda>s. config_sections (trace s)) (publish_target env t)"
  by (rule keeps_sections) (auto simp: publish_target_def intro!: frame)

lemma keeps_sections_acquire: "keeps (\<lambda>s. config_sections (trace s)) (acquireVolumeLock env k v)"
  by (rule keeps_sections) (auto intro!: frame)

lemma config_sections_step [simp]:
  "config_sections (h @ [Cancel c]) = config_sections h" "config_sections (h @ [Select]) = config_sections h"
  "config_sections (h @ [Os x]) = config_sections h"
  by (simp_all add: config_sections_snoc)

lemma publish_mount_sections:
  "wp (publish_mount env cf req k orig pvp remotes) (\<lambda>(h, r) s'. config_sections (trace s') =
     (if \<not> h \<and> (\<exists>e. r = Inl e) then config_sections (trace s) - set remotes else config_sections (trace s))) s"
proof -
  let ?create = "createAndMountFilesystem env (buildFsPath (pv_remoteName pvp) (pv_remotePath pvp)) (targetPath req)
      (publishMountOptions (volumeCapability req) (readonly req)) (pv_params pvp)"
  have create: "wp ?create Q s1"
    if "\<And>r s2. config_sections (trace s2) = config_sections (trace s1) \<Longrightarrow> Q r s2" for Q s1
    by (rule wp_mono [OF wp_keeps [OF keeps_sections_createAndMount]]) (auto intro: that)
  have cleaned: "config_sections (h @ Cancel c # map (\<lambda>n. Cfg (CfgDelete n)) remotes) = config_sections h - set remotes"
    for h c
    using config_sections_cleanup [of "h @ [Cancel c]" remotes] by simp
  show ?thesis
    by (auto simp: publish_mount_def Let_def wp cleaned config_sections_snoc
        split: select_case.split sum.split intro!: create wp_mono [OF save_published_outcome])
qed

lemma load_remotes_ok:
  assumes "\<And>h n ps. updateRemote (rc_of env) h n ps = None"
  shows "wp (load_remotes env params rs loaded) (\<lambda>r _. \<exists>ns. r = Inr ns) s"
proof -
  have key: "wp (load_key env params n kv) (\<lambda>r _. r = Inr ()) s" for n kv and s :: "'a world_scheme"
    by (cases kv) (simp add: load_key_def wp Let_def assms)
  have keys: "wp (for_each_err d (load_key env params n)) (\<lambda>r _. r = Inr ()) s" for n d and s :: "'a world_scheme"
    by (induction d arbitrary: s) (auto simp: wp intro!: wp_mono [OF key])
  show ?thesis
  proof (induction rs arbitrary: loaded s)
    case (Cons r rs)
    then show ?case by (cases r) (auto simp: wp intro!: wp_mono [OF keys])
  qed (simp add: wp)
qed

lemma loadRcloneConfig_sections:
  assumes "\<And>h n ps. updateRemote (rc_of env) h n ps = None"
  shows "wp (loadRcloneConfig env pvp) (\<lambda>r s'. case r of
       Inl _ \<Rightarrow> config_sections (trace s') = config_sections (trace s)
     | Inr ns \<Rightarrow> config_sections (trace s') - set ns \<subseteq> config_sections (trace s)) s"
proof -
  have "wp (load_remotes env ps rs []) (\<lambda>r s'. case r of
       Inl _ \<Rightarrow> config_sections (trace s') = config_sections (trace s)
     | Inr ns \<Rightarrow> config_sections (trace s') - set ns \<subseteq> config_sections (trace s)) s" for ps rs
  proof (rule wpI)
    fix r s' assume run: "run_state (load_remotes env ps rs []) s = (r, s')"
    obtain ns where ns: "r = Inr ns" using wp_runD [OF load_remotes_ok [OF assms] run] by auto
    have "ns = keys rs" using wp_runD [OF load_remotes_names run] ns by simp
    moreover obtain es where "trace s' = trace s @ es" "list_all (touches (set (keys rs))) es"
      using adds_run [OF adds_load_remotes [OF subset_refl] run] .
    moreover from this(2) have "fold config_step es (config_sections (trace s)) \<subseteq> config_sections (trace s) \<union> set (keys rs)"
      using touches_fold by blast
    ultimately show "case r of
       Inl _ \<Rightarrow> config_sections (trace s') = config_sections (trace s)
     | Inr ns \<Rightarrow> config_sections (trace s') - set ns \<subseteq> config_sections (trace s)"
      unfolding ns by (auto simp: config_sections_append)
  qed
  then show ?thesis by (auto simp: loadRcloneConfig_def wp split: sum.split)
qed

text \<open>A publish that fails without a hand-off adds no section.\<close>

lemma publish_locked_sections:
  assumes "\<And>h n ps. updateRemote (rc_of env) h n ps = None"
  shows "wp (publish_locked env cf req k) (\<lambda>(h, r) s'. \<not> h \<and> (\<exists>e. r = Inl e)
      \<longrightarrow> config_sections (trace s') \<subseteq> config_sections (trace s)) s"
proof -
  let ?Q = "\<lambda>(h, r) s'. \<not> h \<and> (\<exists>e. r = Inl e) \<longrightarrow> config_sections (trace s') \<subseteq> config_sections (trace s)"
  have mount: "wp (publish_mount env cf req k orig pvp remotes) ?Q s1"
    if "config_sections (trace s1) - set remotes \<subseteq> config_sections (trace s)" for orig pvp remotes s1
    by (rule wp_mono [OF publish_mount_sections]) (use that in \<open>auto split: if_splits\<close>)
  have conf: "wp (publish_configured env cf req k pvp0) ?Q s1"
    if same: "config_sections (trace s1) = config_sections (trace s)" for pvp0 s1
  proof -
    have "wp (loadRcloneConfig env pvp) (\<lambda>l. wp (case l of
             Inl e \<Rightarrow> State_Monad.return (False, Inl e)
           | Inr remotes \<Rightarrow> publish_mount env cf req k orig pvp remotes) ?Q) s1" for orig pvp
      by (rule wp_mono [OF loadRcloneConfig_sections [OF assms]])
        (auto simp: wp same split: sum.splits intro!: mount)
    then show ?thesis
      by (auto simp: publish_configured_def wp same split: sum.split)
  qed
  show ?thesis
    by (auto simp: publish_locked_def wp split: sum.split
        intro!: wp_mono [OF wp_keeps [OF keeps_sections_target]] conf)
qed

section \<open>Locks\<close>

lemma acquireVolumeLock_caches:
  "wp (acquireVolumeLock env k v) (\<lambda>r s'. mount_at s' = mount_at s \<and> staged_at s' = staged_at s
     \<and> orphans s' = orphans s \<and> config_sections (trace s') = config_sections (trace s)
     \<and> (case r of Inr _ \<Rightarrow> k \<in> locks s' | Inl e \<Rightarrow> e = Status Aborted volumeOperationAlreadyExistsFmt [S v])) s"
  by (intro wp_conjI wp_keeps acquireVolumeLock_held keeps_sections_acquire) (auto intro!: frame)

text \<open>A lock that others keep is not got, and stays.\<close>

lemma acquire_from_busy:
  assumes "\<And>h l. k \<in> l \<Longrightarrow> k \<in> lock_others env h l" and "k \<in> locks s"
  shows "wp (acquire_from env k v n) (\<lambda>r s'. k \<in> locks s' \<and> (\<exists>e. r = Inl e)) s"
  using assms(2)
proof (induction "volumeLockMaxRetries - n" arbitrary: n s)
  case 0
  then show ?case by (subst acquire_from.simps) (simp add: wp)
next
  case (Suc m)
  then have "wp (acquire_from env k v (Suc n)) (\<lambda>r s'. k \<in> locks s' \<and> (\<exists>e. r = Inl e)) s1"
    if "k \<in> locks s1" for s1 :: "'a lock_world_scheme" using that by simp
  with Suc.prems assms(1) show ?case
    by (subst acquire_from.simps) (simp add: wp)
qed

lemmas acquireVolumeLock_busy = acquire_from_busy [where n = 0, folded acquireVolumeLock_def]

text \<open>
  The lock of a publish: taken by a successful acquisition, and given back unless the mount
  was handed off.
\<close>

text \<open>What a publish shows follows from what its body shows once it has the lock.\<close>

lemma nodePublish_rule:
  assumes "validatePublishVolumeRequest req = None"
    and "k = publishVolumeLockKey (cf_staging cf) (volumeId req) (targetPath req)"
    and busy: "\<And>s1. mount_at s1 = mount_at s \<Longrightarrow> orphans s1 = orphans s
       \<Longrightarrow> config_sections (trace s1) = config_sections (trace s)
       \<Longrightarrow> Q (Inl (Status Aborted volumeOperationAlreadyExistsFmt [S (volumeId req)])) s1"
    and body: "\<And>s1. mount_at s1 = mount_at s \<Longrightarrow> orphans s1 = orphans s
       \<Longrightarrow> config_sections (trace s1) = config_sections (trace s) \<Longrightarrow> k \<in> locks s1
       \<Longrightarrow> wp (publish_locked env cf req k)
             (\<lambda>(h, r) s2. Q r (if h then s2 else s2\<lparr>locks := locks s2 - {k}\<rparr>)) s1"
  shows "wp (nodePublishVolumeDirect env cf req) Q s"
proof -
  have "wp (case a of
            Inl e \<Rightarrow> fail e
          | Inr _ \<Rightarrow> do { (handOff, res) \<leftarrow> publish_locked env cf req k;
              (if handOff then State_Monad.return () else releaseLock k);
              State_Monad.return res }) Q s1"
    if "mount_at s1 = mount_at s \<and> staged_at s1 = staged_at s \<and> orphans s1 = orphans s
        \<and> config_sections (trace s1) = config_sections (trace s)
        \<and> (case a of Inr _ \<Rightarrow> k \<in> locks s1 | Inl e \<Rightarrow> e = Status Aborted volumeOperationAlreadyExistsFmt [S (volumeId req)])"
    for a s1
  proof (cases a)
    case (Inl e)
    with that busy show ?thesis by (simp add: wp)
  next
    case (Inr u)
    with that have "wp (publish_locked env cf req k)
        (\<lambda>(h, r) s2. Q r (if h then s2 else s2\<lparr>locks := locks s2 - {k}\<rparr>)) s1"
      by (intro body) auto
    then have "wp (publish_locked env cf req k) (\<lambda>(h, r). wp (do {
        (if h then State_Monad.return () else releaseLock k); State_Monad.return r }) Q) s1"
      by (rule wp_mono) (auto simp: wp split: prod.splits if_splits)
    with Inr show ?thesis by (simp only: sum.case wp_bind wp_case_prod)
  qed
  then have "wp (acquireVolumeLock env k (volumeId req)) (\<lambda>a. wp (case a of
            Inl e \<Rightarrow> fail e
          | Inr _ \<Rightarrow> do { (handOff, res) \<leftarrow> publish_locked env cf req k;
              (if handOff then State_Monad.return () else releaseLock k);
              State_Monad.return res }) Q) s"
    by (rule wp_mono [OF acquireVolumeLock_caches])
  then show ?thesis
    unfolding nodePublishVolumeDirect_def assms(1) Let_def assms(2) [symmetric] option.case wp_bind .
qed

text \<open>
  The lock of a publish: taken by a successful acquisition, and given back unless the mount
  was handed off.
\<close>

lemma nodePublish_outcome:
  assumes "validatePublishVolumeRequest req = None"
    and "k = publishVolumeLockKey (cf_staging cf) (volumeId req) (targetPath req)"
  shows "wp (nodePublishVolumeDirect env cf req) (\<lambda>r s'.
     (r = Inl (Status Aborted volumeOperationAlreadyExistsFmt [S (volumeId req)])
        \<and> mount_at s' = mount_at s \<and> orphans s' = orphans s)
     \<or> (\<exists>handOff. publish_outcome req k s handOff r s' \<and> (k \<in> locks s' \<longleftrightarrow> handOff))) s"
proof (rule nodePublish_rule [OF assms])
  fix s1 assume s1: "mount_at s1 = mount_at s" "orphans s1 = orphans s" "k \<in> locks s1"
  have outcome_locks: "publish_outcome req k s h r (s'\<lparr>locks := l\<rparr>) = publish_outcome req k s h r s'" for h r s' l
    by (simp add: publish_outcome_def split: sum.split)
  show "wp (publish_locked env cf req k) (\<lambda>(h, r) s2.
      (r = Inl (Status Aborted volumeOperationAlreadyExistsFmt [S (volumeId req)])
        \<and> mount_at (if h then s2 else s2\<lparr>locks := locks s2 - {k}\<rparr>) = mount_at s
        \<and> orphans (if h then s2 else s2\<lparr>locks := locks s2 - {k}\<rparr>) = orphans s)
     \<or> (\<exists>handOff. publish_outcome req k s handOff r (if h then s2 else s2\<lparr>locks := locks s2 - {k}\<rparr>)
          \<and> (k \<in> locks (if h then s2 else s2\<lparr>locks := locks s2 - {k}\<rparr>) \<longleftrightarrow> handOff))) s1"
    by (rule wp_mono [OF wp_conjI [OF publish_locked_outcome wp_keeps [OF keeps_locks_publish_locked]]])
      (use s1 publish_outcome_cong [OF s1(1,2)] in \<open>auto simp: outcome_locks split: if_splits\<close>)
qed simp

section \<open>The reaper and unpublishing\<close>

definition force_clean :: "env \<Rightarrow> string \<Rightarrow> ev" where
  "force_clean env t = Os (CleanupMount t (forceUnmounter (os_of env)))"

text \<open>The mount of a job, as it ends when the reaper takes its result in the state \<open>s\<close>.\<close>

definition job_result :: "env \<Rightarrow> mount_job \<Rightarrow> node \<Rightarrow> gerr + mount_point \<times> nat" where
  "job_result env job s =
     fst (run_state (createAndMountFilesystem env (job_fsPath job) (job_target job) (job_options job) (job_params job))
            (s\<lparr>orphans := remove1 job (orphans s)\<rparr>))"

lemma adds_no_os_createAndMount: "adds (\<lambda>e. \<forall>c. e \<noteq> Os c) (createAndMountFilesystem env f t os ps)"
  by (auto intro!: frame)

lemma reap_effect:
  "wp (reapOrphanMount env job) (\<lambda>_ s'. locks s' = locks s - {job_lockKey job}
     \<and> orphans s' = remove1 job (orphans s) \<and> mount_at s' = mount_at s \<and> staged_at s' = staged_at s
     \<and> config_sections (trace s') = config_sections (trace s) - set (job_remotes job)
     \<and> (force_clean env (job_target job) \<in> new_calls s s' \<longleftrightarrow> (\<exists>x. job_result env job s = Inr x))) s"
proof -
  let ?create = "createAndMountFilesystem env (job_fsPath job) (job_target job) (job_options job) (job_params job)"
  let ?s0 = "s\<lparr>orphans := remove1 job (orphans s)\<rparr>"
  obtain r s1 where run: "run_state ?create ?s0 = (r, s1)" by fastforce
  obtain es where es: "trace s1 = trace s @ es" "list_all (\<lambda>e. \<forall>c. e \<noteq> Os c) es"
    using adds_run [OF adds_no_os_createAndMount run] by auto
  then have no_os: "force_clean env t \<notin> set es" for t
    by (auto simp: force_clean_def list_all_iff)
  have same: "locks s1 = locks s" "orphans s1 = remove1 job (orphans s)" "mount_at s1 = mount_at s"
      "staged_at s1 = staged_at s"
    using keeps_run [OF keeps_createAndMount run, of locks] keeps_run [OF keeps_createAndMount run, of orphans]
      keeps_run [OF keeps_createAndMount run, of mount_at] keeps_run [OF keeps_createAndMount run, of staged_at]
    by (simp_all add: frame)
  have sections: "config_sections (trace s1) = config_sections (trace s)"
    using keeps_run [OF keeps_sections_createAndMount run] by simp
  have deleted: "config_sections (h @ map (\<lambda>n. Cfg (CfgDelete n)) ns) = config_sections h - set ns" for h ns
    by (rule config_sections_cleanup)
  show ?thesis
  proof (cases r)
    case (Inl e)
    with run same sections es no_os show ?thesis
      by (auto simp: reapOrphanMount_def release_and_def wp wp_run job_result_def new_calls_def deleted force_clean_def)
  next
    case (Inr mc)
    then obtain mp c where r: "r = Inr (mp, c)" by (cases mc) auto
    let ?h = "trace s1 @ [Cancel c, Cancel (job_attempt job), force_clean env (job_target job)]"
    have "config_sections ?h = config_sections (trace s)"
      using config_sections_snoc [of "force_clean env (job_target job)" "trace s1 @ [Cancel c, Cancel (job_attempt job)]"]
        config_sections_cancels [of "trace s1" "[c, job_attempt job]"] sections by (simp add: force_clean_def)
    then have "config_sections (?h @ map (\<lambda>n. Cfg (CfgDelete n)) (job_remotes job))
        = config_sections (trace s) - set (job_remotes job)" by (simp only: deleted)
    then show ?thesis using run r same es
      by (auto simp: reapOrphanMount_def release_and_def wp wp_run wp_cancelCtxs forceUnmountBounded_def
          job_result_def new_calls_def force_clean_def)
  qed
qed

text \<open>Unpublishing without staging: what happens under the lock.\<close>

lemma unpublish_locked_effect:
  assumes "\<not> cf_staging cf"
  shows "wp (unpublish_locked env cf v t) (\<lambda>r s'. orphans s' = orphans s \<and> staged_at s' = staged_at s
     \<and> config_sections (trace s') = config_sections (trace s) - owned_remotes (mount_at s t)
     \<and> (mount_at s' = (mount_at s)(t := None) \<or> mount_at s' = mount_at s \<and> (\<exists>e. r = Inl e))) s"
proof -
  have unmount: "wp (unmountVolume env mc t) (\<lambda>r s'. orphans s' = orphans s \<and> staged_at s' = staged_at s
      \<and> mount_at s' = mount_at s \<and> config_sections (trace s') = config_sections (trace s) - owned_remotes mc) s" for mc
  proof -
    have "wp (unmountVolume env mc t) (\<lambda>r s'. config_sections (trace s') = config_sections (trace s) - owned_remotes mc) s"
      by (rule wp_mono [OF unmountVolume_effect]) blast
    then show ?thesis by (intro wp_conjI wp_keeps) (auto intro!: frame)
  qed
  have delete: "wp (DeleteState env sm v t) (\<lambda>r s'. orphans s' = orphans s1 \<and> staged_at s' = staged_at s1
      \<and> mount_at s' = mount_at s1 \<and> config_sections (trace s') = config_sections (trace s1)) s1"
    for sm and s1 :: node
  proof -
    have "keeps (\<lambda>s. config_sections (trace s)) (DeleteState env sm v t)"
      by (rule keeps_sections) (auto intro!: frame)
    then show ?thesis by (intro wp_conjI wp_keeps) (auto intro!: frame)
  qed
  show ?thesis
    using assms
    by (auto simp: unpublish_locked_def wp split: option.split sum.split
        intro!: wp_mono [OF unmount] wp_mono [OF delete])
qed

text \<open>
  The sections a publish loads are a function of the volume ID and the parameters: the target
  path does not enter.
\<close>

definition planned_remotes :: "lib \<Rightarrow> string \<Rightarrow> publish_params \<Rightarrow> string list option" where
  "planned_remotes lib volumeID pvp0 =
     (case generateConfigData pvp0 of
        Inl _ \<Rightarrow> None
      | Inr orig \<Rightarrow>
          (case prepareIsolatedConfig lib volumeID orig of
             Inl _ \<Rightarrow> None
           | Inr pvp \<Rightarrow>
               if pv_configData pvp = '''' then Some []
               else (case parseAllConfigRemotes lib (pv_configData pvp) of Inl _ \<Rightarrow> None | Inr rs \<Rightarrow> Some (keys rs))))"

lemma loadRcloneConfig_names:
  "wp (loadRcloneConfig env pvp) (\<lambda>r _. \<forall>ns. r = Inr ns \<longrightarrow>
     (if pv_configData pvp = '''' then ns = []
      else \<exists>rs. parseAllConfigRemotes (lib_of env) (pv_configData pvp) = Inr rs \<and> ns = keys rs)) s"
  by (auto simp: loadRcloneConfig_def wp split: sum.split intro!: wp_mono [OF load_remotes_names])

lemma publish_mount_success:
  "wp (publish_mount env cf req k orig pvp remotes) (\<lambda>(h, r) s'. r = Inr () \<longrightarrow>
     (\<exists>mc. mount_at s' (targetPath req) = Some mc \<and> mc_remotes mc = remotes \<and> mc_mountPoint mc \<noteq> None)) s"
  by (auto simp: publish_mount_def Let_def wp split: select_case.split sum.split
      intro!: wpI dest!: keeps_run [OF keeps_save_published [OF off_locks_world [OF off_locks_node(1)]]])

lemma publish_configured_success:
  "wp (publish_configured env cf req k pvp0) (\<lambda>(h, r) s'. r = Inr () \<longrightarrow>
     (\<exists>mc. mount_at s' (targetPath req) = Some mc \<and> mc_mountPoint mc \<noteq> None
        \<and> planned_remotes (lib_of env) (volumeId req) pvp0 = Some (mc_remotes mc))) s"
proof -
  have mount: "wp (publish_mount env cf req k orig pvp remotes) (\<lambda>(h, r) s'. r = Inr () \<longrightarrow>
     (\<exists>mc. mount_at s' (targetPath req) = Some mc \<and> mc_mountPoint mc \<noteq> None \<and> Some remotes = Some (mc_remotes mc))) s"
    for orig pvp remotes s
    by (rule wp_mono [OF publish_mount_success]) auto
  show ?thesis
    by (auto simp: publish_configured_def planned_remotes_def wp split: sum.split
        intro!: wp_mono [OF loadRcloneConfig_names] wp_mono [OF mount])
qed

section \<open>Arithmetic of the statistics\<close>

lemma sint_small: "- (2 ^ 63) \<le> x \<Longrightarrow> x < 2 ^ 63 \<Longrightarrow> sint (word_of_int x :: 64 word) = x"
  by transfer (simp add: signed_take_bit_int_eq_self)

lemma int64_times: "int64 n * word_of_int b = word_of_int (int n * b)"
  by (simp add: int64_def)

section \<open>Examples\<close>

definition example_cf :: node_config where
  "example_cf = \<lparr>cf_nodeID = ''n1'', cf_name = ''csi'', cf_staging = False, cf_mountTimeout = 0,
     cf_stateManager = None\<rparr>"

definition s3_config :: string where
  "s3_config = ''[s3]'' @ [CHR 0x0A] @ ''type = s3'' @ [CHR 0x0A]"

definition example_req :: "string \<Rightarrow> publish_req" where
  "example_req t = \<lparr>volumeId = ''vol'', targetPath = t, stagingTargetPath = '''',
     volumeCapability = Some (MountCap [] ''''), readonly = False,
     secrets = [(''remote'', ''s3''), (''configData'', s3_config)], volumeContext = []\<rparr>"

definition example_pvp :: publish_params where
  "example_pvp = \<lparr>pv_remoteName = ''s3'', pv_remotePath = '''', pv_configData = s3_config, pv_remoteType = '''',
     pv_remotePrefix = '''', pv_params = []\<rparr>"

definition s3_isolated :: string where
  "s3_isolated = ''[csivol0000000000000-s3]'' @ [CHR 0x0A] @ ''type = s3'' @ [CHR 0x0A, CHR 0x0A]"

text \<open>An outside in which the \<open>select\<close> of a publish takes the given case.\<close>

definition select_env :: "select_case \<Rightarrow> env" where
  "select_env c = example_env\<lparr>select_of := \<lambda>_. c\<rparr>"

lemma example_req_simps [simp]:
  "volumeId (example_req t) = ''vol''" "targetPath (example_req t) = t"
  "volumeCapability (example_req t) = Some (MountCap [] '''')" "\<not> readonly (example_req t)"
  by (simp_all add: example_req_def)

lemma example_pvp_simps [simp]:
  "pv_params example_pvp = []" "pv_remotePath example_pvp = ''''" "pv_remotePrefix example_pvp = ''''"
  "pv_remoteName example_pvp = ''s3''"
  by (simp_all add: example_pvp_def)

lemma select_env_simps [simp]:
  "lib_of (select_env c) = example_lib" "os_of (select_env c) = example_os" "rc_of (select_env c) = example_rclone"
  "select_of (select_env c) h = c" "lock_others (select_env c) h l = l"
  by (simp_all add: select_env_def example_env_def)

lemma example_publish_params: "publish_params_of (example_req t) = Inr example_pvp"
  by (simp add: publish_params_of_def example_req_def mergeVolumeParameters_def applyVolumeMountGroup_def
      example_pvp_def extractPublishParams_def param_names mget_def reservedParams_def s3_config_def)

lemma example_generate: "generateConfigData example_pvp = Inr example_pvp"
  by code_simp

lemma example_isolate:
  "prepareIsolatedConfig example_lib ''vol'' example_pvp
     = Inr (example_pvp\<lparr>pv_configData := s3_isolated, pv_remoteName := ''csivol0000000000000-s3''\<rparr>)"
  by code_simp

lemma example_parse:
  "parseAllConfigRemotes example_lib s3_isolated = Inr [(''csivol0000000000000-s3'', [(''type'', ''s3'')])]"
  by code_simp

lemma acquire_free:
  "k \<notin> locks s \<Longrightarrow> run_state (acquireVolumeLock env k v) s = (Inr (), s\<lparr>locks := insert k (locks s)\<rparr>)"
  by (simp add: acquireVolumeLock_def acquire_from.simps run_tryAcquire volumeLockMaxRetries_def)

lemma s3_isolated_ne: "s3_isolated \<noteq> ''''"
  by (simp add: s3_isolated_def)

lemma example_load:
  "lib_of env = example_lib \<Longrightarrow>
   run_state (loadRcloneConfig env (example_pvp\<lparr>pv_configData := s3_isolated, pv_remoteName := n\<rparr>)) s
     = (Inr [''csivol0000000000000-s3''],
        s\<lparr>trace := trace s @ [Cfg (CfgSet ''csivol0000000000000-s3'' ''type'' ''s3'')]\<rparr>)"
  by (simp add: loadRcloneConfig_def example_parse example_pvp_def s3_isolated_ne load_key_def
      paramBackendTypeKey_def)

definition target_calls :: "string \<Rightarrow> history" where
  "target_calls t = [Os (IsLikelyNotMountPoint t), Os (Chmod t)]"

lemma example_target:
  "os_of env = example_os \<Longrightarrow>
   run_state (publish_target env t) s = (Inr False, s\<lparr>trace := trace s @ target_calls t\<rparr>)"
  by (simp add: publish_target_def prepareTargetDirectory_def check_target_def example_os_def target_calls_def)

definition mount_calls :: "string \<Rightarrow> string \<Rightarrow> history" where
  "mount_calls f t = [Rc (ConfigInfoSet []), Rc ConfigReload, Rc (NewFs f),
     Rc (LoadMountOptions [(''allow_other'', ''false'')]), Rc (LoadMountOptions [(''allow_other'', ''false'')]),
     Rc (LoadVFSOptions [(''vfs_cache_mode'', ''off'')]), Rc (LoadVFSOptions [(''vfs_cache_mode'', ''off'')]),
     Rc (ResolveMount ''''), Rc (RcloneMount f t)]"

definition example_mp :: "history \<Rightarrow> string \<Rightarrow> mount_point" where
  "example_mp h f = \<lparr>mp_id = length h + 8, mp_vfs = True, mp_deviceName = f, mp_volumeName = f,
     mp_vfsReadOnly = False, mp_mountedOn = 0\<rparr>"

lemma example_mount:
  "run_state (createAndMountFilesystem (select_env c) f t [] []) s
     = (Inr (example_mp (trace s) f, nextCtx s),
        s\<lparr>nextCtx := Suc (nextCtx s), trace := trace s @ mount_calls f t\<rparr>)"
  by (simp add: createAndMountFilesystem_def extractVolumeMountOptions_def mergeCopy_def config_map_def
      setRcloneConfigFlags_def set_dir_def example_rclone_def mount_with_options_def extractMountOptions_def
      extractVFSOptions_def resolveMountMethod_def handleRcloneDaemon_def Let_def mount_calls_def example_mp_def
      overridden_options_def default_options_def example_lib_def)

text \<open>A publish of the example in each of the three cases of the \<open>select\<close>.\<close>

lemmas example_run = nodePublishVolumeDirect_def validatePublishVolumeRequest_def example_cf_def Let_def acquire_free
  publish_locked_def example_publish_params publish_configured_def example_generate example_isolate example_load
  publish_mount_def save_published_def publishMountOptions_def example_target example_mount
  run_cancelCtx releaseLock_def setMountContext_def

lemma example_publish:
  assumes "locks s0 = {}"
  shows "fst (run_state (nodePublishVolumeDirect (select_env c) example_cf (example_req ''/t'')) s0)
     = (case c of ResultReady \<Rightarrow> Inr ()
        | TimerFired \<Rightarrow> Inl (Status Aborted volumeOperationAlreadyExistsFmt [S ''vol''])
        | CtxDone d \<Rightarrow> Inl (from_context_error d))"
  using assms
  by (cases c) (simp_all add: example_run)

section \<open>Properties\<close>



text \<open>
  An orphan keeps its target closed. While the lock of a target is held, by an
  orphan whose reaper has not finished or by another operation, every publish of it is
  refused with \<open>Aborted\<close> and touches neither the caches nor rclone's configuration.
\<close>

theorem nodePublishVolumeDirect_while_locked:
  assumes "validatePublishVolumeRequest req = None"
    and "k = publishVolumeLockKey (cf_staging cf) (volumeId req) (targetPath req)" and "k \<in> locks s"
    and "\<And>h l. k \<in> l \<Longrightarrow> k \<in> lock_others env h l"
    and "run_state (nodePublishVolumeDirect env cf req) s = (r, s')"
  shows "r = Inl (Status Aborted volumeOperationAlreadyExistsFmt [S (volumeId req)])
    \<and> k \<in> locks s' \<and> mount_at s' = mount_at s \<and> orphans s' = orphans s
    \<and> config_sections (trace s') = config_sections (trace s)"
proof -
  obtain a s1 where acq: "run_state (acquireVolumeLock env k (volumeId req)) s = (a, s1)" by fastforce
  have busy: "k \<in> locks s1" "\<exists>e. a = Inl e"
    using wp_runD [OF acquireVolumeLock_busy [OF assms(4,3)] acq] by auto
  with wp_runD [OF acquireVolumeLock_caches acq]
  have "a = Inl (Status Aborted volumeOperationAlreadyExistsFmt [S (volumeId req)])"
    and "mount_at s1 = mount_at s" "orphans s1 = orphans s"
    and "config_sections (trace s1) = config_sections (trace s)" by auto
  moreover from this(1) have "(r, s') = (Inl (Status Aborted volumeOperationAlreadyExistsFmt [S (volumeId req)]), s1)"
    using assms(1,2,5) acq by (simp add: nodePublishVolumeDirect_def Let_def)
  ultimately show ?thesis using busy(1) by simp
qed

theorem nodePublishVolumeDirect_while_locked_witness:
  "fst (run_state (nodePublishVolumeDirect example_env example_cf (example_req ''/t''))
     (initial_node\<lparr>locks := {publishVolumeLockKey False ''vol'' ''/t''}\<rparr>))
   = Inl (Status Aborted volumeOperationAlreadyExistsFmt [S ''vol''])"
proof -
  let ?s = "initial_node\<lparr>locks := {publishVolumeLockKey False ''vol'' ''/t''}\<rparr>"
  obtain r s' where run: "run_state (nodePublishVolumeDirect example_env example_cf (example_req ''/t'')) ?s = (r, s')"
    by fastforce
  have "validatePublishVolumeRequest (example_req ''/t'') = None"
    by (simp add: validatePublishVolumeRequest_def)
  from nodePublishVolumeDirect_while_locked [OF this refl _ _ run] run show ?thesis
    by (simp add: example_cf_def example_env_def)
qed

text \<open>
  Property C12: the reaper leaves nothing of its orphan behind. Whatever the mount came to, the
  lock of the target is free afterwards, the orphan is gone and none of its sections is in
  rclone's storage; and the target is force-cleaned exactly when the mount had come up.
\<close>

theorem reapOrphanMount_complete:
  fixes env job and s :: node
  defines "s' \<equiv> snd (run_state (reapOrphanMount env job) s)"
  shows "locks s' = locks s - {job_lockKey job} \<and> orphans s' = remove1 job (orphans s)
    \<and> config_sections (trace s') = config_sections (trace s) - set (job_remotes job)
    \<and> mount_at s' = mount_at s \<and> staged_at s' = staged_at s
    \<and> (force_clean env (job_target job) \<in> new_calls s s' \<longleftrightarrow> (\<exists>x. job_result env job s = Inr x))"
  using reap_effect [of env job s] by (simp add: wp_def s'_def split: prod.splits)



text \<open>
  Volume statistics are exact. As long as the size of the file system fits 63
  bits, \<open>NodeGetVolumeStats\<close> reports the products and differences of the \<open>statfs\<close> counters
  without wrap-around, used is total minus free, and the inode usage is reported exactly
  when the file system has inodes.
\<close>

theorem volume_usages_exact:
  assumes "0 \<le> st_bsize st" and "int (st_blocks st) * st_bsize st < 2 ^ 63"
    and "st_bfree st \<le> st_blocks st" and "st_bavail st \<le> st_blocks st"
    and "st_files st < 2 ^ 63" and "st_ffree st \<le> st_files st"
  shows "volume_usages st =
     \<lparr>vu_available = int (st_bavail st) * st_bsize st, vu_total = int (st_blocks st) * st_bsize st,
      vu_used = int (st_blocks st - st_bfree st) * st_bsize st, vu_unit = UnitBytes\<rparr>
     # (if st_files st = 0 then []
        else [\<lparr>vu_available = int (st_ffree st), vu_total = int (st_files st),
               vu_used = int (st_files st - st_ffree st), vu_unit = UnitInodes\<rparr>])"
proof -
  have le: "int n * st_bsize st \<le> int (st_blocks st) * st_bsize st" if "n \<le> st_blocks st" for n
    using that assms(1) by (intro mult_right_mono) auto
  have range: "- (2 ^ 63) \<le> int n * st_bsize st" "int n * st_bsize st < 2 ^ 63" if "n \<le> st_blocks st" for n
    using le [OF that] assms(1,2) by (auto intro: order_trans [of _ 0])
  have bytes: "sint (word_of_int (int n * st_bsize st) :: 64 word) = int n * st_bsize st" if "n \<le> st_blocks st" for n
    by (intro sint_small range that)
  have used: "int (st_blocks st) * st_bsize st - int (st_bfree st) * st_bsize st
      = int (st_blocks st - st_bfree st) * st_bsize st"
    using assms(3) by (simp add: of_nat_diff left_diff_distrib)
  have diff: "(word_of_int (int (st_blocks st) * st_bsize st) - word_of_int (int (st_bfree st) * st_bsize st) :: 64 word)
      = word_of_int (int (st_blocks st - st_bfree st) * st_bsize st)"
    unfolding used [symmetric] by simp
  have inodes: "sint (int64 n) = int n" if "n \<le> st_files st" for n
    using sint_small [of "int n"] that assms(5) by (simp add: int64_def)
  have idiff: "int64 (st_files st) - int64 (st_ffree st) = int64 (st_files st - st_ffree st)"
    using assms(6) by (simp add: int64_def of_nat_diff)
  have prod: "sint (int64 n * word_of_int (st_bsize st)) = int n * st_bsize st" if "n \<le> st_blocks st" for n
    unfolding int64_times by (rule bytes [OF that])
  have "sint (int64 (st_blocks st) * word_of_int (st_bsize st) - int64 (st_bfree st) * word_of_int (st_bsize st))
      = int (st_blocks st - st_bfree st) * st_bsize st"
    unfolding int64_times diff by (rule bytes) simp
  moreover have "sint (int64 (st_files st - st_ffree st)) = int (st_files st - st_ffree st)"
    by (rule inodes) simp
  ultimately show ?thesis
    by (simp add: volume_usages_def Let_def prod [OF assms(3)] prod [OF assms(4)] prod [OF order_refl] idiff
        inodes [OF assms(6)] inodes [OF order_refl] del: of_nat_diff)
qed

theorem volume_usages_exact_witness:
  "map vu_used (volume_usages \<lparr>st_bsize = 4096, st_blocks = 100, st_bavail = 40, st_bfree = 50, st_files = 10,
      st_ffree = 4\<rparr>) = [204800, 6]"
  by (subst volume_usages_exact) simp_all

lemma unpublish_success:
  assumes "\<not> cf_staging cf"
  shows "wp (NodeUnpublishVolume env cf v t) (\<lambda>r s'. r = Inr () \<longrightarrow>
     mount_at s' = (mount_at s)(t := None) \<and> orphans s' = orphans s
     \<and> config_sections (trace s') = config_sections (trace s) - owned_remotes (mount_at s t)
     \<and> publishVolumeLockKey False v t \<notin> locks s') s"
proof -
  have key: "publishVolumeLockKey (cf_staging cf) v t = publishVolumeLockKey False v t"
    using assms by simp
  show ?thesis
    by (auto simp: NodeUnpublishVolume_def wp Let_def release_and_def key split: option.split sum.split
        intro!: wp_mono [OF acquireVolumeLock_caches] wp_mono [OF unpublish_locked_effect [OF assms]])
qed

text \<open>
  Property C25: a successful unpublish (without staging) takes exactly the mount at its target
  out of the cache, removes exactly the sections that mount had loaded, and leaves the target
  unlocked.
\<close>

theorem NodeUnpublishVolume_success:
  assumes "\<not> cf_staging cf" and "run_state (NodeUnpublishVolume env cf v t) s = (Inr (), s')"
  shows "mount_at s' = (mount_at s)(t := None) \<and> orphans s' = orphans s
     \<and> config_sections (trace s') = config_sections (trace s) - owned_remotes (mount_at s t)
     \<and> publishVolumeLockKey False v t \<notin> locks s'"
  using wp_runD [OF unpublish_success [OF assms(1)] assms(2)] by simp

definition example_mounted :: "string \<Rightarrow> mount_context" where
  "example_mounted f = \<lparr>mc_mountPoint = Some (example_mp [] f), mc_remoteName = f, mc_remotes = [f],
     mc_cancel = [1, 0], mc_ctx = Some 1\<rparr>"

text \<open>Two targets of one volume, and the section they share.\<close>

definition two_targets :: node where
  "two_targets = initial_node\<lparr>trace := [Cfg (CfgSet ''csivol0000000000000-s3'' ''type'' ''s3'')],
     mountContext := [(''/t1'', example_mounted ''csivol0000000000000-s3''),
                      (''/t2'', example_mounted ''csivol0000000000000-s3'')]\<rparr>"

lemma unpublish_two_targets:
  "\<exists>s'. run_state (NodeUnpublishVolume (select_env ResultReady) example_cf ''vol'' ''/t1'') two_targets = (Inr (), s')"
  by (simp add: NodeUnpublishVolume_def validateUnpublishVolumeRequest_def example_cf_def Let_def acquire_free
      two_targets_def initial_node_def NewVolumeLocks_def release_and_def run_deferred unpublish_locked_def
      getMountContext_def mount_at_def unmountVolume_def example_mounted_def example_mp_def
      waitForVFSCacheSync_def example_rclone_def run_cancelCtx cleanup_trace forceCleanupMount_def example_os_def
      deleteMountContext_def)

theorem NodeUnpublishVolume_success_witness:
  "mount_at (snd (run_state (NodeUnpublishVolume (select_env ResultReady) example_cf ''vol'' ''/t1'') two_targets)) ''/t1'' = None"
proof -
  obtain s' where run: "run_state (NodeUnpublishVolume (select_env ResultReady) example_cf ''vol'' ''/t1'') two_targets
      = (Inr (), s')" using unpublish_two_targets by blast
  from NodeUnpublishVolume_success [OF _ run] run show ?thesis by (simp add: example_cf_def)
qed



end
