(* ===== verification/Go_Paths.thy ===== *)
theory Go_Paths
  imports Go_Strings
begin

text \<open>
  The lexical path functions of Go's path/filepath on Unix that the code uses. \<open>Clean\<close> drops
  empty and \<open>.\<close> elements and resolves \<open>..\<close> against the element before it; at the root it
  disappears, at the front of a relative path it stays.
\<close>

fun clean_parts :: "bool \<Rightarrow> string list \<Rightarrow> string list \<Rightarrow> string list" where
  "clean_parts rooted [] stack = rev stack"
| "clean_parts rooted (p # ps) stack =
     (if p = '''' \<or> p = ''.'' then clean_parts rooted ps stack
      else if p = ''..'' then
        (case stack of
           [] \<Rightarrow> if rooted then clean_parts rooted ps [] else clean_parts rooted ps [p]
         | t # ts \<Rightarrow> if t = ''..'' then clean_parts rooted ps (p # stack) else clean_parts rooted ps ts)
      else clean_parts rooted ps (p # stack))"

fun join_slash :: "string list \<Rightarrow> string" where
  "join_slash [] = ''''"
| "join_slash [p] = p"
| "join_slash (p # ps) = p @ ''/'' @ join_slash ps"

definition path_Clean :: "string \<Rightarrow> string" where
  "path_Clean path =
     (if path = '''' then ''.''
      else let rooted = (hd path = CHR ''/'');
               parts = clean_parts rooted (split_on (CHR ''/'') path) []
           in if rooted then CHR ''/'' # join_slash parts
              else if parts = [] then ''.'' else join_slash parts)"

definition path_Join :: "string list \<Rightarrow> string" where
  "path_Join elems =
     (case filter (\<lambda>e. e \<noteq> '''') elems of
        [] \<Rightarrow> ''''
      | e # es \<Rightarrow> path_Clean (join_slash (e # es)))"

definition strip_trailing_slashes :: "string \<Rightarrow> string" where
  "strip_trailing_slashes path = rev (dropWhile (\<lambda>c. c = CHR ''/'') (rev path))"

definition path_Base :: "string \<Rightarrow> string" where
  "path_Base path =
     (if path = '''' then ''.''
      else let p = strip_trailing_slashes path
           in if p = '''' then ''/'' else rev (takeWhile (\<lambda>c. c \<noteq> CHR ''/'') (rev p)))"

definition path_Dir :: "string \<Rightarrow> string" where
  "path_Dir path = path_Clean (rev (dropWhile (\<lambda>c. c \<noteq> CHR ''/'') (rev path)))"

lemma path_examples:
  "path_Clean ''/a/b/../c//./d/'' = ''/a/c/d''" "path_Clean ''../a/..'' = ''..''" "path_Clean ''/..'' = ''/''"
  "path_Base ''/a/b/'' = ''b''" "path_Dir ''/a/b'' = ''/a''" "path_Dir ''a'' = ''.''"
  "path_Join [''a'', '''', ''../b'']  = ''b''"
  by code_simp+

section \<open>Clean absolute paths\<close>

text \<open>A path element as it comes out of \<open>Clean\<close>.\<close>

definition path_element :: "string \<Rightarrow> bool" where
  "path_element p \<longleftrightarrow> p \<noteq> '''' \<and> p \<noteq> ''.'' \<and> p \<noteq> ''..'' \<and> CHR ''/'' \<notin> set p"

definition abs_path :: "string list \<Rightarrow> string" where
  "abs_path ps = CHR ''/'' # join_slash ps"

lemma split_join_slash:
  "list_all (\<lambda>p. CHR ''/'' \<notin> set p) ps \<Longrightarrow> ps \<noteq> [] \<Longrightarrow> split_on (CHR ''/'') (join_slash ps) = ps"
proof (induction ps rule: join_slash.induct)
  case (3 p q qs)
  then show ?case using split_on_append [of "CHR ''/''" p "join_slash (q # qs)"] by simp
qed (simp_all add: split_on_no_sep)

lemma clean_parts_elements:
  "list_all path_element ps \<Longrightarrow> clean_parts rooted ps stack = rev stack @ ps"
  by (induction ps arbitrary: stack) (auto simp: path_element_def)

lemma clean_abs_path:
  assumes "list_all path_element ps" and "ps \<noteq> []"
  shows "path_Clean (abs_path ps) = abs_path ps" and "split_on (CHR ''/'') (abs_path ps) = '''' # ps"
proof -
  have "list_all (\<lambda>p. CHR ''/'' \<notin> set p) ps" using assms(1) by (simp add: list_all_iff path_element_def)
  then have parts: "split_on (CHR ''/'') (abs_path ps) = '''' # ps"
    using assms(2) by (simp add: abs_path_def split_join_slash)
  then show "split_on (CHR ''/'') (abs_path ps) = '''' # ps" .
  have "clean_parts True ('''' # ps) [] = ps" using clean_parts_elements [OF assms(1), of True "[]"] by simp
  with parts show "path_Clean (abs_path ps) = abs_path ps"
    by (simp add: path_Clean_def Let_def abs_path_def)
qed

lemma join_slash_append: "ps \<noteq> [] \<Longrightarrow> qs \<noteq> [] \<Longrightarrow> join_slash (ps @ qs) = join_slash ps @ ''/'' @ join_slash qs"
  by (induction ps rule: join_slash.induct) (auto simp: neq_Nil_conv)

lemma join_abs_path:
  assumes "list_all path_element ps" and "list_all path_element qs" and "ps \<noteq> []" and "qs \<noteq> []"
  shows "path_Join (abs_path ps # qs) = abs_path (ps @ qs)"
proof -
  have "filter (\<lambda>e. e \<noteq> '''') qs = qs" using assms(2) by (auto simp: list_all_iff path_element_def intro!: filter_True)
  then have "path_Join (abs_path ps # qs) = path_Clean (join_slash (abs_path ps # qs))"
    by (simp add: path_Join_def abs_path_def)
  also have "join_slash (abs_path ps # qs) = abs_path (ps @ qs)"
    using assms(3,4) join_slash_append [of ps qs] by (cases qs) (simp_all add: abs_path_def)
  also have "path_Clean (abs_path (ps @ qs)) = abs_path (ps @ qs)"
    using assms by (intro clean_abs_path) simp_all
  finally show ?thesis .
qed

end
