(* ===== verification/Node_Stage.thy ===== *)
theory Node_Stage
  imports Node_Publish Go_Paths
begin

text \<open>
  Staging (pkg/rclone/nodeserver_stage.go and the first half of pkg/rclone/staging.go):
  \<open>NodeStageVolume\<close>, \<open>NodeUnstageVolume\<close>, publishing from a staged mount, and the remount of
  persisted states after a restart (pkg/rclone/nodeserver.go). The two test hooks of the code
  (\<open>mountFilesystem\<close>, \<open>stageVolumeHealthCheck\<close>) are nil, as they are outside of tests.
\<close>

section \<open>Staging paths\<close>

definition DefaultDriverName :: string where
  "DefaultDriverName = ''rclone.csi.veloxpack.io''"

definition getDefaultStagingPath :: "node_config \<Rightarrow> string \<Rightarrow> string" where
  "getDefaultStagingPath cf volumeID =
     path_Join [''/var/lib/kubelet/plugins/kubernetes.io/csi'',
       (if cf_name cf \<noteq> '''' then cf_name cf else DefaultDriverName), ''pv'', volumeID, ''globalmount'']"

definition isLikelyStagingPath :: "string \<Rightarrow> bool" where
  "isLikelyStagingPath path \<longleftrightarrow> path_Base path = ''globalmount''"

definition findStagingMountState :: "env \<Rightarrow> node_config \<Rightarrow> string \<Rightarrow> (node, mount_state option) state" where
  "findStagingMountState env cf volumeID =
     (case cf_stateManager cf of
        None \<Rightarrow> State_Monad.return None
      | Some sm \<Rightarrow> do {
          r \<leftarrow> LoadState env sm;
          State_Monad.return (case r of
             Inl _ \<Rightarrow> None
           | Inr states \<Rightarrow>
               find (\<lambda>st. ms_volumeID st = volumeID
                    \<and> (isLikelyStagingPath (ms_stagingPath st) \<or> isLikelyStagingPath (ms_targetPath st))) states) })"

definition getStagingPathForPublish :: "env \<Rightarrow> node_config \<Rightarrow> string \<Rightarrow> (node, string) state" where
  "getStagingPathForPublish env cf volumeID = do {
     sv \<leftarrow> getStagedVolume volumeID;
     case sv of
       Some v \<Rightarrow> State_Monad.return (sv_stagingPath v)
     | None \<Rightarrow> do {
         st \<leftarrow> findStagingMountState env cf volumeID;
         State_Monad.return (case st of
            Some m \<Rightarrow> if ms_stagingPath m \<noteq> '''' then ms_stagingPath m else ms_targetPath m
          | None \<Rightarrow> getDefaultStagingPath cf volumeID) } }"

section \<open>NodeStageVolume\<close>

record stage_req =
  sq_volumeId :: string
  sq_stagingPath :: string
  sq_capability :: "volume_capability option"
  sq_secrets :: smap
  sq_volumeContext :: smap

definition validateStageVolumeRequest :: "stage_req \<Rightarrow> gerr option" where
  "validateStageVolumeRequest req =
     (if sq_volumeId req = '''' then Some (Status InvalidArgument ''Volume ID missing in request'' [])
      else if sq_stagingPath req = '''' then Some (Status InvalidArgument ''Staging target path not provided'' [])
      else if sq_capability req = None
      then Some (Status InvalidArgument ''Volume capability missing in request'' [])
      else None)"

definition validateUnstageVolumeRequest :: "string \<Rightarrow> string \<Rightarrow> gerr option" where
  "validateUnstageVolumeRequest volumeID stagingPath =
     (if volumeID = '''' then Some (Status InvalidArgument ''Volume ID missing in request'' [])
      else if stagingPath = '''' then Some (Status InvalidArgument ''Staging target path not provided'' [])
      else None)"

definition stageMountHealthy :: "env \<Rightarrow> string \<Rightarrow> (node, bool \<times> reason) state" where
  "stageMountHealthy env stagingPath = isMountHealthy env stagingPath"

definition cleanupUnhealthyStagingMount :: "env \<Rightarrow> string \<Rightarrow> (node, gerr + unit) state" where
  "cleanupUnhealthyStagingMount env stagingPath = do {
     mc \<leftarrow> getMountContext stagingPath;
     (case mc of
        None \<Rightarrow> State_Monad.return ()
      | Some c \<Rightarrow> do { unmountVolume env (Some c) stagingPath; deleteMountContext stagingPath });
     clean_and_recreate env stagingPath
       (\<lambda>e. Status Internal ''failed to cleanup unhealthy staging mount: %v'' [E e])
       (\<lambda>e. Status Internal ''failed to recreate staging directory after cleanup: %v'' [E (OsError e)]) }"

definition mountRcloneFilesystem ::
    "env \<Rightarrow> string \<Rightarrow> string \<Rightarrow> string list \<Rightarrow> smap \<Rightarrow> (node, gerr + mount_point \<times> nat) state" where
  "mountRcloneFilesystem env fsPath target opts params = createAndMountFilesystem env fsPath target opts params"

text \<open>
  A volume that is in the cache: \<open>Inr True\<close> when it is staged and healthy, \<open>Inr False\<close> when the
  staging goes on.
\<close>

definition stage_cached :: "env \<Rightarrow> string \<Rightarrow> string \<Rightarrow> (node, gerr + bool) state" where
  "stage_cached env volumeID stagingPath = do {
     sv \<leftarrow> getStagedVolume volumeID;
     case sv of
       None \<Rightarrow> ok False
     | Some v \<Rightarrow>
         if sv_stagingPath v \<noteq> stagingPath
         then fail (Status FailedPrecondition ''volume %s already staged at %s'' [S volumeID, S (sv_stagingPath v)])
         else do {
           (healthy, msg) \<leftarrow> stageMountHealthy env stagingPath;
           if healthy then ok True
           else do {
             deleteStagedVolume volumeID;
             c \<leftarrow> cleanupUnhealthyStagingMount env stagingPath;
             case c of Inl e \<Rightarrow> fail e | Inr _ \<Rightarrow> ok False } } }"

text \<open>
  The staging directory: a healthy mount that is there already is taken into the cache
  (\<open>Inr True\<close>), a stale one is cleaned up.
\<close>

definition stage_target :: "env \<Rightarrow> string \<Rightarrow> string \<Rightarrow> (node, gerr + bool) state" where
  "stage_target env volumeID stagingPath = do {
     r \<leftarrow> prepareTargetDirectory env stagingPath;
     case r of
       Inr _ \<Rightarrow> ok False
     | Inl e \<Rightarrow>
         if \<not> errors_Is_healthy e then fail e
         else do {
           (healthy, msg) \<leftarrow> stageMountHealthy env stagingPath;
           if healthy then do {
             mc \<leftarrow> getMountContext stagingPath;
             setStagedVolume volumeID \<lparr>sv_volumeID = volumeID, sv_stagingPath = stagingPath, sv_mountCtx = mc,
                                      sv_readOnly = False\<rparr>;
             ok True }
           else do {
             cerr \<leftarrow> forceCleanupMount env stagingPath;
             case cerr of
               Some ce \<Rightarrow> fail (Status Internal ''failed to cleanup stale staging mount before remount: %v'' [E ce])
             | None \<Rightarrow> do {
                 deleteMountContext stagingPath;
                 derr \<leftarrow> mkdir_all env stagingPath;
                 case derr of
                   Some d \<Rightarrow> fail (Status Internal ''failed to recreate staging directory after cleanup: %v'' [E (OsError d)])
                 | None \<Rightarrow> ok False } } } }"

definition stage_params_of :: "stage_req \<Rightarrow> gerr + publish_params" where
  "stage_params_of req =
     extractPublishParams (applyVolumeMountGroup (sq_capability req)
       (mergeVolumeParameters
          \<lparr>volumeId = sq_volumeId req, targetPath = '''', stagingTargetPath = '''',
           volumeCapability = sq_capability req, readonly = False, secrets = sq_secrets req,
           volumeContext = sq_volumeContext req\<rparr>))"

definition staged_state :: "stage_req \<Rightarrow> publish_params \<Rightarrow> string list \<Rightarrow> int \<Rightarrow> mount_state" where
  "staged_state req orig opts now =
     \<lparr>ms_volumeID = sq_volumeId req, ms_stagingPath = sq_stagingPath req, ms_targetPath = sq_stagingPath req,
      ms_timestamp = Some now, ms_configData = pv_configData orig, ms_remoteName = pv_remoteName orig,
      ms_remotePath = pv_remotePath orig, ms_remoteType = pv_remoteType orig,
      ms_mountParams = mountParamsForState orig, ms_mountOptions = opts, ms_readOnly = False\<rparr>"

definition save_staged ::
    "env \<Rightarrow> node_config \<Rightarrow> stage_req \<Rightarrow> publish_params \<Rightarrow> string list \<Rightarrow> (node, unit) state" where
  "save_staged env cf req orig opts =
     (case cf_stateManager cf of
        None \<Rightarrow> State_Monad.return ()
      | Some sm \<Rightarrow> do {
          now \<leftarrow> call Now (time_now env);
          SaveState env sm (staged_state req orig opts now);
          State_Monad.return () })"

text \<open>
  Mount an isolated configuration at a path: load it, mount, and remove the loaded sections
  when the mount fails. Shared by staging and remounting, which differ in how they wrap the
  two errors.
\<close>

definition load_and_mount ::
    "env \<Rightarrow> publish_params \<Rightarrow> string \<Rightarrow> string list \<Rightarrow> (gerr \<Rightarrow> gerr) \<Rightarrow> (gerr \<Rightarrow> gerr)
       \<Rightarrow> (node, gerr + mount_context) state" where
  "load_and_mount env pvp path opts load_failed mount_failed = do {
     l \<leftarrow> loadRcloneConfig env pvp;
     case l of
       Inl e \<Rightarrow> fail (load_failed e)
     | Inr remotes \<Rightarrow> do {
         res \<leftarrow> mountRcloneFilesystem env (buildFsPath (pv_remoteName pvp) (pv_remotePath pvp)) path opts (pv_params pvp);
         case res of
           Inl e \<Rightarrow> do { cleanupConfigRemotes remotes; fail (mount_failed e) }
         | Inr (mp, mountCtx) \<Rightarrow>
             ok \<lparr>mc_mountPoint = Some mp, mc_remoteName = pv_remoteName pvp, mc_remotes = remotes,
                 mc_cancel = [mountCtx], mc_ctx = Some mountCtx\<rparr> } }"

definition stage_mount :: "env \<Rightarrow> node_config \<Rightarrow> stage_req \<Rightarrow> (node, gerr + unit) state" where
  "stage_mount env cf req =
     (let opts = publishMountOptions (sq_capability req) False in
      case stage_params_of req of
        Inl e \<Rightarrow> fail e
      | Inr pvp0 \<Rightarrow>
          (case generateConfigData pvp0 of
             Inl e \<Rightarrow> fail e
           | Inr orig \<Rightarrow>
               (case prepareIsolatedConfig (lib_of env) (sq_volumeId req) orig of
                  Inl e \<Rightarrow> fail e
                | Inr pvp \<Rightarrow> do {
                    m \<leftarrow> load_and_mount env pvp (sq_stagingPath req) opts id id;
                    case m of
                      Inl e \<Rightarrow> fail e
                    | Inr mc \<Rightarrow> do {
                        setMountContext (sq_stagingPath req) mc;
                        setStagedVolume (sq_volumeId req)
                          \<lparr>sv_volumeID = sq_volumeId req, sv_stagingPath = sq_stagingPath req, sv_mountCtx = Some mc,
                           sv_readOnly = False\<rparr>;
                        save_staged env cf req orig opts;
                        ok () } })))"

text \<open>The volume is not in the cache, or no longer: look at the directory, then mount.\<close>

definition stage_uncached :: "env \<Rightarrow> node_config \<Rightarrow> stage_req \<Rightarrow> (node, gerr + unit) state" where
  "stage_uncached env cf req = do {
     t \<leftarrow> stage_target env (sq_volumeId req) (sq_stagingPath req);
     case t of
       Inl e \<Rightarrow> fail e
     | Inr rebuilt \<Rightarrow> if rebuilt then ok () else stage_mount env cf req }"

definition stageVolume :: "env \<Rightarrow> node_config \<Rightarrow> stage_req \<Rightarrow> (node, gerr + unit) state" where
  "stageVolume env cf req = do {
     c \<leftarrow> stage_cached env (sq_volumeId req) (sq_stagingPath req);
     case c of
       Inl e \<Rightarrow> fail e
     | Inr staged \<Rightarrow> if staged then ok () else stage_uncached env cf req }"

definition with_lock :: "env \<Rightarrow> string \<Rightarrow> string \<Rightarrow> (node, gerr + 'a) state \<Rightarrow> (node, gerr + 'a) state" where
  "with_lock env key volumeID body = do {
     a \<leftarrow> acquireVolumeLock env key volumeID;
     case a of Inl e \<Rightarrow> fail e | Inr _ \<Rightarrow> release_and key body }"

definition NodeStageVolume :: "env \<Rightarrow> node_config \<Rightarrow> stage_req \<Rightarrow> (node, gerr + unit) state" where
  "NodeStageVolume env cf req =
     (if \<not> cf_staging cf then fail (Status Unimplemented '''' [])
      else case validateStageVolumeRequest req of
             Some e \<Rightarrow> fail e
           | None \<Rightarrow> with_lock env (stageLockKey (sq_volumeId req)) (sq_volumeId req) (stageVolume env cf req))"

section \<open>NodeUnstageVolume\<close>

definition unstage_context :: "string \<Rightarrow> string \<Rightarrow> (node, gerr + mount_context option) state" where
  "unstage_context volumeID stagingPath = do {
     mc \<leftarrow> getMountContext stagingPath;
     case mc of
       Some c \<Rightarrow> ok (Some c)
     | None \<Rightarrow> do {
         sv \<leftarrow> getStagedVolume volumeID;
         case sv of
           None \<Rightarrow> ok None
         | Some v \<Rightarrow>
             if sv_stagingPath v \<noteq> stagingPath
             then fail (Status FailedPrecondition ''volume %s already staged at %s'' [S volumeID, S (sv_stagingPath v)])
             else ok (sv_mountCtx v) } }"

definition unstage_locked :: "env \<Rightarrow> node_config \<Rightarrow> string \<Rightarrow> string \<Rightarrow> (node, gerr + unit) state" where
  "unstage_locked env cf volumeID stagingPath = do {
     c \<leftarrow> unstage_context volumeID stagingPath;
     case c of
       Inl e \<Rightarrow> fail e
     | Inr mc \<Rightarrow> do {
         r \<leftarrow> unmountVolume env mc stagingPath;
         case r of
           Some e \<Rightarrow> fail (Status Internal ''failed to unmount staging target %q: %v'' [S stagingPath, E e])
         | None \<Rightarrow> do {
             deleteMountContext stagingPath;
             deleteStagedVolume volumeID;
             (case cf_stateManager cf of
                None \<Rightarrow> State_Monad.return ()
              | Some sm \<Rightarrow> do { DeleteState env sm volumeID stagingPath; State_Monad.return () });
             ok () } } }"

definition NodeUnstageVolume :: "env \<Rightarrow> node_config \<Rightarrow> string \<Rightarrow> string \<Rightarrow> (node, gerr + unit) state" where
  "NodeUnstageVolume env cf volumeID stagingPath =
     (if \<not> cf_staging cf then fail (Status Unimplemented '''' [])
      else case validateUnstageVolumeRequest volumeID stagingPath of
             Some e \<Rightarrow> fail e
           | None \<Rightarrow> with_lock env (stageLockKey volumeID) volumeID (unstage_locked env cf volumeID stagingPath))"

section \<open>Publishing from a staged mount\<close>

definition rebuildStagedVolumeFromMount ::
    "env \<Rightarrow> publish_req \<Rightarrow> string \<Rightarrow> (node, gerr + unit) state" where
  "rebuildStagedVolumeFromMount env req stagingPath = do {
     (healthy, msg) \<leftarrow> stageMountHealthy env stagingPath;
     if \<not> healthy
     then fail (Status FailedPrecondition ''staging mount %s is not healthy: %s''
                  [S stagingPath, E (case msg of None \<Rightarrow> Errorf '''' [] | Some (f, xs) \<Rightarrow> Errorf f xs)])
     else do {
       mc \<leftarrow> getMountContext stagingPath;
       setStagedVolume (volumeId req)
         \<lparr>sv_volumeID = volumeId req, sv_stagingPath = stagingPath, sv_mountCtx = mc, sv_readOnly = readonly req\<rparr>;
       ok () } }"

definition nodeStageRequestFromPublish :: "publish_req \<Rightarrow> string \<Rightarrow> stage_req" where
  "nodeStageRequestFromPublish req stagingPath =
     \<lparr>sq_volumeId = volumeId req, sq_stagingPath = stagingPath, sq_capability = volumeCapability req,
      sq_secrets = secrets req, sq_volumeContext = volumeContext req\<rparr>"

definition rebuildOrRestage :: "env \<Rightarrow> node_config \<Rightarrow> publish_req \<Rightarrow> string \<Rightarrow> (node, gerr + unit) state" where
  "rebuildOrRestage env cf req stagingPath = do {
     (healthy, msg) \<leftarrow> stageMountHealthy env stagingPath;
     if healthy then rebuildStagedVolumeFromMount env req stagingPath
     else do {
       c \<leftarrow> cleanupUnhealthyStagingMount env stagingPath;
       case c of
         Inl e \<Rightarrow> fail (Status Internal ''failed to cleanup staging mount before restage: %v'' [E e])
       | Inr _ \<Rightarrow> stageVolume env cf (nodeStageRequestFromPublish req stagingPath) } }"

definition bindPublish :: "env \<Rightarrow> string \<Rightarrow> string \<Rightarrow> bool \<Rightarrow> (node, gerr + unit) state" where
  "bindPublish env stagingPath target ro = do {
     let opts = (if ro then [''bind'', ''ro''] else [''bind'']);
     r \<leftarrow> call (Os (BindMount stagingPath target opts)) (\<lambda>h. bindMount (os_of env) h stagingPath target opts);
     case r of
       Some e \<Rightarrow> fail (Status Internal ''failed to bind mount staging path: %v'' [E e])
     | None \<Rightarrow> ok () }"

text \<open>The staged mount behind a publish: taken from the cache when it is healthy, else rebuilt.\<close>

definition ensure_staged :: "env \<Rightarrow> node_config \<Rightarrow> publish_req \<Rightarrow> string \<Rightarrow> (node, gerr + unit) state" where
  "ensure_staged env cf req stagingPath = do {
     (healthy, msg) \<leftarrow> stageMountHealthy env stagingPath;
     sv \<leftarrow> getStagedVolume (volumeId req);
     if sv = None \<or> \<not> healthy then do {
       (if \<not> healthy then deleteStagedVolume (volumeId req) else State_Monad.return ());
       with_lock env (stageLockKey (volumeId req)) (volumeId req) (rebuildOrRestage env cf req stagingPath) }
     else ok () }"

definition publish_staged_locked :: "env \<Rightarrow> node_config \<Rightarrow> publish_req \<Rightarrow> (node, gerr + unit) state" where
  "publish_staged_locked env cf req = do {
     stagingPath \<leftarrow> (if stagingTargetPath req = '''' then getStagingPathForPublish env cf (volumeId req)
                    else State_Monad.return (stagingTargetPath req));
     e \<leftarrow> ensure_staged env cf req stagingPath;
     case e of
       Inl err \<Rightarrow> fail err
     | Inr _ \<Rightarrow> do {
         r \<leftarrow> prepareTargetDirectory env (targetPath req);
         case r of
           Inl err \<Rightarrow> if errors_Is_healthy err then ok () else fail err
         | Inr _ \<Rightarrow> bindPublish env stagingPath (targetPath req) (readonly req) } }"

definition nodePublishVolumeStaged :: "env \<Rightarrow> node_config \<Rightarrow> publish_req \<Rightarrow> (node, gerr + unit) state" where
  "nodePublishVolumeStaged env cf req =
     (case validatePublishVolumeRequest req of
        Some e \<Rightarrow> fail e
      | None \<Rightarrow> with_lock env (publishVolumeLockKey (cf_staging cf) (volumeId req) (targetPath req)) (volumeId req)
                  (publish_staged_locked env cf req))"

definition NodePublishVolume :: "env \<Rightarrow> node_config \<Rightarrow> publish_req \<Rightarrow> (node, gerr + unit) state" where
  "NodePublishVolume env cf req =
     (if \<not> cf_staging cf then nodePublishVolumeDirect env cf req else nodePublishVolumeStaged env cf req)"

section \<open>The small calls\<close>

definition NodeGetInfo :: "node_config \<Rightarrow> string" where
  "NodeGetInfo cf = cf_nodeID cf"

definition NodeExpandVolume :: "gerr + unit" where
  "NodeExpandVolume = Inl (Status Unimplemented '''' [])"

definition NodeGetVolumeStats ::
    "env \<Rightarrow> node_config \<Rightarrow> string \<Rightarrow> string \<Rightarrow> (node, gerr + stats_response) state" where
  "NodeGetVolumeStats env cf volumeID volumePath =
     volume_stats env
       (if cf_staging cf \<and> volumeID \<noteq> '''' then getStagingPathForPublish env cf volumeID
        else State_Monad.return volumePath) volumePath"

section \<open>Remounting after a restart\<close>

definition rebuildStagedVolumeAfterRemount :: "mount_state \<Rightarrow> string \<Rightarrow> (node, unit) state" where
  "rebuildStagedVolumeAfterRemount st stagingPath = do {
     mc \<leftarrow> getMountContext stagingPath;
     setStagedVolume (ms_volumeID st)
       \<lparr>sv_volumeID = ms_volumeID st, sv_stagingPath = stagingPath, sv_mountCtx = mc, sv_readOnly = False\<rparr> }"

text \<open>The parameters of a remount: the prefix override is taken out of the saved parameters.\<close>

definition remount_params :: "mount_state \<Rightarrow> publish_params" where
  "remount_params st =
     \<lparr>pv_remoteName = ms_remoteName st, pv_remotePath = ms_remotePath st, pv_configData = ms_configData st,
      pv_remoteType = ms_remoteType st, pv_remotePrefix = mget (ms_mountParams st) paramRemotePrefix,
      pv_params = AList.delete paramRemotePrefix (ms_mountParams st)\<rparr>"

text \<open>
  The path of a remount: \<open>Inr True\<close> when nothing has to be mounted.
\<close>

definition remount_target :: "env \<Rightarrow> node_config \<Rightarrow> mount_state \<Rightarrow> string \<Rightarrow> (node, gerr + bool) state" where
  "remount_target env cf st mountPath = do {
     r \<leftarrow> prepareTargetDirectory env mountPath;
     case r of
       Inr _ \<Rightarrow> ok False
     | Inl e \<Rightarrow>
         if \<not> errors_Is_healthy e then fail (Wrapf ''prepare target directory: %w'' [] e)
         else if cf_staging cf \<and> isLikelyStagingPath mountPath then do {
           rebuildStagedVolumeAfterRemount st mountPath; ok True }
         else do {
           mc \<leftarrow> getMountContext mountPath;
           if mc \<noteq> None then ok True
           else do {
             c \<leftarrow> clean_and_recreate env mountPath (Wrapf ''cleanup stale mount: %w'' [])
                    (\<lambda>e. Wrapf ''recreate target directory: %w'' [] (OsError e));
             case c of Inl e' \<Rightarrow> fail e' | Inr _ \<Rightarrow> ok False } } }"

text \<open>What is still mounted at the path is taken down; only a failing \<open>MkdirAll\<close> is an error.\<close>

definition remount_clear :: "env \<Rightarrow> string \<Rightarrow> (node, gerr + unit) state" where
  "remount_clear env mountPath = do {
     n \<leftarrow> call (Os (IsLikelyNotMountPoint mountPath)) (\<lambda>h. isLikelyNotMountPoint (os_of env) h mountPath);
     if n = Inr False then do {
       mc \<leftarrow> getMountContext mountPath;
       (case mc of
          Some c \<Rightarrow> do { unmountVolume env (Some c) mountPath; deleteMountContext mountPath }
        | None \<Rightarrow> do { forceCleanupMount env mountPath; State_Monad.return () });
       derr \<leftarrow> mkdir_all env mountPath;
       case derr of Some d \<Rightarrow> fail (Wrapf ''recreate target directory: %w'' [] (OsError d)) | None \<Rightarrow> ok () }
     else ok () }"

definition remount_finish :: "env \<Rightarrow> node_config \<Rightarrow> mount_state \<Rightarrow> string \<Rightarrow> mount_context \<Rightarrow> (node, unit) state" where
  "remount_finish env cf st mountPath mc = do {
     setMountContext mountPath mc;
     (case cf_stateManager cf of
        None \<Rightarrow> State_Monad.return ()
      | Some sm \<Rightarrow> do {
          now \<leftarrow> call Now (time_now env);
          SaveState env sm (st\<lparr>ms_timestamp := Some now\<rparr>);
          State_Monad.return () });
     if cf_staging cf \<and> isLikelyStagingPath mountPath
     then setStagedVolume (ms_volumeID st)
            \<lparr>sv_volumeID = ms_volumeID st, sv_stagingPath = mountPath, sv_mountCtx = Some mc, sv_readOnly = False\<rparr>
     else State_Monad.return () }"

definition RemountState :: "env \<Rightarrow> node_config \<Rightarrow> mount_state \<Rightarrow> (node, gerr + unit) state" where
  "RemountState env cf st =
     (case Validate (Some st) of
        Some e \<Rightarrow> fail (Wrapf ''invalid mount state: %w'' [] e)
      | None \<Rightarrow> do {
          let mountPath = (if ms_stagingPath st = '''' then ms_targetPath st else ms_stagingPath st);
          t \<leftarrow> remount_target env cf st mountPath;
          case t of
            Inl e \<Rightarrow> fail e
          | Inr there \<Rightarrow>
              if there then ok ()
              else do {
                c \<leftarrow> remount_clear env mountPath;
                case c of
                  Inl e \<Rightarrow> fail e
                | Inr _ \<Rightarrow>
                    (case prepareIsolatedConfig (lib_of env) (ms_volumeID st) (remount_params st) of
                       Inl e \<Rightarrow> fail (Wrapf ''failed to isolate config: %w'' [] e)
                     | Inr pvp \<Rightarrow> do {
                         m \<leftarrow> load_and_mount env pvp mountPath (ms_mountOptions st)
                                (Wrapf ''failed to load rclone config: %w'' [])
                                (Wrapf ''failed to mount filesystem: %w'' []);
                         case m of
                           Inl e \<Rightarrow> fail e
                         | Inr mc \<Rightarrow> do {
                             remount_finish env cf st mountPath (mc\<lparr>mc_ctx := None\<rparr>);
                             ok () } }) } })"

fun remount_each :: "env \<Rightarrow> node_config \<Rightarrow> mount_state list \<Rightarrow> nat \<Rightarrow> (node, nat) state" where
  "remount_each env cf [] errorCount = State_Monad.return errorCount"
| "remount_each env cf (st # sts) errorCount = do {
     r \<leftarrow> RemountState env cf st;
     remount_each env cf sts (case r of Inl _ \<Rightarrow> Suc errorCount | Inr _ \<Rightarrow> errorCount) }"

definition RemountAllStates :: "env \<Rightarrow> node_config \<Rightarrow> (node, gerr + unit) state" where
  "RemountAllStates env cf =
     (case cf_stateManager cf of
        None \<Rightarrow> ok ()
      | Some sm \<Rightarrow> do {
          l \<leftarrow> LoadState env sm;
          case l of
            Inl e \<Rightarrow> fail (Wrapf ''failed to load mount states: %w'' [] e)
          | Inr states \<Rightarrow>
              if states = [] then ok ()
              else do {
                errorCount \<leftarrow> remount_each env cf states 0;
                if 0 < errorCount
                then fail (Errorf ''failed to remount %d of %d volumes'' [N (int errorCount), N (int (length states))])
                else ok () } })"

section \<open>Frame\<close>

lemma keeps_staging [frame]:
  assumes "off_locks p"
  shows "keeps p (findStagingMountState env cf v)" and "keeps p (getStagingPathForPublish env cf v)"
    and "keeps p (stageMountHealthy env path)" and "keeps p (bindPublish env path t ro)"
    and "keeps p (mountRcloneFilesystem env f t os ps)" and "keeps p (load_and_mount env pvp path os g h)"
    and "keeps p (save_staged env cf req orig os)"
    and "keeps p (volume_stats env (getStagingPathForPublish env cf v) path)"
    and "keeps p (unstage_context v path)"
proof -
  note rules = frame off_locks_world [OF assms] assms
  show 1: "keeps p (findStagingMountState env cf v)" by (auto simp: findStagingMountState_def intro!: rules)
  show 2: "keeps p (getStagingPathForPublish env cf v)"
    by (auto simp: getStagingPathForPublish_def intro!: rules 1)
  show "keeps p (stageMountHealthy env path)" by (auto simp: stageMountHealthy_def intro!: rules)
  show "keeps p (bindPublish env path t ro)" by (auto simp: bindPublish_def Let_def intro!: rules)
  show 3: "keeps p (mountRcloneFilesystem env f t os ps)" for f t os ps
    by (auto simp: mountRcloneFilesystem_def intro!: rules)
  show "keeps p (load_and_mount env pvp path os g h)" by (auto simp: load_and_mount_def intro!: rules 3)
  show "keeps p (save_staged env cf req orig os)" by (auto simp: save_staged_def intro!: rules)
  show "keeps p (volume_stats env (getStagingPathForPublish env cf v) path)"
    by (auto simp: volume_stats_def intro!: rules 2)
  show "keeps p (unstage_context v path)" by (auto simp: unstage_context_def intro!: rules)
qed

section \<open>Saved parameters\<close>

lemma delete_fresh: "k \<notin> set (keys m) \<Longrightarrow> AList.delete k m = m"
  by simp

lemma delete_update_fresh: "k \<notin> set (keys m) \<Longrightarrow> AList.delete k (AList.update k v m) = m"
  by (simp add: delete_update_same)

lemma prefix_not_normal: "normalizeRcloneFlag k \<noteq> paramRemotePrefix"
proof
  assume "normalizeRcloneFlag k = paramRemotePrefix"
  then have "toLower paramRemotePrefix = paramRemotePrefix" using normalize_lower [of k] by simp
  moreover have "toLower paramRemotePrefix \<noteq> paramRemotePrefix" by code_simp
  ultimately show False by contradiction
qed

lemma prefix_not_copied:
  assumes "extractPublishParams params = Inr pvp"
  shows "paramRemotePrefix \<notin> set (keys (pv_params pvp))"
proof
  assume "paramRemotePrefix \<in> set (keys (pv_params pvp))"
  then have "paramRemotePrefix \<in> dom (map_of (pv_params pvp))" unfolding set_keys_conv .
  then show False
    unfolding copy_params_keys [OF extractPublishParams_Inr(1) [OF assms]]
    using prefix_not_normal by (simp add: image_iff) metis
qed

lemma generateConfigData_keeps:
  "generateConfigData pvp = Inr orig \<Longrightarrow> pv_params orig = pv_params pvp"
  by (auto simp: generateConfigData_def Let_def split: if_splits)

lemma remount_params_saved:
  assumes "paramRemotePrefix \<notin> set (keys (pv_params orig))"
    and "ms_mountParams st = mountParamsForState orig" and "ms_configData st = pv_configData orig"
    and "ms_remoteName st = pv_remoteName orig" and "ms_remotePath st = pv_remotePath orig"
    and "ms_remoteType st = pv_remoteType orig"
  shows "remount_params st = orig"
proof -
  have "map_of (pv_params orig) paramRemotePrefix = None"
    using assms(1) by (simp add: map_of_eq_None_iff)
  then show ?thesis
    using assms by (cases orig) (auto simp: remount_params_def mountParamsForState_def delete_update_fresh delete_fresh)
qed

section \<open>Outcome of staging\<close>

lemma off_sections [frame]: "off_locks (\<lambda>s. (orphans s, stagedVolumes s))"
  by (simp add: off_locks_def off_world_def)

lemma keeps_orphans_cleanup [frame]: "keeps orphans (cleanupUnhealthyStagingMount env p)"
  by (auto simp: cleanupUnhealthyStagingMount_def intro!: frame)

lemma keeps_staged_cleanup [frame]: "keeps staged_at (cleanupUnhealthyStagingMount env p)"
  by (auto simp: cleanupUnhealthyStagingMount_def intro!: frame)

text \<open>Another volume's entry is never touched, and a staged volume is at the path asked for.\<close>

definition staged_outcome :: "string \<Rightarrow> string \<Rightarrow> node \<Rightarrow> gerr + unit \<Rightarrow> node \<Rightarrow> bool" where
  "staged_outcome v path s r s' \<longleftrightarrow>
     (staged_at s')(v := None) = (staged_at s)(v := None)
     \<and> (r = Inr () \<longrightarrow> (\<exists>sv. staged_at s' v = Some sv \<and> sv_stagingPath sv = path))"

lemma stage_cached_outcome:
  "wp (stage_cached env v path) (\<lambda>r s'. (staged_at s')(v := None) = (staged_at s)(v := None)
     \<and> (r = Inr True \<longrightarrow> (\<exists>sv. staged_at s' v = Some sv \<and> sv_stagingPath sv = path))
     \<and> (r = Inr False \<longrightarrow> staged_at s' v = None)) s"
proof -
  have healthy: "wp (stageMountHealthy env p) (\<lambda>_ s'. staged_at s' = staged_at s) s" for p
    by (rule wp_keeps) (auto intro!: frame)
  have clean: "wp (cleanupUnhealthyStagingMount env p) (\<lambda>_ s'. staged_at s' = staged_at s1) s1" for p s1
    by (rule wp_keeps) (auto intro!: frame)
  show ?thesis
    by (auto simp: stage_cached_def wp split: option.split sum.split
        intro!: wp_mono [OF healthy] wp_mono [OF clean])
qed

lemma stage_target_outcome:
  "wp (stage_target env v path) (\<lambda>r s'. (staged_at s')(v := None) = (staged_at s)(v := None)
     \<and> (r = Inr True \<longrightarrow> (\<exists>sv. staged_at s' v = Some sv \<and> sv_stagingPath sv = path))) s"
proof -
  have prep: "wp (prepareTargetDirectory env path) (\<lambda>_ s'. staged_at s' = staged_at s) s"
    by (rule wp_keeps) (auto intro!: frame)
  have healthy: "wp (stageMountHealthy env path) (\<lambda>_ s'. staged_at s' = staged_at s1) s1" for s1
    by (rule wp_keeps) (auto intro!: frame)
  show ?thesis
    by (auto simp: stage_target_def mkdir_all_def wp split: option.split sum.split
        intro!: wp_mono [OF prep] wp_mono [OF healthy])
qed

lemma stage_mount_outcome: "wp (stage_mount env cf req) (staged_outcome (sq_volumeId req) (sq_stagingPath req) s) s"
proof -
  have mount: "wp (load_and_mount env pvp path opts g h) (\<lambda>_ s'. staged_at s' = staged_at s) s" for pvp path opts g h
    by (rule wp_keeps) (auto intro!: frame)
  have save: "wp (save_staged env cf req orig opts) (\<lambda>_ s'. staged_at s' = staged_at s1) s1" for orig opts s1
    by (rule wp_keeps) (auto intro!: frame)
  show ?thesis
    by (auto simp: stage_mount_def Let_def wp staged_outcome_def split: sum.split
        intro!: wp_mono [OF mount] wp_mono [OF save])
qed

lemma stage_uncached_outcome: "wp (stage_uncached env cf req) (staged_outcome (sq_volumeId req) (sq_stagingPath req) s) s"
proof -
  let ?v = "sq_volumeId req" and ?p = "sq_stagingPath req"
  have mount: "wp (stage_mount env cf req) (staged_outcome ?v ?p s) s1"
    if "(staged_at s1)(?v := None) = (staged_at s)(?v := None)" for s1
    by (rule wp_mono [OF stage_mount_outcome]) (use that in \<open>simp add: staged_outcome_def\<close>)
  show ?thesis
    unfolding stage_uncached_def wp_bind
    by (rule wp_mono [OF stage_target_outcome])
      (auto simp: wp staged_outcome_def [of _ _ _ "Inl _"] staged_outcome_def [of _ _ _ "Inr ()"]
          split: sum.split intro!: mount)
qed

lemma stageVolume_outcome: "wp (stageVolume env cf req) (staged_outcome (sq_volumeId req) (sq_stagingPath req) s) s"
proof -
  let ?v = "sq_volumeId req" and ?p = "sq_stagingPath req"
  have uncached: "wp (stage_uncached env cf req) (staged_outcome ?v ?p s) s1"
    if "(staged_at s1)(?v := None) = (staged_at s)(?v := None)" for s1
    by (rule wp_mono [OF stage_uncached_outcome]) (use that in \<open>simp add: staged_outcome_def\<close>)
  show ?thesis
    unfolding stageVolume_def wp_bind
    by (rule wp_mono [OF stage_cached_outcome])
      (auto simp: wp staged_outcome_def [of _ _ _ "Inl _"] staged_outcome_def [of _ _ _ "Inr ()"]
          split: sum.split intro!: uncached)
qed

section \<open>Operations under a lock\<close>

lemma with_lock_rule:
  assumes busy: "\<And>s1. mount_at s1 = mount_at s \<Longrightarrow> staged_at s1 = staged_at s \<Longrightarrow> orphans s1 = orphans s
       \<Longrightarrow> config_sections (trace s1) = config_sections (trace s)
       \<Longrightarrow> Q (Inl (Status Aborted volumeOperationAlreadyExistsFmt [S v])) s1"
    and body: "\<And>s1. mount_at s1 = mount_at s \<Longrightarrow> staged_at s1 = staged_at s \<Longrightarrow> orphans s1 = orphans s
       \<Longrightarrow> config_sections (trace s1) = config_sections (trace s) \<Longrightarrow> k \<in> locks s1
       \<Longrightarrow> wp body (\<lambda>r s2. Q r (s2\<lparr>locks := locks s2 - {k}\<rparr>)) s1"
  shows "wp (with_lock env k v body) Q s"
proof -
  have "wp (case a of Inl e \<Rightarrow> fail e | Inr _ \<Rightarrow> release_and k body) Q s1"
    if "mount_at s1 = mount_at s \<and> staged_at s1 = staged_at s \<and> orphans s1 = orphans s
        \<and> config_sections (trace s1) = config_sections (trace s)
        \<and> (case a of Inr _ \<Rightarrow> k \<in> locks s1 | Inl e \<Rightarrow> e = Status Aborted volumeOperationAlreadyExistsFmt [S v])"
    for a s1
    using that busy [of s1] body [of s1] by (cases a) (simp_all add: release_and_def wp)
  then show ?thesis
    unfolding with_lock_def wp_bind by (rule wp_mono [OF acquireVolumeLock_caches])
qed

lemma unstage_locked_effect:
  "wp (unstage_locked env cf v path) (\<lambda>r s'. r = Inr () \<longrightarrow>
     mount_at s' = (mount_at s)(path := None) \<and> staged_at s' = (staged_at s)(v := None)
     \<and> (\<exists>mc. fst (run_state (unstage_context v path) s) = Inr mc
          \<and> config_sections (trace s') = config_sections (trace s) - owned_remotes mc)) s"
proof -
  have ctx: "run_state (unstage_context v path) s = (fst (run_state (unstage_context v path) s), s)"
    by (simp add: unstage_context_def getMountContext_def getStagedVolume_def split: option.split)
  have unmount: "wp (unmountVolume env mc path) (\<lambda>r s'. staged_at s' = staged_at s \<and> mount_at s' = mount_at s
      \<and> config_sections (trace s') = config_sections (trace s) - owned_remotes mc) s" for mc
  proof -
    have "wp (unmountVolume env mc path) (\<lambda>r s'. config_sections (trace s') = config_sections (trace s) - owned_remotes mc) s"
      by (rule wp_mono [OF unmountVolume_effect]) blast
    then show ?thesis by (intro wp_conjI wp_keeps) (auto intro!: frame)
  qed
  have delete: "wp (DeleteState env sm v path) (\<lambda>r s'. staged_at s' = staged_at s1
      \<and> mount_at s' = mount_at s1 \<and> config_sections (trace s') = config_sections (trace s1)) s1"
    for sm and s1 :: node
  proof -
    have "keeps (\<lambda>s. config_sections (trace s)) (DeleteState env sm v path)"
      by (rule keeps_sections) (auto intro!: frame)
    then show ?thesis by (intro wp_conjI wp_keeps) (auto intro!: frame)
  qed
  show ?thesis
    unfolding unstage_locked_def wp_bind [of "unstage_context v path"] wp_run [OF ctx]
    by (auto simp: wp split: option.split sum.split intro!: wp_mono [OF unmount] wp_mono [OF delete])
qed

section \<open>A readable directory counts as staged\<close>

definition no_mount :: "ev \<Rightarrow> bool" where
  "no_mount e \<longleftrightarrow> (\<forall>f t. e \<noteq> Rc (RcloneMount f t))"

lemma no_mount_simps [simp]:
  "no_mount (Os c)" "no_mount (Sleep d)" "no_mount Now" "no_mount (Kube k)" "no_mount (Rc (VFSStats n))"
  by (simp_all add: no_mount_def)

lemma adds_no_mount_healthy: "adds no_mount (isMountHealthy env path)"
  by (auto simp: isMountHealthy_def intro!: frame)

definition looks_healthy :: "env \<Rightarrow> string \<Rightarrow> bool" where
  "looks_healthy env path \<longleftrightarrow> (\<forall>h. readDir (os_of env) h path = None)
     \<and> (\<forall>h n. vs_errors (vfsStats (rc_of env) h n) = None)"

lemma looks_healthy_result:
  "looks_healthy env path \<Longrightarrow> fst (fst (run_state (stageMountHealthy env path) s))"
  by (auto simp: looks_healthy_def stageMountHealthy_def isMountHealthy_def IsMountPathHealthy_def
      IsMountPathCorrupted_def getMountContext_def split: option.split)

lemma adds_when_healthy:
  assumes "looks_healthy env path" and "\<And>msg. adds no_mount (A msg)"
  shows "adds no_mount (do { (healthy, msg) \<leftarrow> stageMountHealthy env path; if healthy then A msg else B msg })"
  unfolding adds_def
proof
  fix s
  obtain h msg s1 where run: "run_state (stageMountHealthy env path) s = ((h, msg), s1)" by (metis prod.collapse)
  have "h" using looks_healthy_result [OF assms(1), of s] run by simp
  moreover obtain es where "trace s1 = trace s @ es" "list_all no_mount es"
    using adds_run [OF adds_no_mount_healthy run [unfolded stageMountHealthy_def]] .
  moreover obtain es' where "trace (snd (run_state (A msg) s1)) = trace s1 @ es'" "list_all no_mount es'"
    using addsD [OF assms(2)] .
  ultimately show "\<exists>es. trace (snd (run_state (do { (healthy, msg) \<leftarrow> stageMountHealthy env path;
      if healthy then A msg else B msg }) s)) = trace s @ es \<and> list_all no_mount es"
    using run by (intro exI [of _ "es @ es'"]) simp
qed

lemma adds_rebuildOrRestage:
  assumes "looks_healthy env path"
  shows "adds no_mount (rebuildOrRestage env cf req path)"
proof -
  have "adds no_mount (rebuildStagedVolumeFromMount env req path)"
    by (auto simp: rebuildStagedVolumeFromMount_def stageMountHealthy_def intro!: frame adds_no_mount_healthy)
  then show ?thesis unfolding rebuildOrRestage_def by (rule adds_when_healthy [OF assms])
qed

lemma adds_publish_staged:
  assumes "looks_healthy env (stagingTargetPath req)" and "stagingTargetPath req \<noteq> ''''"
  shows "adds no_mount (publish_staged_locked env cf req)"
proof -
  have lock: "adds no_mount (with_lock env k v body)" if "adds no_mount body" for k v body
    using that by (auto simp: with_lock_def release_and_def intro!: frame)
  have "adds no_mount (ensure_staged env cf req (stagingTargetPath req))"
    using adds_rebuildOrRestage [OF assms(1)]
    by (auto simp: ensure_staged_def stageMountHealthy_def intro!: frame adds_no_mount_healthy lock)
  then show ?thesis
    using assms(2) by (auto simp: publish_staged_locked_def bindPublish_def Let_def intro!: frame)
qed

section \<open>Properties\<close>

text \<open>
  Staging. A successful \<open>NodeStageVolume\<close> has the volume in the cache at the path
  asked for and leaves the volume unlocked; whatever the outcome, no other volume's entry
  changes.
\<close>

theorem NodeStageVolume_outcome:
  assumes "run_state (NodeStageVolume env cf req) s = (r, s')"
  shows "(staged_at s')(sq_volumeId req := None) = (staged_at s)(sq_volumeId req := None)
    \<and> (r = Inr () \<longrightarrow> (\<exists>sv. staged_at s' (sq_volumeId req) = Some sv \<and> sv_stagingPath sv = sq_stagingPath req)
         \<and> stageLockKey (sq_volumeId req) \<notin> locks s')"
proof -
  let ?Q = "\<lambda>r s'. (staged_at s')(sq_volumeId req := None) = (staged_at s)(sq_volumeId req := None)
    \<and> (r = Inr () \<longrightarrow> (\<exists>sv. staged_at s' (sq_volumeId req) = Some sv \<and> sv_stagingPath sv = sq_stagingPath req)
         \<and> stageLockKey (sq_volumeId req) \<notin> locks s')"
  have body: "wp (stageVolume env cf req) (\<lambda>r s2. ?Q r (s2\<lparr>locks := locks s2 - {stageLockKey (sq_volumeId req)}\<rparr>)) s1"
    if "staged_at s1 = staged_at s" for s1
    by (rule wp_mono [OF stageVolume_outcome]) (use that in \<open>auto simp: staged_outcome_def\<close>)
  have "wp (with_lock env (stageLockKey (sq_volumeId req)) (sq_volumeId req) (stageVolume env cf req)) ?Q s"
    by (rule with_lock_rule) (simp, rule body)
  then have "wp (NodeStageVolume env cf req) ?Q s"
    by (simp add: NodeStageVolume_def wp split: option.split)
  from wp_runD [OF this assms] show ?thesis .
qed

definition staging_cf :: node_config where
  "staging_cf = example_cf\<lparr>cf_staging := True\<rparr>"

definition example_stage_req :: stage_req where
  "example_stage_req = \<lparr>sq_volumeId = ''vol'', sq_stagingPath = ''/stg/globalmount'',
     sq_capability = Some (MountCap [] ''''), sq_secrets = [], sq_volumeContext = []\<rparr>"

theorem NodeStageVolume_outcome_witness:
  "staged_at (snd (run_state (NodeStageVolume example_env staging_cf example_stage_req) initial_node)) ''other'' = None"
proof -
  obtain r s' where run: "run_state (NodeStageVolume example_env staging_cf example_stage_req) initial_node = (r, s')"
    by fastforce
  have "((staged_at s')(''vol'' := None)) ''other'' = ((staged_at initial_node)(''vol'' := None)) ''other''"
    using NodeStageVolume_outcome [OF run] by (simp add: example_stage_req_def)
  with run show ?thesis by (simp add: initial_node_def staged_at_def)
qed

text \<open>
  Unstaging. A successful \<open>NodeUnstageVolume\<close> takes the mount at the staging path
  and the volume out of the caches, removes exactly the sections which that mount had loaded,
  also when the mount is known from the staged volume only, and leaves the volume unlocked.
\<close>

theorem NodeUnstageVolume_success:
  assumes "run_state (NodeUnstageVolume env cf v path) s = (Inr (), s')"
  shows "mount_at s' = (mount_at s)(path := None) \<and> staged_at s' = (staged_at s)(v := None)
    \<and> stageLockKey v \<notin> locks s'
    \<and> (\<exists>mc. fst (run_state (unstage_context v path) s) = Inr mc
          \<and> config_sections (trace s') = config_sections (trace s) - owned_remotes mc)"
proof -
  let ?Q = "\<lambda>r s'. r = Inr () \<longrightarrow> mount_at s' = (mount_at s)(path := None) \<and> staged_at s' = (staged_at s)(v := None)
    \<and> stageLockKey v \<notin> locks s'
    \<and> (\<exists>mc. fst (run_state (unstage_context v path) s) = Inr mc
          \<and> config_sections (trace s') = config_sections (trace s) - owned_remotes mc)"
  have same: "fst (run_state (unstage_context v path) s1) = fst (run_state (unstage_context v path) s)"
    if "mount_at s1 = mount_at s" "staged_at s1 = staged_at s" for s1
    using that by (simp add: unstage_context_def getMountContext_def getStagedVolume_def split: option.split)
  have body: "wp (unstage_locked env cf v path) (\<lambda>r s2. ?Q r (s2\<lparr>locks := locks s2 - {stageLockKey v}\<rparr>)) s1"
    if "mount_at s1 = mount_at s" "staged_at s1 = staged_at s" "config_sections (trace s1) = config_sections (trace s)" for s1
    by (rule wp_mono [OF unstage_locked_effect]) (use that same [OF that(1,2)] in auto)
  have "wp (with_lock env (stageLockKey v) v (unstage_locked env cf v path)) ?Q s"
    by (rule with_lock_rule) (simp, rule body)
  then have "wp (NodeUnstageVolume env cf v path) ?Q s"
    by (simp add: NodeUnstageVolume_def wp split: option.split)
  from wp_runD [OF this assms] show ?thesis by simp
qed

theorem NodeUnstageVolume_success_witness:
  "staged_at (snd (run_state (NodeUnstageVolume (select_env ResultReady) staging_cf ''vol'' ''/stg'')
     (initial_node\<lparr>stagedVolumes := [(''vol'', \<lparr>sv_volumeID = ''vol'', sv_stagingPath = ''/stg'',
        sv_mountCtx = None, sv_readOnly = False\<rparr>)]\<rparr>))) ''vol'' = None"
proof -
  let ?s = "initial_node\<lparr>stagedVolumes := [(''vol'', \<lparr>sv_volumeID = ''vol'', sv_stagingPath = ''/stg'',
        sv_mountCtx = None, sv_readOnly = False\<rparr>)]\<rparr>"
  obtain s' where run: "run_state (NodeUnstageVolume (select_env ResultReady) staging_cf ''vol'' ''/stg'') ?s = (Inr (), s')"
    by (simp add: NodeUnstageVolume_def validateUnstageVolumeRequest_def staging_cf_def example_cf_def with_lock_def
        acquire_free initial_node_def NewVolumeLocks_def release_and_def run_deferred unstage_locked_def
        unstage_context_def getMountContext_def getStagedVolume_def mount_at_def staged_at_def unmountVolume_def
        forceCleanupMount_def example_os_def deleteMountContext_def deleteStagedVolume_def)
  from NodeUnstageVolume_success [OF run] run show ?thesis by simp
qed

text \<open>
  Property C15: a restart remounts the same volume. The state saved for a publish, and the one
  saved for a staging, give back on a remount exactly the parameters the volume was mounted
  with, the prefix override included; so the remount isolates the same configuration under
  the same section names and mounts the same remote.
\<close>

theorem remount_params_of_saved_state:
  assumes "publish_params_of preq = Inr pvp" and "generateConfigData pvp = Inr orig"
    and "stage_params_of sreq = Inr spvp" and "generateConfigData spvp = Inr sorig"
  shows "remount_params (published_state preq orig opts now) = orig
    \<and> remount_params (staged_state sreq sorig opts now) = sorig"
proof
  have "paramRemotePrefix \<notin> set (keys (pv_params orig))"
    using prefix_not_copied assms(1) generateConfigData_keeps [OF assms(2)] by (simp add: publish_params_of_def)
  then show "remount_params (published_state preq orig opts now) = orig"
    by (rule remount_params_saved) (simp_all add: published_state_def)
  have "paramRemotePrefix \<notin> set (keys (pv_params sorig))"
    using prefix_not_copied assms(3) generateConfigData_keeps [OF assms(4)] by (simp add: stage_params_of_def)
  then show "remount_params (staged_state sreq sorig opts now) = sorig"
    by (rule remount_params_saved) (simp_all add: staged_state_def)
qed

theorem remount_params_of_saved_state_witness:
  "remount_params (published_state (example_req ''/t'') example_pvp [] 5) = example_pvp"
proof -
  let ?sreq = "example_stage_req\<lparr>sq_secrets := secrets (example_req ''/t'')\<rparr>"
  have "stage_params_of ?sreq = Inr example_pvp"
    by (simp add: stage_params_of_def example_stage_req_def example_req_def mergeVolumeParameters_def
        applyVolumeMountGroup_def example_pvp_def extractPublishParams_def param_names mget_def reservedParams_def
        s3_config_def)
  from remount_params_of_saved_state [OF example_publish_params example_generate this example_generate]
  show ?thesis by blast
qed

text \<open>
  Property C34: a readable staging directory is taken for a staged volume. When the staging
  path of a publish can be read and no statistics report errors, the publish never mounts the
  volume, whether or not anything is mounted at the staging path.
\<close>

theorem staged_publish_trusts_directory:
  assumes "looks_healthy env (stagingTargetPath req)" and "stagingTargetPath req \<noteq> ''''"
  shows "new_calls s (snd (run_state (nodePublishVolumeStaged env cf req) s)) \<inter> {Rc (RcloneMount f t) |f t. True} = {}"
proof -
  have "adds no_mount (nodePublishVolumeStaged env cf req)"
    using adds_publish_staged [OF assms]
    by (auto simp: nodePublishVolumeStaged_def with_lock_def release_and_def intro!: frame)
  then obtain es where "trace (snd (run_state (nodePublishVolumeStaged env cf req) s)) = trace s @ es"
    and "list_all no_mount es" by (rule addsD)
  then show ?thesis by (auto simp: new_calls_def list_all_iff no_mount_def)
qed

theorem staged_publish_trusts_directory_witness:
  "let req = (example_req ''/t'')\<lparr>stagingTargetPath := ''/stg''\<rparr>;
       (r, s') = run_state (nodePublishVolumeStaged (select_env ResultReady) staging_cf req) initial_node
   in r = Inr () \<and> Os (BindMount ''/stg'' ''/t'' [''bind'']) \<in> new_calls initial_node s'
      \<and> Rc (RcloneMount ''s3:'' ''/stg'') \<notin> new_calls initial_node s'"
proof -
  let ?req = "(example_req ''/t'')\<lparr>stagingTargetPath := ''/stg''\<rparr>"
  let ?run = "run_state (nodePublishVolumeStaged (select_env ResultReady) staging_cf ?req) initial_node"
  have healthy: "looks_healthy (select_env ResultReady) (stagingTargetPath ?req)" and "stagingTargetPath ?req \<noteq> ''''"
    by (simp_all add: looks_healthy_def example_os_def example_rclone_def)
  from staged_publish_trusts_directory [OF this, of initial_node staging_cf]
  have "Rc (RcloneMount ''s3:'' ''/stg'') \<notin> new_calls initial_node (snd ?run)" by blast
  moreover have "fst ?run = Inr () \<and> Os (BindMount ''/stg'' ''/t'' [''bind'']) \<in> new_calls initial_node (snd ?run)"
    by (simp add: nodePublishVolumeStaged_def validatePublishVolumeRequest_def with_lock_def staging_cf_def
        example_cf_def acquire_free initial_node_def NewVolumeLocks_def release_and_def run_deferred
        publish_staged_locked_def ensure_staged_def stageMountHealthy_def isMountHealthy_def IsMountPathHealthy_def
        IsMountPathCorrupted_def example_os_def getMountContext_def mount_at_def getStagedVolume_def staged_at_def
        rebuildOrRestage_def rebuildStagedVolumeFromMount_def setStagedVolume_def put_staged_def releaseLock_def
        prepareTargetDirectory_def check_target_def bindPublish_def new_calls_def publishVolumeLockKey_def
        stageLockKey_def)
  ultimately show ?thesis by (simp add: case_prod_unfold Let_def)
qed

end
