(* ===== verification/Node_System.thy ===== *)
theory Node_System
  imports Node_Stage
begin

text \<open>
  The node server as a transition system: each RPC, each reaper and the remount of a state is
  one step. The environment is quiet, that is, no goroutine outside of these steps takes or
  frees a volume lock. The invariant ties the lock table to the orphans: between steps the
  locks held are exactly those of the mounts that wait for their reaper.
\<close>

definition quiet :: "env \<Rightarrow> bool" where
  "quiet env \<longleftrightarrow> (\<forall>h l. lock_others env h l = l)"

inductive node_step :: "env \<Rightarrow> node_config \<Rightarrow> node \<Rightarrow> node \<Rightarrow> bool" for env cf where
  publish: "run_state (NodePublishVolume env cf req) s = (r, s') \<Longrightarrow> node_step env cf s s'"
| unpublish: "run_state (NodeUnpublishVolume env cf v t) s = (r, s') \<Longrightarrow> node_step env cf s s'"
| stage: "run_state (NodeStageVolume env cf sreq) s = (r, s') \<Longrightarrow> node_step env cf s s'"
| unstage: "run_state (NodeUnstageVolume env cf v t) s = (r, s') \<Longrightarrow> node_step env cf s s'"
| stats: "run_state (NodeGetVolumeStats env cf v path) s = (q, s') \<Longrightarrow> node_step env cf s s'"
| reap: "job \<in> set (orphans s) \<Longrightarrow> run_state (reapOrphanMount env job) s = (u, s') \<Longrightarrow> node_step env cf s s'"
| remount: "run_state (RemountState env cf st) s = (r, s') \<Longrightarrow> node_step env cf s s'"
| unmount_all: "run_state (UnmountAll env) s = (es, s') \<Longrightarrow> node_step env cf s s'"

inductive node_reach :: "env \<Rightarrow> node_config \<Rightarrow> node \<Rightarrow> bool" for env cf where
  initial: "node_reach env cf initial_node"
| step: "node_reach env cf s \<Longrightarrow> node_step env cf s s' \<Longrightarrow> node_reach env cf s'"

section \<open>Locks in a quiet environment\<close>

text \<open>The frame rules that need a component off the locks do not apply to the locks themselves.\<close>

lemmas off_locks_rules = keeps_tryAcquire keeps_releaseLock keeps_sleepFor keeps_acquire_from
  keeps_acquireVolumeLock keeps_cache_sync keeps_waitForVFSCacheSync keeps_unmountVolume keeps_publishing
  keeps_staging

declare off_locks_rules [frame del]

lemma keeps_locks_sleep [frame]: "quiet env \<Longrightarrow> keeps locks (sleepFor env d)"
  by (simp add: keeps_def sleepFor_def quiet_def)

lemma keeps_locks_cache_sync [frame]: "quiet env \<Longrightarrow> keeps locks (cache_sync env mp timeout n)"
proof (induction env mp timeout n rule: cache_sync.induct)
  case (1 env mp timeout n)
  then show ?case by (subst cache_sync.simps) (auto intro!: frame)
qed

lemma keeps_locks_unmountVolume [frame]: "quiet env \<Longrightarrow> keeps locks (unmountVolume env mc t)"
  by (auto simp: unmountVolume_def waitForVFSCacheSync_def intro!: frame)

text \<open>An acquisition takes the one free key, or nothing.\<close>

lemma acquire_from_quiet:
  assumes "quiet env"
  shows "wp (acquire_from env k v n) (\<lambda>r s'. case r of
      Inr _ \<Rightarrow> k \<notin> locks s \<and> locks s' = insert k (locks s) | Inl _ \<Rightarrow> locks s' = locks s) s"
proof (induction "volumeLockMaxRetries - n" arbitrary: n s)
  case 0
  then show ?case by (subst acquire_from.simps) (simp add: wp)
next
  case (Suc m)
  have "wp (acquire_from env k v (Suc n)) (\<lambda>r s'. case r of
      Inr _ \<Rightarrow> k \<notin> locks s \<and> locks s' = insert k (locks s) | Inl _ \<Rightarrow> locks s' = locks s) s1"
    if "locks s1 = locks s" for s1 :: "'a lock_world_scheme"
  proof -
    have "m = volumeLockMaxRetries - Suc n" using Suc.hyps(2) by simp
    from Suc.hyps(1) [OF this, of s1] show ?thesis unfolding that .
  qed
  then show ?case
    using assms by (subst acquire_from.simps) (simp add: wp quiet_def)
qed

lemmas acquireVolumeLock_quiet = acquire_from_quiet [where n = 0, folded acquireVolumeLock_def]

lemma with_lock_keeps [frame]:
  assumes "quiet env" and "keeps locks body"
  shows "keeps locks (with_lock env k v body)"
  unfolding keeps_def
proof
  fix s :: node
  have body: "wp body (\<lambda>_ s2. locks s2 - {k} = locks s) s1" if "k \<notin> locks s" "locks s1 = insert k (locks s)" for s1
    by (rule wp_mono [OF wp_keeps [OF assms(2)]]) (use that in simp)
  have "wp (with_lock env k v body) (\<lambda>_ s'. locks s' = locks s) s"
    unfolding with_lock_def wp_bind
    by (rule wp_mono [OF acquireVolumeLock_quiet [OF assms(1)]])
      (auto simp: wp release_and_def split: sum.splits intro!: body)
  then show "locks (snd (run_state (with_lock env k v body) s)) = locks s" by (simp add: wp_snd)
qed

lemma keeps_locks_node [frame]:
  "keeps locks (isMountHealthy env t)" "keeps locks (stageMountHealthy env t)"
  "keeps locks (save_staged env cf req orig opts)" "keeps locks (load_and_mount env pvp path opts g h)"
  "keeps locks (getStagingPathForPublish env cf v)" "keeps locks (bindPublish env path t ro)"
  "keeps locks (unstage_context v t)"
  by (auto simp: isMountHealthy_def stageMountHealthy_def save_staged_def load_and_mount_def
      mountRcloneFilesystem_def getStagingPathForPublish_def findStagingMountState_def bindPublish_def Let_def
      unstage_context_def intro!: frame)

lemma keeps_locks_staging [frame]:
  assumes "quiet env"
  shows "keeps locks (cleanupUnhealthyStagingMount env t)" and "keeps locks (stageVolume env cf req)"
    and "keeps locks (unstage_locked env cf v t)" and "keeps locks (publish_staged_locked env cf preq)"
    and "keeps locks (unpublish_locked env cf v t)"
proof -
  note rules = frame assms
  show 1: "keeps locks (cleanupUnhealthyStagingMount env t)" for t
    by (auto simp: cleanupUnhealthyStagingMount_def intro!: rules)
  have "keeps locks (stage_cached env v t)" for v t by (auto simp: stage_cached_def intro!: rules 1)
  moreover have "keeps locks (stage_target env v t)" for v t by (auto simp: stage_target_def intro!: rules)
  moreover have "keeps locks (stage_mount env cf req)" for req
    by (auto simp: stage_mount_def Let_def intro!: rules)
  ultimately show 2: "keeps locks (stageVolume env cf req)" for req
    by (auto simp: stageVolume_def stage_uncached_def intro!: rules)
  show "keeps locks (unstage_locked env cf v t)"
    by (auto simp: unstage_locked_def intro!: rules)
  have "keeps locks (rebuildOrRestage env cf preq t)" for t
    by (auto simp: rebuildOrRestage_def rebuildStagedVolumeFromMount_def intro!: rules 1 2)
  then have "keeps locks (ensure_staged env cf preq t)" for t
    by (auto simp: ensure_staged_def intro!: rules)
  then show "keeps locks (publish_staged_locked env cf preq)"
    by (auto simp: publish_staged_locked_def intro!: rules)
  show "keeps locks (unpublish_locked env cf v t)"
    by (auto simp: unpublish_locked_def unbindPublish_def intro!: rules)
qed

lemma keeps_locks_remount [frame]:
  assumes "quiet env"
  shows "keeps locks (RemountState env cf st)"
proof -
  have "keeps locks (remount_target env cf st p)" for p
    by (auto simp: remount_target_def rebuildStagedVolumeAfterRemount_def intro!: frame)
  moreover have "keeps locks (remount_clear env p)" for p
    by (auto simp: remount_clear_def intro!: frame assms)
  moreover have "keeps locks (remount_finish env cf st p mc)" for p mc
    by (auto simp: remount_finish_def intro!: frame)
  ultimately show ?thesis by (auto simp: RemountState_def Let_def intro!: frame)
qed

lemma keeps_locks_unmount_all [frame]:
  assumes "quiet env"
  shows "keeps locks (UnmountAll env)"
proof -
  have "keeps locks (unmount_each env pms errs)" for pms errs
    by (induction pms arbitrary: errs) (auto simp: unmount_one_def intro!: frame assms)
  then show ?thesis by (auto simp: UnmountAll_def intro!: frame split: select_case.split)
qed

lemma keeps_locks_stats [frame]: "keeps locks (NodeGetVolumeStats env cf v path)"
  by (auto simp: NodeGetVolumeStats_def volume_stats_def intro!: frame)

declare off_locks_rules [frame]

text \<open>Only a direct publish adds orphans.\<close>

lemma keeps_orphans_node [frame]:
  "keeps orphans (isMountHealthy env t)" "keeps orphans (stageMountHealthy env t)"
  "keeps orphans (cleanupUnhealthyStagingMount env t)"
  by (auto simp: cleanupUnhealthyStagingMount_def intro!: frame)

lemma keeps_orphans_with_lock [frame]:
  "keeps orphans body \<Longrightarrow> keeps orphans (with_lock env k v body)"
  by (auto simp: with_lock_def release_and_def intro!: frame)

lemma keeps_orphans_staging [frame]:
  "keeps orphans (stageVolume env cf req)" "keeps orphans (unstage_locked env cf v t)"
  "keeps orphans (publish_staged_locked env cf preq)" "keeps orphans (unpublish_locked env cf v t)"
proof -
  show 1: "keeps orphans (stageVolume env cf req)" for req
    by (auto simp: stageVolume_def stage_uncached_def stage_cached_def stage_target_def stage_mount_def Let_def
        intro!: frame)
  show "keeps orphans (unstage_locked env cf v t)" by (auto simp: unstage_locked_def intro!: frame)
  have "keeps orphans (rebuildOrRestage env cf preq t)" for t
    by (auto simp: rebuildOrRestage_def rebuildStagedVolumeFromMount_def intro!: frame 1)
  then show "keeps orphans (publish_staged_locked env cf preq)"
    by (auto simp: publish_staged_locked_def ensure_staged_def intro!: frame)
  show "keeps orphans (unpublish_locked env cf v t)"
    by (auto simp: unpublish_locked_def unbindPublish_def intro!: frame)
qed

lemma NodeUnpublishVolume_with_lock:
  "NodeUnpublishVolume env cf v t =
     (case validateUnpublishVolumeRequest v t of
        Some e \<Rightarrow> fail e
      | None \<Rightarrow> with_lock env (publishVolumeLockKey (cf_staging cf) v t) v (unpublish_locked env cf v t))"
  by (simp add: NodeUnpublishVolume_def with_lock_def Let_def split: option.split)

lemma keeps_orphans_rest [frame]:
  "keeps orphans (RemountState env cf st)" "keeps orphans (UnmountAll env)"
  "keeps orphans (NodeGetVolumeStats env cf v path)"
proof -
  show "keeps orphans (RemountState env cf st)"
    by (auto simp: RemountState_def remount_target_def rebuildStagedVolumeAfterRemount_def remount_clear_def
        remount_finish_def Let_def intro!: frame)
  have "keeps orphans (unmount_each env pms errs)" for pms errs
    by (induction pms arbitrary: errs) (auto simp: unmount_one_def intro!: frame)
  then show "keeps orphans (UnmountAll env)" by (auto simp: UnmountAll_def intro!: frame split: select_case.split)
  show "keeps orphans (NodeGetVolumeStats env cf v path)"
    by (auto simp: NodeGetVolumeStats_def volume_stats_def intro!: frame)
qed

section \<open>The invariant\<close>

definition lock_inv :: "node \<Rightarrow> bool" where
  "lock_inv s \<longleftrightarrow> distinct (map job_lockKey (orphans s)) \<and> locks s = set (map job_lockKey (orphans s))"

lemma lock_inv_kept: "lock_inv s \<Longrightarrow> locks s' = locks s \<Longrightarrow> orphans s' = orphans s \<Longrightarrow> lock_inv s'"
  by (simp add: lock_inv_def)

lemma keeps_lock_inv:
  assumes "keeps locks m" and "keeps orphans m" and "lock_inv s" and "run_state m s = (r, s')"
  shows "lock_inv s'"
  using assms(3) keeps_run [OF assms(1,4)] keeps_run [OF assms(2,4)] by (rule lock_inv_kept)

lemma lock_inv_direct:
  assumes "quiet env" and "lock_inv s"
  shows "wp (nodePublishVolumeDirect env cf req) (\<lambda>_ s'. lock_inv s') s"
proof (cases "validatePublishVolumeRequest req")
  case None
  let ?k = "publishVolumeLockKey (cf_staging cf) (volumeId req) (targetPath req)"
  have body: "wp (do { (handOff, res) \<leftarrow> publish_locked env cf req ?k;
              (if handOff then State_Monad.return () else releaseLock ?k);
              State_Monad.return res }) (\<lambda>_ s'. lock_inv s') s1"
    if "?k \<notin> locks s" "locks s1 = insert ?k (locks s)" "orphans s1 = orphans s" for s1
    unfolding wp_bind
    by (rule wp_mono [OF wp_conjI [OF publish_locked_outcome wp_keeps [OF keeps_locks_publish_locked]]])
      (use that assms(2) in \<open>auto simp: wp publish_outcome_def lock_inv_def image_iff split: if_splits\<close>)
  have "wp (acquireVolumeLock env ?k (volumeId req)) (\<lambda>r s'. (case r of
      Inr _ \<Rightarrow> ?k \<notin> locks s \<and> locks s' = insert ?k (locks s) | Inl _ \<Rightarrow> locks s' = locks s)
      \<and> orphans s' = orphans s) s"
    by (intro wp_conjI acquireVolumeLock_quiet [OF assms(1)] wp_keeps) (auto intro!: frame)
  then have "wp (acquireVolumeLock env ?k (volumeId req)) (\<lambda>a. wp (case a of
            Inl e \<Rightarrow> fail e
          | Inr _ \<Rightarrow> do { (handOff, res) \<leftarrow> publish_locked env cf req ?k;
              (if handOff then State_Monad.return () else releaseLock ?k);
              State_Monad.return res }) (\<lambda>_ s'. lock_inv s')) s"
    by (rule wp_mono) (simp add: wp_case_sum wp_return lock_inv_kept [OF assms(2)] body split: sum.splits del: wp_bind)
  then show ?thesis
    by (simp add: nodePublishVolumeDirect_def None Let_def wp_bind)
qed (use assms(2) in \<open>simp add: nodePublishVolumeDirect_def wp\<close>)

lemma lock_inv_reap:
  assumes "lock_inv s" and "job \<in> set (orphans s)"
  shows "wp (reapOrphanMount env job) (\<lambda>_ s'. lock_inv s') s"
proof (rule wp_mono [OF reap_effect])
  fix u :: unit and s' :: node
  assume s': "locks s' = locks s - {job_lockKey job} \<and> orphans s' = remove1 job (orphans s) \<and> mount_at s' = mount_at s
    \<and> staged_at s' = staged_at s \<and> config_sections (trace s') = config_sections (trace s) - set (job_remotes job)
    \<and> (force_clean env (job_target job) \<in> new_calls s s' \<longleftrightarrow> (\<exists>x. job_result env job s = Inr x))"
  have "distinct (map job_lockKey (remove1 job js))
      \<and> set (map job_lockKey (remove1 job js)) = set (map job_lockKey js) - {job_lockKey job}"
    if "distinct (map job_lockKey js)" "job \<in> set js" for js
    using that by (induction js) auto
  with assms s' show "lock_inv s'" by (simp add: lock_inv_def)
qed

lemma lock_inv_step:
  assumes "quiet env" and "lock_inv s" and "node_step env cf s s'"
  shows "lock_inv s'"
  using assms(3)
proof (cases rule: node_step.cases)
  case (publish req r)
  show ?thesis
  proof (cases "cf_staging cf")
    case False
    with publish wp_runD [OF lock_inv_direct [OF assms(1,2)], of cf req r s'] show ?thesis
      by (simp add: NodePublishVolume_def)
  next
    case True
    have "keeps locks (NodePublishVolume env cf req)" "keeps orphans (NodePublishVolume env cf req)"
      using True by (auto simp: NodePublishVolume_def nodePublishVolumeStaged_def intro!: frame assms(1))
    from keeps_lock_inv [OF this assms(2) publish] show ?thesis .
  qed
next
  case (unpublish v t r)
  have "keeps locks (NodeUnpublishVolume env cf v t)" "keeps orphans (NodeUnpublishVolume env cf v t)"
    by (auto simp: NodeUnpublishVolume_with_lock intro!: frame assms(1))
  from keeps_lock_inv [OF this assms(2) unpublish] show ?thesis .
next
  case (stage sreq r)
  have "keeps locks (NodeStageVolume env cf sreq)" "keeps orphans (NodeStageVolume env cf sreq)"
    by (auto simp: NodeStageVolume_def intro!: frame assms(1))
  from keeps_lock_inv [OF this assms(2) stage] show ?thesis .
next
  case (unstage v t r)
  have "keeps locks (NodeUnstageVolume env cf v t)" "keeps orphans (NodeUnstageVolume env cf v t)"
    by (auto simp: NodeUnstageVolume_def intro!: frame assms(1))
  from keeps_lock_inv [OF this assms(2) unstage] show ?thesis .
next
  case (stats v path q)
  have "keeps locks (NodeGetVolumeStats env cf v path)" "keeps orphans (NodeGetVolumeStats env cf v path)"
    by (rule frame)+
  from keeps_lock_inv [OF this assms(2) stats] show ?thesis .
next
  case (reap job u)
  from wp_runD [OF lock_inv_reap [OF assms(2) reap(1)] reap(2)] show ?thesis .
next
  case (remount st r)
  have "keeps locks (RemountState env cf st)" "keeps orphans (RemountState env cf st)"
    by (auto intro: frame assms(1))
  from keeps_lock_inv [OF this assms(2) remount] show ?thesis .
next
  case (unmount_all es)
  have "keeps locks (UnmountAll env)" "keeps orphans (UnmountAll env)"
    by (auto intro: frame assms(1))
  from keeps_lock_inv [OF this assms(2) unmount_all] show ?thesis .
qed

lemma lock_inv_reach: "node_reach env cf s \<Longrightarrow> quiet env \<Longrightarrow> lock_inv s"
proof (induction rule: node_reach.induct)
  case initial
  show ?case by (simp add: lock_inv_def initial_node_def NewVolumeLocks_def)
next
  case (step s s')
  then show ?case using lock_inv_step by blast
qed

lemma reap_all_locks:
  "wp (for_each js (reapOrphanMount env)) (\<lambda>_ s'. locks s' = locks s - set (map job_lockKey js)) s"
proof (induction js arbitrary: s)
  case (Cons j js)
  show ?case
    unfolding wp_for_each_Cons
    by (rule wp_mono [OF reap_effect], rule wp_mono [OF Cons.IH]) auto
qed (simp add: wp)

section \<open>Properties\<close>

text \<open>
  Property C4: no lock leaks. In every reachable state of the node server the volume locks
  held are exactly those of the orphan mounts that wait for their reaper, one lock for each
  orphan; so a server without orphans holds no lock.
\<close>

theorem locks_are_orphans:
  assumes "quiet env" and "node_reach env cf s"
  shows "locks s = set (map job_lockKey (orphans s)) \<and> distinct (map job_lockKey (orphans s))"
  using lock_inv_reach [OF assms(2,1)] by (simp add: lock_inv_def)

lemma quiet_select_env: "quiet (select_env c)"
  by (simp add: quiet_def)

theorem locks_are_orphans_witness:
  "let s = snd (run_state (NodePublishVolume (select_env TimerFired) example_cf (example_req ''/t'')) initial_node)
   in locks s = set (map job_lockKey (orphans s))"
proof -
  obtain r s where run: "run_state (NodePublishVolume (select_env TimerFired) example_cf (example_req ''/t'')) initial_node
      = (r, s)" by fastforce
  have "node_reach (select_env TimerFired) example_cf s"
    by (rule node_reach.step [OF node_reach.initial node_step.publish [OF run]])
  from locks_are_orphans [OF quiet_select_env this] run show ?thesis by simp
qed

text \<open>
  Property C19: every lock is given back. From any reachable state, once the reapers of the
  orphans have run, no volume lock is held, whatever their mounts came to.
\<close>

theorem reapers_free_all_locks:
  assumes "quiet env" and "node_reach env cf s"
  shows "locks (snd (run_state (for_each (orphans s) (reapOrphanMount env)) s)) = {}"
proof -
  have "locks s = set (map job_lockKey (orphans s))"
    using lock_inv_reach [OF assms(2,1)] by (simp add: lock_inv_def)
  moreover have "locks (snd (run_state (for_each (orphans s) (reapOrphanMount env)) s))
      = locks s - set (map job_lockKey (orphans s))"
    using reap_all_locks [of "orphans s" env s] by (simp add: wp_snd)
  ultimately show ?thesis by simp
qed

theorem reapers_free_all_locks_witness:
  "let env = select_env TimerFired;
       s = snd (run_state (NodePublishVolume env example_cf (example_req ''/t'')) initial_node)
   in locks (snd (run_state (for_each (orphans s) (reapOrphanMount env)) s)) = {}"
proof -
  obtain r s where run: "run_state (NodePublishVolume (select_env TimerFired) example_cf (example_req ''/t'')) initial_node
      = (r, s)" by fastforce
  have "node_reach (select_env TimerFired) example_cf s"
    by (rule node_reach.step [OF node_reach.initial node_step.publish [OF run]])
  from reapers_free_all_locks [OF quiet_select_env this] run show ?thesis by simp
qed

end
