(* ===== verification/Call_Spec.thy ===== *)
theory Call_Spec
  imports Prelude
begin

text \<open>
  Sequences of calls to a server and their abstract counterparts, with the contract that
  makes the one a refinement of the other.
\<close>

section \<open>Sequences of calls\<close>

text \<open>A call answers whether it succeeded.\<close>

definition succeeded :: "'e + 'a \<Rightarrow> bool" where
  "succeeded r = (case r of Inl _ \<Rightarrow> False | Inr _ \<Rightarrow> True)"

fun exec_calls :: "('c \<Rightarrow> ('s, bool) state) \<Rightarrow> 'c list \<Rightarrow> ('s, bool list) state" where
  "exec_calls exec [] = State_Monad.return []"
| "exec_calls exec (c # cs) = do {
     b \<leftarrow> exec c;
     bs \<leftarrow> exec_calls exec cs;
     State_Monad.return (b # bs) }"

fun spec_calls :: "('c \<Rightarrow> bool \<Rightarrow> 'a \<Rightarrow> 'a \<Rightarrow> bool) \<Rightarrow> 'c list \<Rightarrow> bool list \<Rightarrow> 'a \<Rightarrow> 'a \<Rightarrow> bool" where
  "spec_calls spec [] [] A A' \<longleftrightarrow> A' = A"
| "spec_calls spec (c # cs) (b # bs) A A' \<longleftrightarrow> (\<exists>A1. spec c b A A1 \<and> spec_calls spec cs bs A1 A')"
| "spec_calls spec _ _ A A' \<longleftrightarrow> False"

lemma spec_calls_at:
  "spec_calls spec (cs @ c # ds) bs A A' \<Longrightarrow>
     \<exists>A1 A2. spec c (bs ! length cs) A1 A2 \<and> spec_calls spec ds (drop (Suc (length cs)) bs) A2 A'"
proof (induction cs arbitrary: bs A)
  case Nil
  then show ?case by (cases bs) auto
next
  case (Cons d cs)
  then show ?case by (cases bs) auto
qed

section \<open>Refinement\<close>

text \<open>
  A server whose calls, as long as they are \<open>allowed\<close>, keep an invariant and are calls of the
  abstract server under \<open>abs\<close>.
\<close>

locale call_refinement =
  fixes exec :: "'c \<Rightarrow> ('s, bool) state"
    and allowed :: "'c \<Rightarrow> bool"
    and inv :: "'s \<Rightarrow> bool"
    and abs :: "'s \<Rightarrow> 'a"
    and spec :: "'c \<Rightarrow> bool \<Rightarrow> 'a \<Rightarrow> 'a \<Rightarrow> bool"
  assumes refines: "allowed c \<Longrightarrow> inv s \<Longrightarrow> run_state (exec c) s = (b, s') \<Longrightarrow> inv s' \<and> spec c b (abs s) (abs s')"
begin

lemma refines_calls:
  "\<forall>c \<in> set cs. allowed c \<Longrightarrow> inv s \<Longrightarrow> run_state (exec_calls exec cs) s = (bs, s') \<Longrightarrow>
     inv s' \<and> spec_calls spec cs bs (abs s) (abs s')"
proof (induction cs arbitrary: s bs)
  case (Cons c cs)
  obtain b s1 where call: "run_state (exec c) s = (b, s1)" by fastforce
  obtain bs' s2 where rest: "run_state (exec_calls exec cs) s1 = (bs', s2)" by fastforce
  have bs: "bs = b # bs'" "s2 = s'" using Cons.prems(3) call rest by simp_all
  have one: "inv s1" "spec c b (abs s) (abs s1)"
    using refines [of c s b s1] Cons.prems(1,2) call by simp_all
  have "inv s' \<and> spec_calls spec cs bs' (abs s1) (abs s')"
    using Cons.IH [of s1 bs'] Cons.prems(1) one(1) rest bs(2) by simp
  with one(2) bs(1) show ?case by auto
qed simp

end

text \<open>
  What a call establishes in the abstract server, and the calls that do not undo it.
\<close>

locale lasting_effect = call_refinement exec allowed inv abs spec
  for exec :: "'c \<Rightarrow> ('s, bool) state" and allowed and inv and abs :: "'s \<Rightarrow> 'a" and spec +
  fixes sets :: "'c \<Rightarrow> bool"
    and leaves :: "'c \<Rightarrow> bool"
    and effect :: "'a \<Rightarrow> bool"
  assumes established: "sets c \<Longrightarrow> spec c True A A' \<Longrightarrow> effect A'"
    and left: "leaves c \<Longrightarrow> spec c b A A' \<Longrightarrow> effect A \<Longrightarrow> effect A'"
begin

lemma left_by_calls:
  "spec_calls spec cs bs A A' \<Longrightarrow> \<forall>c \<in> set cs. leaves c \<Longrightarrow> effect A \<Longrightarrow> effect A'"
proof (induction cs arbitrary: bs A)
  case (Cons c cs)
  then obtain b bs' A1 where "spec c b A A1" "spec_calls spec cs bs' A1 A'" by (cases bs) auto
  with Cons.IH [of bs' A1] Cons.prems left show ?case by auto
next
  case Nil
  then show ?case by (cases bs) auto
qed

lemma effect_lasts:
  assumes "\<forall>d \<in> set (cs @ c # ds). allowed d" and "inv s"
    and "run_state (exec_calls exec (cs @ c # ds)) s = (bs, s')"
    and "sets c" and "bs ! length cs" and "\<forall>d \<in> set ds. leaves d"
  shows "effect (abs s')"
proof -
  obtain A1 A2 where "spec c True A1 A2" and rest: "spec_calls spec ds (drop (Suc (length cs)) bs) A2 (abs s')"
    using spec_calls_at [of spec cs c ds bs "abs s" "abs s'"] refines_calls [OF assms(1-3)] assms(5) by auto
  then have "effect A2" using established assms(4) by blast
  then show ?thesis using left_by_calls [OF rest assms(6)] by blast
qed

end

end
