(* ===== verification/Node_Spec.thy ===== *)
theory Node_Spec
  imports Node_System Call_Spec
begin

text \<open>
  What kubelet may rely on: an abstract view of the node server without staging, which knows only the
  mounted targets and the volumes whose mount is still pending, and the proof that every
  sequence of calls to the node server is one of the abstract view.
\<close>

section \<open>Calls\<close>

text \<open>
  The calls kubelet makes, with the reaping of the mount that holds a lock key as a call of its own, and
  whether they succeed.
\<close>

datatype rpc =
    PublishCall publish_req
  | UnpublishCall string string \<comment> \<open>volume, target\<close>
  | StatsCall string string
  | ReapCall string \<comment> \<open>lock key\<close>

fun exec_call :: "env \<Rightarrow> node_config \<Rightarrow> rpc \<Rightarrow> (node, bool) state" where
  "exec_call env cf (PublishCall req) = do { r \<leftarrow> NodePublishVolume env cf req; State_Monad.return (succeeded r) }"
| "exec_call env cf (UnpublishCall v t) = do { r \<leftarrow> NodeUnpublishVolume env cf v t; State_Monad.return (succeeded r) }"
| "exec_call env cf (StatsCall v t) = do { r \<leftarrow> NodeGetVolumeStats env cf v t; State_Monad.return (succeeded r) }"
| "exec_call env cf (ReapCall k) = do {
     jobs \<leftarrow> gets orphans;
     case find (\<lambda>job. job_lockKey job = k) jobs of
       None \<Rightarrow> State_Monad.return False
     | Some job \<Rightarrow> do { reapOrphanMount env job; State_Monad.return True } }"

section \<open>The abstract view\<close>

record view =
  mounted :: "string set"
  pending :: "string list"

definition view_of :: "node \<Rightarrow> view" where
  "view_of s = \<lparr>mounted = dom (mount_at s), pending = map job_lockKey (orphans s)\<rparr>"

definition no_view :: view where
  "no_view = \<lparr>mounted = {}, pending = []\<rparr>"

abbreviation lock_key :: "string \<Rightarrow> string \<Rightarrow> string" where
  "lock_key \<equiv> publishVolumeLockKey False"

text \<open>
  A publish mounts its target, or fails and either leaves everything or leaves the mount pending; an
  unpublish removes its target, or fails and may have done so; neither does anything to
  a volume and target whose mount is pending. Reaping ends a pending mount.
\<close>

fun spec_call :: "rpc \<Rightarrow> bool \<Rightarrow> view \<Rightarrow> view \<Rightarrow> bool" where
  "spec_call (PublishCall req) b A A' \<longleftrightarrow>
     (let k = lock_key (volumeId req) (targetPath req) in
      if b then k \<notin> set (pending A) \<and> A' = A\<lparr>mounted := insert (targetPath req) (mounted A)\<rparr>
      else A' = A \<or> (k \<notin> set (pending A) \<and> A' = A\<lparr>pending := k # pending A\<rparr>))"
| "spec_call (UnpublishCall v t) b A A' \<longleftrightarrow>
     lock_key v t \<notin> set (pending A) \<and> A' = A\<lparr>mounted := mounted A - {t}\<rparr> \<or> \<not> b \<and> A' = A"
| "spec_call (StatsCall v t) b A A' \<longleftrightarrow> A' = A"
| "spec_call (ReapCall k) b A A' \<longleftrightarrow>
     (if b then k \<in> set (pending A) \<and> A' = A\<lparr>pending := remove1 k (pending A)\<rparr>
      else k \<notin> set (pending A) \<and> A' = A)"

section \<open>One call\<close>

lemma dom_insert_at:
  assumes "m' t \<noteq> None" and "m'(t := None) = m(t := None)"
  shows "dom m' = insert t (dom m)"
proof (intro set_eqI)
  fix x
  show "x \<in> dom m' \<longleftrightarrow> x \<in> insert t (dom m)"
    using assms(1) fun_cong [OF assms(2), of x] by (cases "x = t") (auto simp: dom_def)
qed

lemma refines_publish:
  assumes "quiet env" and "\<not> cf_staging cf" and "lock_inv s"
    and run: "run_state (nodePublishVolumeDirect env cf req) s = (r, s')"
  shows "spec_call (PublishCall req) (succeeded r) (view_of s) (view_of s')"
proof (cases "validatePublishVolumeRequest req")
  case (Some e)
  with run show ?thesis by (auto simp: nodePublishVolumeDirect_def succeeded_def)
next
  case None
  let ?k = "lock_key (volumeId req) (targetPath req)"
  have inv: "lock_inv s'" using wp_runD [OF lock_inv_direct [OF assms(1,3)] run] .
  have key: "?k = publishVolumeLockKey (cf_staging cf) (volumeId req) (targetPath req)" using assms(2) by simp
  from wp_runD [OF nodePublish_outcome [OF None key] run]
  consider "r = Inl (Status Aborted volumeOperationAlreadyExistsFmt [S (volumeId req)])"
      "mount_at s' = mount_at s" "orphans s' = orphans s"
    | h where "publish_outcome req ?k s h r s'" "?k \<in> locks s' \<longleftrightarrow> h" by blast
  then show ?thesis
  proof cases
    case 1
    then show ?thesis by (simp add: view_of_def succeeded_def)
  next
    case 2
    have pending: "locks s' = set (map job_lockKey (orphans s'))" "distinct (map job_lockKey (orphans s'))"
      using inv by (simp_all add: lock_inv_def)
    show ?thesis
    proof (cases h)
      case True
      with 2 pending show ?thesis by (auto simp: publish_outcome_def view_of_def succeeded_def)
    next
      case False
      then have same: "orphans s' = orphans s" "?k \<notin> set (map job_lockKey (orphans s))"
        using 2 pending by (auto simp: publish_outcome_def)
      show ?thesis
      proof (cases r)
        case (Inl e)
        then have "mount_at s' = mount_at s" using 2(1) False by (simp add: publish_outcome_def)
        with same Inl show ?thesis by (simp add: view_of_def succeeded_def)
      next
        case (Inr u)
        then have "mount_at s' (targetPath req) \<noteq> None"
            "(mount_at s')(targetPath req := None) = (mount_at s)(targetPath req := None)"
          using 2(1) False by (simp_all add: publish_outcome_def)
        from dom_insert_at [OF this] same Inr show ?thesis
          by (simp add: view_of_def succeeded_def)
      qed
    qed
  qed
qed

lemma view_same: "mount_at s' = mount_at s \<Longrightarrow> orphans s' = orphans s \<Longrightarrow> view_of s' = view_of s"
  by (simp add: view_of_def)

lemma view_removed:
  assumes "mount_at s' = (mount_at s)(t := None)" and "orphans s' = orphans s"
  shows "view_of s' = (view_of s)\<lparr>mounted := mounted (view_of s) - {t}\<rparr>"
  by (simp add: view_of_def assms)

lemma refines_unpublish:
  assumes "quiet env" and "\<not> cf_staging cf" and "lock_inv s"
  shows "wp (NodeUnpublishVolume env cf v t) (\<lambda>r s'. spec_call (UnpublishCall v t) (succeeded r) (view_of s) (view_of s')) s"
proof (cases "validateUnpublishVolumeRequest v t")
  case (Some e)
  then show ?thesis by (simp add: NodeUnpublishVolume_def wp succeeded_def)
next
  case None
  let ?k = "lock_key v t"
  let ?Q = "\<lambda>r s'. spec_call (UnpublishCall v t) (succeeded r) (view_of s) (view_of s')"
  have key: "publishVolumeLockKey (cf_staging cf) v t = ?k" using assms(2) by simp
  have acquire: "wp (acquireVolumeLock env ?k v) (\<lambda>r s1. (case r of
      Inr _ \<Rightarrow> ?k \<notin> locks s \<and> locks s1 = insert ?k (locks s) | Inl _ \<Rightarrow> locks s1 = locks s)
      \<and> mount_at s1 = mount_at s \<and> orphans s1 = orphans s) s"
    by (intro wp_conjI acquireVolumeLock_quiet [OF assms(1)] wp_keeps) (auto intro!: frame)
  have locked: "wp (release_and ?k (unpublish_locked env cf v t)) ?Q s1"
    if "?k \<notin> locks s" "mount_at s1 = mount_at s" "orphans s1 = orphans s" for s1
  proof -
    have free: "?k \<notin> set (pending (view_of s))" using that(1) assms(3) by (simp add: lock_inv_def view_of_def)
    have result: "?Q r s'" if "orphans s' = orphans s1" "mount_at s' = (mount_at s1)(t := None) \<or> mount_at s' = mount_at s1 \<and> (\<exists>e. r = Inl e)"
      for r s'
      using that(2)
    proof
      assume "mount_at s' = (mount_at s1)(t := None)"
      with free view_removed [of s' s t] show ?thesis using \<open>orphans s' = orphans s1\<close> \<open>orphans s1 = orphans s\<close> \<open>mount_at s1 = mount_at s\<close> by simp
    next
      assume "mount_at s' = mount_at s1 \<and> (\<exists>e. r = Inl e)"
      with view_same [of s' s] show ?thesis
        using \<open>orphans s' = orphans s1\<close> \<open>orphans s1 = orphans s\<close> \<open>mount_at s1 = mount_at s\<close> by (auto simp: succeeded_def)
    qed
    have locks_off: "?Q r (s'\<lparr>locks := l\<rparr>) = ?Q r s'" for r s' l by (simp add: view_of_def)
    show ?thesis
      unfolding release_and_def wp_deferred wp_releaseLock locks_off
      by (rule wp_mono [OF unpublish_locked_effect [OF assms(2)]], elim conjE, rule result)
  qed
  show ?thesis
    unfolding NodeUnpublishVolume_def None option.case Let_def key wp_bind
  proof (rule wp_mono [OF acquire])
    fix a :: "gerr + unit" and s1
    assume a: "(case a of Inr _ \<Rightarrow> ?k \<notin> locks s \<and> locks s1 = insert ?k (locks s) | Inl _ \<Rightarrow> locks s1 = locks s)
      \<and> mount_at s1 = mount_at s \<and> orphans s1 = orphans s"
    then have "view_of s1 = view_of s" by (intro view_same) simp_all
    with a show "wp (case a of Inl e \<Rightarrow> fail e | Inr _ \<Rightarrow> release_and ?k (unpublish_locked env cf v t)) ?Q s1"
    proof (cases a)
      case (Inl e)
      with \<open>view_of s1 = view_of s\<close> show ?thesis by (simp add: wp_return succeeded_def)
    next
      case (Inr u)
      with a show ?thesis using locked [of s1] by (simp del: spec_call.simps)
    qed
  qed
qed

lemma refines_reap:
  assumes "lock_inv s"
  shows "wp (exec_call env cf (ReapCall k)) (\<lambda>b s'. spec_call (ReapCall k) b (view_of s) (view_of s')) s"
proof (cases "find (\<lambda>job. job_lockKey job = k) (orphans s)")
  case None
  then have "k \<notin> set (map job_lockKey (orphans s))" by (auto simp: find_None_iff)
  with None show ?thesis by (simp add: wp view_of_def)
next
  case (Some job)
  then have job: "job \<in> set (orphans s)" "job_lockKey job = k" by (auto simp: find_Some_iff)
  have keys: "map job_lockKey (remove1 job js) = remove1 (job_lockKey job) (map job_lockKey js)"
    if "distinct (map job_lockKey js)" "job \<in> set js" for js
    using that by (induction js) (auto simp: image_iff)
  have "distinct (map job_lockKey (orphans s))" using assms by (simp add: lock_inv_def)
  from keys [OF this job(1)] job show ?thesis
    by (auto simp: wp Some view_of_def intro!: wp_mono [OF reap_effect])
qed

text \<open>Every call keeps the lock invariant and is one of the abstract view.\<close>

lemma exec_call_step:
  assumes "run_state (exec_call env cf c) s = (b, s')"
  shows "s' = s \<or> node_step env cf s s'"
proof (cases c)
  case (PublishCall req)
  then show ?thesis
    using assms node_step.publish [of env cf req s] by (cases "run_state (NodePublishVolume env cf req) s") auto
next
  case (UnpublishCall v t)
  then show ?thesis
    using assms node_step.unpublish [of env cf v t s] by (cases "run_state (NodeUnpublishVolume env cf v t) s") auto
next
  case (StatsCall v t)
  then show ?thesis
    using assms node_step.stats [of env cf v t s] by (cases "run_state (NodeGetVolumeStats env cf v t) s") auto
next
  case (ReapCall k)
  show ?thesis
  proof (cases "find (\<lambda>job. job_lockKey job = k) (orphans s)")
    case None
    then show ?thesis using assms ReapCall by simp
  next
    case (Some job)
    then have "job \<in> set (orphans s)" by (auto simp: find_Some_iff)
    then show ?thesis
      using assms ReapCall Some node_step.reap [of job s env] by (cases "run_state (reapOrphanMount env job) s") auto
  qed
qed

lemma refines_call:
  assumes "quiet env" and "\<not> cf_staging cf" and "lock_inv s" and "run_state (exec_call env cf c) s = (b, s')"
  shows "spec_call c b (view_of s) (view_of s') \<and> lock_inv s'"
proof
  show "lock_inv s'"
    using exec_call_step [OF assms(4)] lock_inv_step [OF assms(1,3)] assms(3) by blast
  show "spec_call c b (view_of s) (view_of s')"
  proof (cases c)
    case (PublishCall req)
    obtain r s1 where run: "run_state (nodePublishVolumeDirect env cf req) s = (r, s1)" by fastforce
    from refines_publish [OF assms(1-3) run] run show ?thesis
      using assms(2,4) PublishCall by (auto simp: NodePublishVolume_def)
  next
    case (UnpublishCall v t)
    obtain r s1 where run: "run_state (NodeUnpublishVolume env cf v t) s = (r, s1)" by fastforce
    from wp_runD [OF refines_unpublish [OF assms(1-3)] run] run show ?thesis
      using assms(4) UnpublishCall by auto
  next
    case (StatsCall v t)
    have "keeps mount_at (exec_call env cf c)" "keeps orphans (exec_call env cf c)"
      using StatsCall by (auto simp: NodeGetVolumeStats_def volume_stats_def intro!: frame)
    from keeps_run [OF this(1) assms(4)] keeps_run [OF this(2) assms(4)] StatsCall show ?thesis
      by (simp add: view_of_def)
  next
    case (ReapCall k)
    from wp_runD [OF refines_reap [OF assms(3)]] assms(4) ReapCall show ?thesis by blast
  qed
qed

section \<open>Refinement\<close>

interpretation direct: call_refinement "exec_call env cf" "\<lambda>_. True" "\<lambda>s. quiet env \<and> \<not> cf_staging cf \<and> lock_inv s" view_of spec_call
  for env cf
  by unfold_locales (use refines_call in blast)

interpretation published: lasting_effect "exec_call env cf" "\<lambda>_. True" "\<lambda>s. quiet env \<and> \<not> cf_staging cf \<and> lock_inv s" view_of spec_call
    "\<lambda>c. \<exists>req. c = PublishCall req \<and> targetPath req = t" "\<lambda>c. \<forall>v. c \<noteq> UnpublishCall v t" "\<lambda>A. t \<in> mounted A"
  for env cf t
proof unfold_locales
  show "t \<in> mounted A'" if "\<exists>req. c = PublishCall req \<and> targetPath req = t" "spec_call c True A A'" for c A A'
    using that by (auto simp: Let_def)
  show "t \<in> mounted A'" if "\<forall>v. c \<noteq> UnpublishCall v t" "spec_call c b A A'" "t \<in> mounted A" for c b A A'
    using that by (cases c) (auto simp: Let_def split: if_splits)
qed

lemma fresh_node: "lock_inv initial_node" "view_of initial_node = no_view"
  by (auto simp: lock_inv_def initial_node_def NewVolumeLocks_def view_of_def no_view_def mount_at_def)

text \<open>
  Property C1: the node server without staging refines the abstract view. Whatever sequence of
  publishes, unpublishes, statistics and reaps is called on a fresh server, and whatever the outside
  answers, the results and the view of the state after them are those of a run of the view: targets
  are mounted and unmounted one at a time by the calls that say so, and nothing happens to a volume
  and target while a mount of it is pending.
\<close>

theorem node_refines_view:
  assumes "quiet env" and "\<not> cf_staging cf"
    and "run_state (exec_calls (exec_call env cf) cs) initial_node = (bs, s')"
  shows "spec_calls spec_call cs bs no_view (view_of s')"
  using direct.refines_calls [of cs env cf initial_node bs s'] assms fresh_node by simp


section \<open>An example\<close>

theorem node_refines_view_witness:
  "\<exists>bs s'. run_state (exec_calls (exec_call (select_env TimerFired) example_cf)
        [PublishCall (example_req ''/t''), UnpublishCall ''vol'' ''/u'', ReapCall (lock_key ''vol'' ''/t'')]) initial_node = (bs, s')
     \<and> spec_calls spec_call [PublishCall (example_req ''/t''), UnpublishCall ''vol'' ''/u'', ReapCall (lock_key ''vol'' ''/t'')] bs
          no_view (view_of s')"
proof -
  let ?cs = "[PublishCall (example_req ''/t''), UnpublishCall ''vol'' ''/u'', ReapCall (lock_key ''vol'' ''/t'')]"
  obtain bs s' where run: "run_state (exec_calls (exec_call (select_env TimerFired) example_cf) ?cs) initial_node = (bs, s')" by fastforce
  have "\<not> cf_staging example_cf" by (simp add: example_cf_def)
  from node_refines_view [OF quiet_select_env this run] run show ?thesis by blast
qed


end
