(* ===== verification/Node_Staged.thy ===== *)
theory Node_Staged
  imports Node_System Call_Spec
begin

text \<open>
  The node server in staging mode, as kubelet may rely on it: each volume has a staging path of its own,
  and the calls for a volume name that path. The two caches then agree, and the server
  refines an abstract one that knows only which volumes are staged.
\<close>

section \<open>Calls\<close>

datatype staged_rpc =
    StageCall stage_req
  | UnstageCall string string \<comment> \<open>volume, staging path\<close>
  | BindCall publish_req
  | UnbindCall string string \<comment> \<open>volume, target\<close>
  | UsageCall string string

definition answer :: "(node, gerr + 'a) state \<Rightarrow> (node, bool) state" where
  "answer m = do { r \<leftarrow> m; State_Monad.return (succeeded r) }"

fun exec_staged :: "env \<Rightarrow> node_config \<Rightarrow> staged_rpc \<Rightarrow> (node, bool) state" where
  "exec_staged env cf (StageCall req) = answer (NodeStageVolume env cf req)"
| "exec_staged env cf (UnstageCall v p) = answer (NodeUnstageVolume env cf v p)"
| "exec_staged env cf (BindCall req) = answer (NodePublishVolume env cf req)"
| "exec_staged env cf (UnbindCall v t) = answer (NodeUnpublishVolume env cf v t)"
| "exec_staged env cf (UsageCall v p) = answer (NodeGetVolumeStats env cf v p)"

text \<open>\<open>sp\<close> gives the staging path of a volume.\<close>

fun names_path :: "(string \<Rightarrow> string) \<Rightarrow> staged_rpc \<Rightarrow> bool" where
  "names_path sp (StageCall req) \<longleftrightarrow> sq_stagingPath req = sp (sq_volumeId req)"
| "names_path sp (UnstageCall v p) \<longleftrightarrow> p = sp v"
| "names_path sp (BindCall req) \<longleftrightarrow> stagingTargetPath req = sp (volumeId req) \<and> stagingTargetPath req \<noteq> ''''"
| "names_path sp _ \<longleftrightarrow> True"

section \<open>The invariant\<close>

text \<open>A volume in the cache is there under its ID, at its path, with the mount context of that path.\<close>

definition cached_right :: "string \<Rightarrow> string \<Rightarrow> node \<Rightarrow> bool" where
  "cached_right v p s \<longleftrightarrow> (\<forall>sv. staged_at s v = Some sv \<longrightarrow>
     sv_volumeID sv = v \<and> sv_stagingPath sv = p \<and> sv_mountCtx sv = mount_at s p)"

definition caches_agree :: "(string \<Rightarrow> string) \<Rightarrow> node \<Rightarrow> bool" where
  "caches_agree sp s \<longleftrightarrow> (\<forall>v. cached_right v (sp v) s)"

definition others_kept :: "string \<Rightarrow> string \<Rightarrow> node \<Rightarrow> node \<Rightarrow> bool" where
  "others_kept v p s s' \<longleftrightarrow> (staged_at s')(v := None) = (staged_at s)(v := None)
     \<and> (mount_at s')(p := None) = (mount_at s)(p := None)"

lemma upd_other: "m(k := x) = n(k := x) \<Longrightarrow> j \<noteq> k \<Longrightarrow> m j = n j"
  by (metis fun_upd_other)

lemma caches_agree_kept:
  assumes "inj sp" and "caches_agree sp s" and "others_kept v (sp v) s s'" and "cached_right v (sp v) s'"
  shows "caches_agree sp s'"
  unfolding caches_agree_def
proof
  fix w
  show "cached_right w (sp w) s'"
  proof (cases "w = v")
    case False
    then have "sp w \<noteq> sp v" using assms(1) by (auto dest: injD)
    then have "staged_at s' w = staged_at s w" "mount_at s' (sp w) = mount_at s (sp w)"
      using False assms(3) unfolding others_kept_def by (blast intro: upd_other)+
    then show ?thesis using assms(2) by (simp add: caches_agree_def cached_right_def)
  qed (use assms(4) in simp)
qed

definition staged_volumes :: "node \<Rightarrow> string set" where
  "staged_volumes s = dom (staged_at s)"

lemma staged_volumes_others:
  assumes "others_kept v p s s'"
  shows "staged_volumes s' = (if staged_at s' v = None then staged_volumes s - {v} else insert v (staged_volumes s))"
proof (intro set_eqI)
  fix w
  have "w \<noteq> v \<Longrightarrow> staged_at s' w = staged_at s w" using assms unfolding others_kept_def by (blast intro: upd_other)
  then show "w \<in> staged_volumes s' \<longleftrightarrow>
      w \<in> (if staged_at s' v = None then staged_volumes s - {v} else insert v (staged_volumes s))"
    by (cases "w = v") (simp_all add: staged_volumes_def domIff)
qed

text \<open>What an operation on a volume at its path leaves: the volume is staged exactly if it succeeded.\<close>

definition stages :: "string \<Rightarrow> string \<Rightarrow> node \<Rightarrow> gerr + 'a \<Rightarrow> node \<Rightarrow> bool" where
  "stages v p s r s' \<longleftrightarrow> others_kept v p s s' \<and> cached_right v p s' \<and> (staged_at s' v \<noteq> None \<longleftrightarrow> succeeded r)"

lemmas staging_defs = stages_def others_kept_def cached_right_def succeeded_def

section \<open>Staging\<close>

lemma caches_kept:
  assumes "keeps staged_at m" and "keeps mount_at m"
  shows "wp m (\<lambda>_ s'. staged_at s' = staged_at s \<and> mount_at s' = mount_at s) s"
  by (intro wp_conjI wp_keeps assms)

lemma cleanup_kept:
  "wp (cleanupUnhealthyStagingMount env p) (\<lambda>_ s'. staged_at s' = staged_at s
     \<and> (mount_at s')(p := None) = (mount_at s)(p := None)) s"
proof -
  have unmount: "wp (unmountVolume env mc p) (\<lambda>_ s'. staged_at s' = staged_at s1 \<and> mount_at s' = mount_at s1) s1" for mc s1
    by (rule caches_kept) (auto intro!: frame)
  have clean: "wp (clean_and_recreate env p f g) (\<lambda>_ s'. staged_at s' = staged_at s1 \<and> mount_at s' = mount_at s1) s1"
    for f g and s1 :: node
    by (rule caches_kept) (auto intro!: frame)
  show ?thesis
    by (auto simp: cleanupUnhealthyStagingMount_def wp split: option.split
        intro!: wp_mono [OF unmount] wp_mono [OF clean])
qed

lemma stage_target_stages:
  assumes "others_kept v p s s1" and "staged_at s1 v = None"
  shows "wp (stage_target env v p) (\<lambda>r s'. case r of
      Inl e \<Rightarrow> others_kept v p s s' \<and> staged_at s' v = None
    | Inr there \<Rightarrow> others_kept v p s s' \<and> cached_right v p s' \<and> (staged_at s' v \<noteq> None \<longleftrightarrow> there)) s1"
proof -
  have prep: "wp (prepareTargetDirectory env p) (\<lambda>_ s'. staged_at s' = staged_at s2 \<and> mount_at s' = mount_at s2) s2"
    for s2 :: node by (rule caches_kept) (auto intro!: frame)
  have healthy: "wp (stageMountHealthy env p) (\<lambda>_ s'. staged_at s' = staged_at s2 \<and> mount_at s' = mount_at s2) s2"
    for s2 by (rule caches_kept) (auto intro!: frame)
  have clean: "wp (forceCleanupMount env p) (\<lambda>_ s'. staged_at s' = staged_at s2 \<and> mount_at s' = mount_at s2) s2"
    for s2 :: node by (rule caches_kept) (auto intro!: frame)
  show ?thesis
    using assms
    by (auto simp: stage_target_def mkdir_all_def wp others_kept_def cached_right_def split: option.split sum.split
        intro!: wp_mono [OF prep] wp_mono [OF healthy] wp_mono [OF clean])
qed

lemma stage_mount_stages:
  assumes "others_kept (sq_volumeId req) (sq_stagingPath req) s s1" and "staged_at s1 (sq_volumeId req) = None"
  shows "wp (stage_mount env cf req) (stages (sq_volumeId req) (sq_stagingPath req) s) s1"
proof -
  have mount: "wp (load_and_mount env pvp path opts g h) (\<lambda>_ s'. staged_at s' = staged_at s2 \<and> mount_at s' = mount_at s2) s2"
    for pvp path opts g h s2 by (rule caches_kept) (auto intro!: frame)
  have save: "wp (save_staged env cf req orig opts) (\<lambda>_ s'. staged_at s' = staged_at s2 \<and> mount_at s' = mount_at s2) s2"
    for orig opts s2 by (rule caches_kept) (auto intro!: frame)
  show ?thesis
    using assms
    by (auto simp: stage_mount_def Let_def wp staging_defs split: sum.split
        intro!: wp_mono [OF mount] wp_mono [OF save])
qed

lemma stage_uncached_stages:
  assumes "others_kept (sq_volumeId req) (sq_stagingPath req) s s1" and "staged_at s1 (sq_volumeId req) = None"
  shows "wp (stage_uncached env cf req) (stages (sq_volumeId req) (sq_stagingPath req) s) s1"
  unfolding stage_uncached_def wp_bind
  by (rule wp_mono [OF stage_target_stages [OF assms]])
    (auto simp: wp stages_def succeeded_def cached_right_def split: sum.splits intro!: stage_mount_stages)

lemma stageVolume_stages:
  assumes "others_kept (sq_volumeId req) (sq_stagingPath req) s s1"
    and "cached_right (sq_volumeId req) (sq_stagingPath req) s1"
  shows "wp (stageVolume env cf req) (stages (sq_volumeId req) (sq_stagingPath req) s) s1"
proof -
  let ?v = "sq_volumeId req" and ?p = "sq_stagingPath req"
  have healthy: "wp (stageMountHealthy env ?p) (\<lambda>_ s'. staged_at s' = staged_at s2 \<and> mount_at s' = mount_at s2) s2" for s2
    by (rule caches_kept) (auto intro!: frame)
  have cached: "wp (stage_cached env ?v ?p) (\<lambda>r s'. case r of
      Inl e \<Rightarrow> others_kept ?v ?p s s' \<and> staged_at s' ?v = None
    | Inr there \<Rightarrow> others_kept ?v ?p s s' \<and> cached_right ?v ?p s' \<and> (staged_at s' ?v \<noteq> None \<longleftrightarrow> there)) s1"
    using assms
    by (auto simp: stage_cached_def wp others_kept_def cached_right_def split: option.split sum.split
        intro!: wp_mono [OF healthy] wp_mono [OF cleanup_kept])
  show ?thesis
    unfolding stageVolume_def wp_bind
    by (rule wp_mono [OF cached])
      (auto simp: wp stages_def succeeded_def cached_right_def split: sum.splits intro!: stage_uncached_stages)
qed

section \<open>Unstaging, binding\<close>

lemma stages_locks [simp]: "stages v p s r (s'\<lparr>locks := l\<rparr>) = stages v p s r s'"
  by (simp add: staging_defs)

lemma unstage_stages:
  assumes "others_kept v p s s1" and "cached_right v p s1"
  shows "wp (unstage_locked env cf v p) (\<lambda>r s'. others_kept v p s s' \<and> cached_right v p s'
     \<and> (if succeeded r then staged_at s' v = None else staged_at s' = staged_at s1)) s1"
proof -
  have ctx: "run_state (unstage_context v p) s1 = (fst (run_state (unstage_context v p) s1), s1)"
    by (simp add: unstage_context_def getMountContext_def getStagedVolume_def split: option.split)
  have unmount: "wp (unmountVolume env mc p) (\<lambda>_ s'. staged_at s' = staged_at s2 \<and> mount_at s' = mount_at s2) s2" for mc s2
    by (rule caches_kept) (auto intro!: frame)
  have delete: "wp (DeleteState env sm v p) (\<lambda>_ s'. staged_at s' = staged_at s2 \<and> mount_at s' = mount_at s2) s2"
    for sm and s2 :: node by (rule caches_kept) (auto intro!: frame)
  show ?thesis
    unfolding unstage_locked_def wp_bind [of "unstage_context v p"] wp_run [OF ctx]
    using assms
    by (auto simp: wp others_kept_def cached_right_def succeeded_def split: option.split sum.split
        intro!: wp_mono [OF unmount] wp_mono [OF delete])
qed

lemma rebuildOrRestage_stages:
  assumes "others_kept (volumeId req) p s s1" and "staged_at s1 (volumeId req) = None"
  shows "wp (rebuildOrRestage env cf req p) (stages (volumeId req) p s) s1"
proof -
  have healthy: "wp (stageMountHealthy env p) (\<lambda>_ s'. staged_at s' = staged_at s2 \<and> mount_at s' = mount_at s2) s2" for s2
    by (rule caches_kept) (auto intro!: frame)
  have stage: "wp (stageVolume env cf (nodeStageRequestFromPublish req p)) (stages (volumeId req) p s) s2"
    if "staged_at s2 = staged_at s1" "(mount_at s2)(p := None) = (mount_at s1)(p := None)" for s2
    using stageVolume_stages [of "nodeStageRequestFromPublish req p" s s2] assms that
    by (simp add: nodeStageRequestFromPublish_def others_kept_def cached_right_def)
  have rebuild: "wp (rebuildStagedVolumeFromMount env req p) (stages (volumeId req) p s) s2"
    if "staged_at s2 = staged_at s1 \<and> mount_at s2 = mount_at s1" for s2
    using assms that
    by (auto simp: rebuildStagedVolumeFromMount_def wp staging_defs intro!: wp_mono [OF healthy])
  have failed: "stages (volumeId req) p s (Inl e) s2"
    if "staged_at s2 = staged_at s1" "(mount_at s2)(p := None) = (mount_at s1)(p := None)" for e s2
    using assms that by (simp add: staging_defs)
  show ?thesis
    by (auto simp: rebuildOrRestage_def wp split: sum.split
        intro!: wp_mono [OF healthy] wp_mono [OF cleanup_kept] rebuild stage failed)
qed

lemma ensure_staged_stages:
  assumes "others_kept (volumeId req) p s s1" and "cached_right (volumeId req) p s1"
  shows "wp (ensure_staged env cf req p) (stages (volumeId req) p s) s1"
proof -
  let ?v = "volumeId req"
  have healthy: "wp (stageMountHealthy env p) (\<lambda>_ s'. staged_at s' = staged_at s1 \<and> mount_at s' = mount_at s1) s1"
    by (rule caches_kept) (auto intro!: frame)
  have restage: "wp (with_lock env (stageLockKey ?v) ?v (rebuildOrRestage env cf req p)) (stages ?v p s) s2"
    if "others_kept ?v p s s2" "staged_at s2 ?v = None" for s2
  proof (rule with_lock_rule)
    fix s3 assume "mount_at s3 = mount_at s2" "staged_at s3 = staged_at s2"
    then have kept: "others_kept ?v p s s3" "staged_at s3 ?v = None" using that by (simp_all add: others_kept_def)
    then show "stages ?v p s (Inl (Status Aborted volumeOperationAlreadyExistsFmt [S ?v])) s3"
      by (simp add: stages_def cached_right_def succeeded_def)
    show "wp (rebuildOrRestage env cf req p) (\<lambda>r s2. stages ?v p s r (s2\<lparr>locks := locks s2 - {stageLockKey ?v}\<rparr>)) s3"
      using rebuildOrRestage_stages [OF kept] by simp
  qed
  show ?thesis
    unfolding ensure_staged_def wp_bind
    by (rule wp_mono [OF healthy])
      (use assms in \<open>auto simp: wp staging_defs intro!: restage\<close>)
qed

lemma publish_staged_stages:
  assumes "others_kept (volumeId req) (stagingTargetPath req) s s1"
    and "cached_right (volumeId req) (stagingTargetPath req) s1" and "stagingTargetPath req \<noteq> ''''"
  shows "wp (publish_staged_locked env cf req) (\<lambda>r s'. others_kept (volumeId req) (stagingTargetPath req) s s'
     \<and> cached_right (volumeId req) (stagingTargetPath req) s' \<and> (succeeded r \<longrightarrow> staged_at s' (volumeId req) \<noteq> None)) s1"
proof -
  have prep: "wp (prepareTargetDirectory env t) (\<lambda>_ s'. staged_at s' = staged_at s2 \<and> mount_at s' = mount_at s2) s2"
    for t and s2 :: node by (rule caches_kept) (auto intro!: frame)
  have bind: "wp (bindPublish env path t ro) (\<lambda>_ s'. staged_at s' = staged_at s2 \<and> mount_at s' = mount_at s2) s2"
    for path t ro s2 by (rule caches_kept) (auto intro!: frame)
  show ?thesis
    using assms(3)
    by (auto simp: publish_staged_locked_def wp staging_defs split: sum.split
        intro!: wp_mono [OF ensure_staged_stages [OF assms(1,2)]] wp_mono [OF prep] wp_mono [OF bind])
qed

section \<open>The abstract server\<close>

text \<open>
  Its state is the set of staged volumes. A call that fails may have lost the mount of its volume, or
  set it up again on the way, and touches no other volume; statistics and the removal of a
  bind change nothing.
\<close>

fun spec_staged :: "staged_rpc \<Rightarrow> bool \<Rightarrow> string set \<Rightarrow> string set \<Rightarrow> bool" where
  "spec_staged (StageCall req) b A A' \<longleftrightarrow>
     (if b then A' = insert (sq_volumeId req) A else A' = A \<or> A' = A - {sq_volumeId req})"
| "spec_staged (UnstageCall v p) b A A' \<longleftrightarrow> A' = (if b then A - {v} else A)"
| "spec_staged (BindCall req) b A A' \<longleftrightarrow>
     A' = insert (volumeId req) A \<or> \<not> b \<and> (A' = A \<or> A' = A - {volumeId req})"
| "spec_staged _ b A A' \<longleftrightarrow> A' = A"

section \<open>One call\<close>

text \<open>
  An operation on a volume, under a lock: it may fail on the lock, otherwise \<open>R\<close> relates the result
  and whether the volume is staged before and after.
\<close>

definition volume_call :: "(bool \<Rightarrow> bool \<Rightarrow> bool \<Rightarrow> bool) \<Rightarrow> string \<Rightarrow> string \<Rightarrow> node \<Rightarrow> gerr + 'a \<Rightarrow> node \<Rightarrow> bool" where
  "volume_call R v p s r s' \<longleftrightarrow> others_kept v p s s' \<and> cached_right v p s'
     \<and> R (succeeded r) (staged_at s v \<noteq> None) (staged_at s' v \<noteq> None)"

lemma volume_call_with_lock:
  assumes "cached_right v p s" and "\<And>x. R False x x"
    and "\<And>s1. others_kept v p s s1 \<Longrightarrow> cached_right v p s1 \<Longrightarrow> staged_at s1 = staged_at s \<Longrightarrow>
       wp body (volume_call R v p s) s1"
  shows "wp (with_lock env k w body) (volume_call R v p s) s"
proof (rule with_lock_rule)
  have off: "volume_call R v p s r (s2\<lparr>locks := l\<rparr>) = volume_call R v p s r s2" for r :: "gerr + 'a" and s2 l
    by (simp add: volume_call_def others_kept_def cached_right_def)
  fix s1 assume "mount_at s1 = mount_at s" "staged_at s1 = staged_at s"
  then have s1: "others_kept v p s s1" "cached_right v p s1" "staged_at s1 = staged_at s"
    using assms(1) by (simp_all add: others_kept_def cached_right_def)
  then show "volume_call R v p s (Inl (Status Aborted volumeOperationAlreadyExistsFmt [S w])) s1"
    using assms(2) by (simp add: volume_call_def succeeded_def)
  show "wp body (\<lambda>r s2. volume_call R v p s r (s2\<lparr>locks := locks s2 - {k}\<rparr>)) s1"
    unfolding off using assms(3) [OF s1] .
qed

lemma volume_call_refused:
  "cached_right v p s \<Longrightarrow> R False (staged_at s v \<noteq> None) (staged_at s v \<noteq> None) \<Longrightarrow> volume_call R v p s (Inl e) s"
  by (simp add: volume_call_def others_kept_def succeeded_def)

lemma stage_call:
  assumes "cached_right (sq_volumeId req) (sq_stagingPath req) s"
  shows "wp (NodeStageVolume env cf req)
    (volume_call (\<lambda>b x y. (b \<longrightarrow> y) \<and> (\<not> b \<longrightarrow> y = x \<or> \<not> y)) (sq_volumeId req) (sq_stagingPath req) s) s"
proof -
  have "wp (stageVolume env cf req)
      (volume_call (\<lambda>b x y. (b \<longrightarrow> y) \<and> (\<not> b \<longrightarrow> y = x \<or> \<not> y)) (sq_volumeId req) (sq_stagingPath req) s) s1"
    if "others_kept (sq_volumeId req) (sq_stagingPath req) s s1" "cached_right (sq_volumeId req) (sq_stagingPath req) s1" for s1
    by (rule wp_mono [OF stageVolume_stages [OF that]]) (simp add: stages_def volume_call_def)
  then show ?thesis
    by (auto simp: NodeStageVolume_def wp assms intro!: volume_call_with_lock volume_call_refused split: option.split)
qed

lemma unstage_call:
  assumes "cached_right v p s"
  shows "wp (NodeUnstageVolume env cf v p) (volume_call (\<lambda>b x y. y = (x \<and> \<not> b)) v p s) s"
proof -
  have "wp (unstage_locked env cf v p) (volume_call (\<lambda>b x y. y = (x \<and> \<not> b)) v p s) s1"
    if "others_kept v p s s1" "cached_right v p s1" "staged_at s1 = staged_at s" for s1
    by (rule wp_mono [OF unstage_stages [OF that(1,2)]]) (use that(3) in \<open>auto simp: volume_call_def split: if_splits\<close>)
  then show ?thesis
    by (auto simp: NodeUnstageVolume_def wp assms intro!: volume_call_with_lock volume_call_refused split: option.split)
qed

lemma bind_call:
  assumes "cached_right (volumeId req) (stagingTargetPath req) s" and "stagingTargetPath req \<noteq> ''''" and "cf_staging cf"
  shows "wp (NodePublishVolume env cf req)
    (volume_call (\<lambda>b x y. b \<longrightarrow> y) (volumeId req) (stagingTargetPath req) s) s"
proof -
  have "wp (publish_staged_locked env cf req)
      (volume_call (\<lambda>b x y. b \<longrightarrow> y) (volumeId req) (stagingTargetPath req) s) s1"
    if "others_kept (volumeId req) (stagingTargetPath req) s s1" "cached_right (volumeId req) (stagingTargetPath req) s1" for s1
    by (rule wp_mono [OF publish_staged_stages [OF that assms(2)]]) (auto simp: volume_call_def)
  then show ?thesis
    by (auto simp: NodePublishVolume_def nodePublishVolumeStaged_def wp assms intro!: volume_call_with_lock volume_call_refused
        split: option.split)
qed

lemma rest_kept:
  assumes "keeps staged_at m" and "keeps mount_at m"
  shows "wp m (\<lambda>_ s'. caches_agree sp s' = caches_agree sp s \<and> staged_volumes s' = staged_volumes s) s"
  by (rule wp_mono [OF caches_kept [OF assms]]) (simp add: caches_agree_def cached_right_def staged_volumes_def)

lemma volume_call_caches:
  assumes "inj sp" and "caches_agree sp s" and "volume_call R v (sp v) s r s'"
  shows "caches_agree sp s'"
    and "\<exists>y. R (succeeded r) (v \<in> staged_volumes s) y
      \<and> staged_volumes s' = (if y then insert v (staged_volumes s) else staged_volumes s - {v})"
proof -
  have kept: "others_kept v (sp v) s s'" using assms(3) by (simp add: volume_call_def)
  show "caches_agree sp s'"
    using caches_agree_kept [OF assms(1,2) kept] assms(3) by (simp add: volume_call_def)
  show "\<exists>y. R (succeeded r) (v \<in> staged_volumes s) y
      \<and> staged_volumes s' = (if y then insert v (staged_volumes s) else staged_volumes s - {v})"
    using staged_volumes_others [OF kept] assms(3)
    by (intro exI [of _ "staged_at s' v \<noteq> None"]) (auto simp: volume_call_def staged_volumes_def domIff)
qed

lemma volume_call_refines:
  assumes "inj sp" and "caches_agree sp s" and "volume_call R v (sp v) s r s'"
    and "\<And>y. R (succeeded r) (v \<in> staged_volumes s) y \<Longrightarrow> spec_staged c (succeeded r) (staged_volumes s)
       (if y then insert v (staged_volumes s) else staged_volumes s - {v})"
  shows "caches_agree sp s' \<and> spec_staged c (succeeded r) (staged_volumes s) (staged_volumes s')"
  using volume_call_caches [OF assms(1-3)] assms(4) by auto

lemma wp_answer [wp]: "wp (answer m) Q = wp m (\<lambda>r. Q (succeeded r))"
  by (simp add: answer_def wp)

lemma keeps_unbind [frame]:
  assumes "cf_staging cf"
  shows "keeps staged_at (NodeUnpublishVolume env cf v t)" and "keeps mount_at (NodeUnpublishVolume env cf v t)"
  by (auto simp: NodeUnpublishVolume_def unpublish_locked_def unbindPublish_def release_and_def Let_def assms intro!: frame)

lemma staged_call_refines:
  assumes "inj sp" and "cf_staging cf" and "names_path sp c" and "caches_agree sp s"
  shows "wp (exec_staged env cf c) (\<lambda>b s'. caches_agree sp s' \<and> spec_staged c b (staged_volumes s) (staged_volumes s')) s"
proof -
  have right: "cached_right v (sp v) s" for v using assms(4) by (simp add: caches_agree_def)
  note kept = volume_call_refines [OF assms(1,4)]
  show ?thesis
  proof (cases c)
    case (StageCall req)
    then have path: "sq_stagingPath req = sp (sq_volumeId req)" using assms(3) by simp
    have "wp (NodeStageVolume env cf req) (\<lambda>r s'. caches_agree sp s'
        \<and> spec_staged (StageCall req) (succeeded r) (staged_volumes s) (staged_volumes s')) s"
      by (rule wp_mono [OF stage_call], unfold path, use right in blast, erule kept) (auto simp: insert_absorb)
    then show ?thesis using StageCall by (simp add: wp)
  next
    case (UnstageCall v p)
    have "wp (NodeUnstageVolume env cf v (sp v)) (\<lambda>r s'. caches_agree sp s'
        \<and> spec_staged (UnstageCall v (sp v)) (succeeded r) (staged_volumes s) (staged_volumes s')) s"
      by (rule wp_mono [OF unstage_call [OF right]], erule kept) auto
    then show ?thesis using UnstageCall assms(3) by (simp add: wp)
  next
    case (BindCall req)
    then have path: "stagingTargetPath req = sp (volumeId req)" "stagingTargetPath req \<noteq> ''''" using assms(3) by auto
    have "wp (NodePublishVolume env cf req) (\<lambda>r s'. caches_agree sp s'
        \<and> spec_staged (BindCall req) (succeeded r) (staged_volumes s) (staged_volumes s')) s"
      by (rule wp_mono [OF bind_call [OF _ path(2) assms(2)]], unfold path(1), rule right, erule kept) auto
    then show ?thesis using BindCall by (simp add: wp)
  next
    case (UnbindCall v t)
    then show ?thesis
      using assms(2,4) by (auto simp: wp intro!: wp_mono [OF rest_kept] keeps_unbind)
  next
    case (UsageCall v p)
    have "keeps staged_at (NodeGetVolumeStats env cf v p)" "keeps mount_at (NodeGetVolumeStats env cf v p)"
      by (auto simp: NodeGetVolumeStats_def volume_stats_def intro!: frame)
    then show ?thesis
      using UsageCall assms(4) by (auto simp: wp intro!: wp_mono [OF rest_kept])
  qed
qed

section \<open>Refinement\<close>

interpretation staging: call_refinement "exec_staged env cf" "names_path sp"
    "\<lambda>s. inj sp \<and> cf_staging cf \<and> caches_agree sp s" staged_volumes spec_staged
  for env cf sp
  by unfold_locales (use wp_runD [OF staged_call_refines] in blast)

text \<open>A volume that is staged stays so, whatever happens to other volumes.\<close>

fun concerns :: "string \<Rightarrow> staged_rpc \<Rightarrow> bool" where
  "concerns v (StageCall req) \<longleftrightarrow> sq_volumeId req = v"
| "concerns v (UnstageCall w p) \<longleftrightarrow> w = v"
| "concerns v (BindCall req) \<longleftrightarrow> volumeId req = v"
| "concerns v _ \<longleftrightarrow> False"

definition makes_staged :: "string \<Rightarrow> staged_rpc \<Rightarrow> bool" where
  "makes_staged v c \<longleftrightarrow> concerns v c \<and> (\<forall>w p. c \<noteq> UnstageCall w p)"

interpretation staged_volume: lasting_effect "exec_staged env cf" "names_path sp"
    "\<lambda>s. inj sp \<and> cf_staging cf \<and> caches_agree sp s" staged_volumes spec_staged
    "makes_staged v" "\<lambda>c. \<not> concerns v c" "\<lambda>A. v \<in> A"
  for env cf sp v
proof unfold_locales
  show "v \<in> A'" if "makes_staged v c" "spec_staged c True A A'" for c A A'
    using that by (cases c) (auto simp: makes_staged_def)
  show "v \<in> A'" if "\<not> concerns v c" "spec_staged c b A A'" "v \<in> A" for c b A A'
    using that by (cases c) (auto split: if_splits)
qed

section \<open>After a restart\<close>

text \<open>Remounting the saved states of a fresh server, one for each volume, starts with caches that agree.\<close>

definition remount_path :: "mount_state \<Rightarrow> string" where
  "remount_path st = (if ms_stagingPath st = '''' then ms_targetPath st else ms_stagingPath st)"

lemma remount_cached:
  assumes "staged_at s (ms_volumeID st) = None"
  shows "wp (RemountState env cf st) (\<lambda>_ s'. others_kept (ms_volumeID st) (remount_path st) s s'
     \<and> cached_right (ms_volumeID st) (remount_path st) s') s"
proof -
  let ?v = "ms_volumeID st" and ?p = "remount_path st"
  let ?same = "\<lambda>s2 s'. staged_at s' = staged_at s2 \<and> mount_at s' = mount_at s2"
  let ?free = "\<lambda>s2. others_kept ?v ?p s s2 \<and> staged_at s2 ?v = None"
  have prep: "wp (prepareTargetDirectory env t) (\<lambda>_. ?same s2) s2" for t and s2 :: node
    by (rule caches_kept) (auto intro!: frame)
  have clean: "wp (clean_and_recreate env t f g) (\<lambda>_. ?same s2) s2" for t f g and s2 :: node
    by (rule caches_kept) (auto intro!: frame)
  have force: "wp (forceCleanupMount env t) (\<lambda>_. ?same s2) s2" for t and s2 :: node
    by (rule caches_kept) (auto intro!: frame)
  have unmount: "wp (unmountVolume env mc t) (\<lambda>_. ?same s2) s2" for mc t s2
    by (rule caches_kept) (auto intro!: frame)
  have mount: "wp (load_and_mount env pvp t os f g) (\<lambda>_. ?same s2) s2" for pvp t os f g s2
    by (rule caches_kept) (auto intro!: frame)
  have save: "wp (SaveState env sm st') (\<lambda>_. ?same s2) s2" for sm st' and s2 :: node
    by (rule caches_kept) (auto intro!: frame)
  have target: "wp (remount_target env cf st ?p) (\<lambda>r s'. others_kept ?v ?p s s' \<and> cached_right ?v ?p s'
      \<and> (r = Inr False \<longrightarrow> staged_at s' ?v = None)) s"
    using assms by (auto simp: remount_target_def rebuildStagedVolumeAfterRemount_def wp others_kept_def cached_right_def
        split: sum.split intro!: wp_mono [OF prep] wp_mono [OF clean])
  have clear: "wp (remount_clear env ?p) (\<lambda>_. ?free) s2" if "?free s2" for s2
    using that by (auto simp: remount_clear_def mkdir_all_def wp others_kept_def split: option.split
        intro!: wp_mono [OF force] wp_mono [OF unmount])
  have finish: "wp (remount_finish env cf st ?p mc) (\<lambda>_ s'. others_kept ?v ?p s s' \<and> cached_right ?v ?p s') s2"
    if "?free s2" for s2 mc
    using that by (auto simp: remount_finish_def wp others_kept_def cached_right_def split: option.split
        intro!: wp_mono [OF save])
  have free: "?free s' \<Longrightarrow> cached_right ?v ?p s'" for s' by (simp add: cached_right_def)
  show ?thesis
  proof (cases "Validate (Some st)")
    case None
    show ?thesis
      unfolding RemountState_def None option.case Let_def remount_path_def [symmetric] wp_bind
      by (rule wp_mono [OF target])
        (auto simp: wp free others_kept_def split: sum.split intro!: wp_mono [OF clear] wp_mono [OF mount] wp_mono [OF finish])
  next
    case (Some e)
    with assms show ?thesis by (simp add: RemountState_def wp others_kept_def cached_right_def)
  qed
qed

lemma remount_each_agree:
  assumes "inj sp" and "caches_agree sp s" and "distinct (map ms_volumeID sts)"
    and "\<forall>st \<in> set sts. remount_path st = sp (ms_volumeID st) \<and> staged_at s (ms_volumeID st) = None"
  shows "wp (remount_each env cf sts n) (\<lambda>_ s'. caches_agree sp s') s"
  using assms(2-4)
proof (induction sts arbitrary: n s)
  case (Cons st sts)
  let ?v = "ms_volumeID st"
  have path: "remount_path st = sp ?v" "staged_at s ?v = None" using Cons.prems(3) by auto
  show ?case
    unfolding remount_each.simps wp_bind
  proof (rule wp_mono [OF remount_cached [OF path(2)]], unfold path(1), elim conjE)
    fix r :: "gerr + unit" and s1
    assume kept: "others_kept ?v (sp ?v) s s1" and right: "cached_right ?v (sp ?v) s1"
    have "staged_at s1 (ms_volumeID x) = None" if "x \<in> set sts" for x
    proof -
      have "ms_volumeID x \<noteq> ?v" using Cons.prems(2) that by (force simp: image_iff)
      then have "staged_at s1 (ms_volumeID x) = staged_at s (ms_volumeID x)"
        using kept unfolding others_kept_def by (blast intro: upd_other)
      then show ?thesis using Cons.prems(3) that by simp
    qed
    then show "wp (remount_each env cf sts (case r of Inl _ \<Rightarrow> Suc n | Inr _ \<Rightarrow> n)) (\<lambda>_. caches_agree sp) s1"
      using Cons.IH [OF caches_agree_kept [OF assms(1) Cons.prems(1) kept right]] Cons.prems(2,3) by auto
  qed
qed (simp add: wp)

section \<open>Properties\<close>

lemma fresh_staging: "caches_agree sp initial_node" "staged_volumes initial_node = {}"
  by (auto simp: caches_agree_def cached_right_def staged_volumes_def initial_node_def staged_at_def)

text \<open>
  Property C7: the node server in staging mode refines the abstract one. Kubelet gives every volume a
  staging path of its own. Whatever sequence of stages, unstages, publishes, unpublishes and statistics it then
  calls on a fresh server, and whatever the outside answers, the results and the staged volumes at the end
  are those of a run of the abstract server: a successful stage or publish has its volume staged, an unstage
  takes it out, and no other volume is touched, however the call ends.
\<close>

theorem staging_refines_view:
  assumes "inj sp" and "cf_staging cf" and "\<forall>c \<in> set cs. names_path sp c"
    and "run_state (exec_calls (exec_staged env cf) cs) initial_node = (bs, s')"
  shows "spec_calls spec_staged cs bs {} (staged_volumes s')"
  using staging.refines_calls [OF assms(3) _ assms(4)] assms(1,2) fresh_staging by simp

text \<open>
  Property C8: a staged volume is mounted where the server says. A server that has remounted its
  saved states, one for each volume, and then served any calls by which kubelet names each volume's own staging
  path, has each staged volume in the cache under its ID, at its path, and with the mount context
  that an unstage of the path will unmount; the two caches never come apart.
\<close>

theorem staging_caches_agree:
  assumes "inj sp" and "cf_staging cf" and "distinct (map ms_volumeID sts)"
    and "\<forall>st \<in> set sts. remount_path st = sp (ms_volumeID st)" and "\<forall>c \<in> set cs. names_path sp c"
    and "run_state (remount_each env cf sts 0) initial_node = (n, s)"
    and "run_state (exec_calls (exec_staged env cf) cs) s = (bs, s')" and "staged_at s' v = Some sv"
  shows "sv_volumeID sv = v \<and> sv_stagingPath sv = sp v \<and> sv_mountCtx sv = mount_at s' (sp v)"
proof -
  have "\<forall>st \<in> set sts. remount_path st = sp (ms_volumeID st) \<and> staged_at initial_node (ms_volumeID st) = None"
    using assms(4) by (simp add: initial_node_def staged_at_def)
  from wp_runD [OF remount_each_agree [OF assms(1) fresh_staging(1) assms(3) this] assms(6)]
  have "caches_agree sp s'" using staging.refines_calls [OF assms(5) _ assms(7)] assms(1,2) by simp
  then show ?thesis using assms(8) by (simp add: caches_agree_def cached_right_def)
qed

text \<open>
  Property C30: volumes are isolated. After a stage or publish of a volume has succeeded, calls for other volumes,
  unpublishes and statistics leave it staged at its path, however they end.
\<close>

theorem staged_volume_isolated:
  assumes "inj sp" and "cf_staging cf" and "\<forall>d \<in> set (cs @ c # ds). names_path sp d"
    and "run_state (exec_calls (exec_staged env cf) (cs @ c # ds)) initial_node = (bs, s')"
    and "makes_staged v c" and "bs ! length cs" and "\<forall>d \<in> set ds. \<not> concerns v d"
  shows "\<exists>sv. staged_at s' v = Some sv \<and> sv_stagingPath sv = sp v"
proof -
  have fresh: "inj sp \<and> cf_staging cf \<and> caches_agree sp initial_node" using assms(1,2) fresh_staging by blast
  have "v \<in> staged_volumes s'" by (rule staged_volume.effect_lasts [OF assms(3) fresh assms(4-7)])
  moreover have "caches_agree sp s'" using staging.refines_calls [OF assms(3) fresh assms(4)] by blast
  ultimately show ?thesis by (auto simp: staged_volumes_def caches_agree_def cached_right_def)
qed

section \<open>An example\<close>

text \<open>Kubelet's directory of a volume; a publish of one volume and the end of another.\<close>

definition example_path :: "string \<Rightarrow> string" where
  "example_path v = ''/stg/'' @ v @ ''/globalmount''"

definition example_bind :: staged_rpc where
  "example_bind = BindCall ((example_req ''/t'')\<lparr>stagingTargetPath := example_path ''vol''\<rparr>)"

definition example_staged_calls :: "staged_rpc list" where
  "example_staged_calls = [UnstageCall ''old'' (example_path ''old''), UsageCall ''vol'' ''/t'']"

lemma example_staging:
  "inj example_path" "cf_staging staging_cf" "\<forall>c \<in> set (example_bind # example_staged_calls). names_path example_path c"
  by (simp_all add: inj_def example_path_def staging_cf_def example_bind_def example_staged_calls_def example_req_def)

definition example_served :: "bool list \<times> node" where
  "example_served = run_state (exec_calls (exec_staged (select_env ResultReady) staging_cf)
     (example_bind # example_staged_calls)) initial_node"

lemma example_served_second: "fst example_served ! length []"
  by code_simp

lemma example_bind_makes: "makes_staged ''vol'' example_bind" "\<forall>d \<in> set example_staged_calls. \<not> concerns ''vol'' d"
  by (simp_all add: makes_staged_def example_bind_def example_staged_calls_def example_req_def)

text \<open>The same calls after a restart that finds the volume \<open>old\<close> still mounted.\<close>

definition mounted_env :: env where
  "mounted_env = (select_env ResultReady)\<lparr>os_of := example_os\<lparr>isLikelyNotMountPoint := \<lambda>h p. Inr False\<rparr>\<rparr>"

definition example_old :: mount_state where
  "example_old = example_state\<lparr>ms_volumeID := ''old'', ms_stagingPath := example_path ''old'',
     ms_targetPath := example_path ''old''\<rparr>"

definition example_remounted :: "nat \<times> node" where
  "example_remounted = run_state (remount_each mounted_env staging_cf [example_old] 0) initial_node"

definition example_restarted :: "bool list \<times> node" where
  "example_restarted = run_state (exec_calls (exec_staged mounted_env staging_cf)
     [example_bind, UsageCall ''vol'' ''/t'']) (snd example_remounted)"

lemma example_restarted_staged: "staged_at (snd example_restarted) ''old'' \<noteq> None"
  by code_simp

lemma example_old_path: "\<forall>st \<in> set [example_old]. remount_path st = example_path (ms_volumeID st)"
  by (simp add: example_old_def remount_path_def example_path_def)

theorem staging_refines_view_witness:
  "spec_calls spec_staged (example_bind # example_staged_calls) (fst example_served) {} (staged_volumes (snd example_served))"
  by (rule staging_refines_view [OF example_staging, where env = "select_env ResultReady"]) (simp add: example_served_def)

theorem staging_caches_agree_witness:
  "\<exists>sv. staged_at (snd example_restarted) ''old'' = Some sv
     \<and> sv_mountCtx sv = mount_at (snd example_restarted) (example_path ''old'')"
proof -
  obtain sv where sv: "staged_at (snd example_restarted) ''old'' = Some sv" using example_restarted_staged by blast
  have served: "\<forall>c \<in> set [example_bind, UsageCall ''vol'' ''/t'']. names_path example_path c"
    using example_staging(3) by simp
  have "sv_volumeID sv = ''old'' \<and> sv_stagingPath sv = example_path ''old''
      \<and> sv_mountCtx sv = mount_at (snd example_restarted) (example_path ''old'')"
    by (rule staging_caches_agree [OF example_staging(1,2) _ example_old_path served _ _ sv,
          where env = mounted_env and s = "snd example_remounted"])
      (simp_all add: example_remounted_def example_restarted_def prod_eq_iff)
  with sv show ?thesis by blast
qed

theorem staged_volume_isolated_witness:
  "\<exists>sv. staged_at (snd example_served) ''vol'' = Some sv \<and> sv_stagingPath sv = example_path ''vol''"
  by (rule staged_volume_isolated [OF example_staging(1,2) _ _ example_bind_makes(1) example_served_second example_bind_makes(2),
        where env = "select_env ResultReady"])
    (use example_staging(3) in \<open>simp_all add: example_served_def\<close>)

end
