(* ===== verification/Op_World.thy ===== *)
theory Op_World
  imports Mount_Health Go_Paths Example_Env
begin

text \<open>
  The surroundings of the volume recovery operator (pkg/operator): the Kubernetes objects it
  reads, and the answers of the node and of the API server, which \<open>op_env\<close> adds to the \<open>env\<close>
  of World. As there, an answer is a function of the calls made so far.
\<close>

section \<open>Kubernetes objects\<close>

text \<open>The fields of \<open>metav1.OwnerReference\<close>, \<open>corev1.Volume\<close> and \<open>corev1.Pod\<close> that the code reads.\<close>

record owner_ref =
  or_apiVersion :: string
  or_kind :: string
  or_name :: string
  or_uid :: string
  or_controller :: "bool option"

record pod_volume =
  pvol_name :: string
  pvol_csiDriver :: "string option"
  pvol_claim :: "string option"

record pod =
  pod_namespace :: string
  pod_name :: string
  pod_uid :: string
  pod_owners :: "owner_ref list"
  pod_annotations :: smap
  pod_volumes :: "pod_volume list"
  pod_created :: int
  pod_conditions :: "(string \<times> string) list"

datatype umount_err = EINVAL | ENOENT | UmountOther string

section \<open>Answers\<close>

text \<open>
  A directory tree as \<open>filepath.WalkDir\<close> meets it. A directory has its name, the error its
  listing ends with, if any, and the entries listed; anything else is \<open>NonDir\<close>.
\<close>

datatype dtree = Dir string "os_err option" "dtree list" | NonDir string

primrec entry_name :: "dtree \<Rightarrow> string" where
  "entry_name (Dir n e ts) = n"
| "entry_name (NonDir n) = n"

text \<open>
  \<open>walkTree\<close> is the tree below the root of a walk (an error when the root cannot be
  examined), \<open>dirList\<close> a listing with the entries' \<open>IsDir\<close>. \<open>pvcGet\<close> answers with the volume name
  of the claim, \<open>pvGet\<close> with the CSI driver of the volume, \<open>ownerGet\<close> with the annotations of the
  owner. \<open>conflictRetries\<close> is how often \<open>retry.RetryOnConflict\<close> runs its function again after a
  conflict. \<open>rfc3339_format\<close> and \<open>rfc3339_parse\<close> are Go's, for times in nanoseconds.
\<close>

record op_env =
  base :: env
  fileRead :: "history \<Rightarrow> string \<Rightarrow> os_err + string"
  fileWrite :: "history \<Rightarrow> string \<Rightarrow> string \<Rightarrow> os_err option"
  dirList :: "history \<Rightarrow> string \<Rightarrow> os_err + (string \<times> bool) list"
  walkTree :: "history \<Rightarrow> string \<Rightarrow> os_err + dtree"
  pathExists :: "history \<Rightarrow> string \<Rightarrow> bool"
  umountDetach :: "history \<Rightarrow> string \<Rightarrow> umount_err option"
  signalProcess :: "history \<Rightarrow> int \<Rightarrow> bool \<Rightarrow> os_err option"
  ownPid :: int
  podsOnNode :: "history \<Rightarrow> string \<Rightarrow> string \<Rightarrow> api_err + pod list"
  podsIn :: "history \<Rightarrow> string \<Rightarrow> api_err + pod list"
  podDelete :: "history \<Rightarrow> string \<Rightarrow> string \<Rightarrow> string \<Rightarrow> api_err option"
  podUpdate :: "history \<Rightarrow> string \<Rightarrow> string \<Rightarrow> smap \<Rightarrow> api_err option"
  ownerGet :: "history \<Rightarrow> string \<Rightarrow> string \<Rightarrow> string \<Rightarrow> api_err + smap"
  ownerUpdate :: "history \<Rightarrow> string \<Rightarrow> string \<Rightarrow> string \<Rightarrow> smap \<Rightarrow> api_err option"
  pvcGet :: "history \<Rightarrow> string \<Rightarrow> string \<Rightarrow> api_err + string"
  pvGet :: "history \<Rightarrow> string \<Rightarrow> api_err + string option"
  conflictRetries :: nat
  rfc3339_format :: "int \<Rightarrow> string"
  rfc3339_parse :: "string \<Rightarrow> int option"

section \<open>Kinds of calls\<close>

text \<open>
  The calls that change something outside the operator, by what they change; the other calls
  only look. Statements about what a function can do are \<open>adds\<close> over these.
\<close>

fun pod_deleting :: "ev \<Rightarrow> bool" where
  "pod_deleting (Op (PodDelete _ _ _)) = True"
| "pod_deleting _ = False"

fun umounting :: "ev \<Rightarrow> bool" where
  "umounting (Op (UmountDetach _)) = True"
| "umounting _ = False"

fun harms_processes :: "ev \<Rightarrow> bool" where
  "harms_processes (Op (FileWrite _ _)) = True"
| "harms_processes (Op (SignalProcess _ _)) = True"
| "harms_processes _ = False"

fun looking :: "ev \<Rightarrow> bool" where
  "looking (Os (ReadDir _)) = True"
| "looking (Os ListMounts) = True"
| "looking Select = True"
| "looking Now = True"
| "looking (Op (FileRead _)) = True"
| "looking (Op (DirList _)) = True"
| "looking (Op (WalkRoot _)) = True"
| "looking (Op (WalkRead _)) = True"
| "looking (Op (PathStat _)) = True"
| "looking (Op (ListPodsOnNode _ _)) = True"
| "looking (Op (ListPodsIn _)) = True"
| "looking (Op (OwnerGet _ _ _)) = True"
| "looking (Op (PvcGet _ _)) = True"
| "looking (Op (PvGet _)) = True"
| "looking _ = False"

lemma looking_harmless:
  "looking e \<Longrightarrow> \<not> pod_deleting e \<and> \<not> umounting e \<and> \<not> harms_processes e"
  by (cases e rule: looking.cases) auto

lemma adds_looking: "adds looking m \<Longrightarrow> adds (\<lambda>e. \<not> pod_deleting e) m"
  by (erule adds_mono) (simp add: looking_harmless)

section \<open>Files\<close>

definition read_file :: "op_env \<Rightarrow> string \<Rightarrow> ('w world_scheme, os_err + string) state" where
  "read_file oe path = call (Op (FileRead path)) (\<lambda>h. fileRead oe h path)"

lemma adds_read_file [frame]: "adds looking (read_file oe path)"
  by (simp add: read_file_def frame)

lemma keeps_read_file [frame]: "off_world p \<Longrightarrow> keeps p (read_file oe path)"
  by (simp add: read_file_def frame)

section \<open>An example\<close>

text \<open>
  A node with one pod, \<open>u1\<close> of the ReplicaSet \<open>web\<close>, whose volume \<open>data\<close> is stale, next to a
  volume of another driver. The JSON reader of the example takes a file's text for the driver's
  name. As for \<open>example_env\<close>, nothing here models code.
\<close>

definition example_driver :: string where "example_driver = ''rclone.csi.veloxpack.io''"

definition stale_err :: os_err where
  "stale_err = \<lparr>oe_msg = ''transport endpoint is not connected'', oe_not_exist = False, oe_corrupted = True\<rparr>"

definition csi_dir :: string where "csi_dir = ''/k/pods/u1/volumes/kubernetes.io~csi''"

definition example_base :: env where
  "example_base = example_env
     \<lparr>lib_of := example_lib\<lparr>map_of_json := (\<lambda>s. Some [(''driverName'', s)])\<rparr>,
      os_of := example_os\<lparr>readDir := (\<lambda>h p. if p = csi_dir @ ''/data/mount'' then Some stale_err else None)\<rparr>\<rparr>"

definition example_tree :: dtree where
  "example_tree = Dir ''pods'' None [Dir ''u1'' None [Dir ''volumes'' None [Dir ''kubernetes.io~csi'' None
     [Dir ''data'' None [Dir ''mount'' None [NonDir ''file''], NonDir ''vol_data.json''],
      Dir ''foreign'' None [Dir ''mount'' None []]]]]]"

definition example_pod :: "string \<Rightarrow> string \<Rightarrow> pod" where
  "example_pod name uid =
     \<lparr>pod_namespace = ''default'', pod_name = name, pod_uid = uid,
      pod_owners = [\<lparr>or_apiVersion = ''apps/v1'', or_kind = ''ReplicaSet'', or_name = ''web'', or_uid = ''rs1'', or_controller = Some True\<rparr>],
      pod_annotations = [], pod_volumes = [\<lparr>pvol_name = ''data'', pvol_csiDriver = Some example_driver, pvol_claim = None\<rparr>],
      pod_created = 0, pod_conditions = [(''Ready'', ''True'')]\<rparr>"

definition example_op :: op_env where
  "example_op = \<lparr>base = example_base,
     fileRead = (\<lambda>h p. if p = csi_dir @ ''/data/vol_data.json'' then Inr example_driver
                      else if p = csi_dir @ ''/foreign/vol_data.json'' then Inr ''other'' else Inl no_os_err),
     fileWrite = (\<lambda>h p d. None), dirList = (\<lambda>h p. Inr []), walkTree = (\<lambda>h p. Inr example_tree),
     pathExists = (\<lambda>h p. False), umountDetach = (\<lambda>h p. None), signalProcess = (\<lambda>h p k. None), ownPid = 100,
     podsOnNode = (\<lambda>h n l. Inr [example_pod ''web-1'' ''u1'', example_pod ''web-2'' ''u2'']),
     podsIn = (\<lambda>h n. Inr [example_pod ''web-1'' ''u1'', example_pod ''web-2'' ''u2'']),
     podDelete = (\<lambda>h ns n u. None), podUpdate = (\<lambda>h ns n a. None),
     ownerGet = (\<lambda>h k ns n. Inr []), ownerUpdate = (\<lambda>h k ns n a. None),
     pvcGet = (\<lambda>h ns n. Inl NotFound), pvGet = (\<lambda>h n. Inl NotFound), conflictRetries = 4,
     rfc3339_format = (\<lambda>t. int_text (t div 1000000000)), rfc3339_parse = (\<lambda>s. map_option (\<lambda>n. n * 1000000000) (atoi s))\<rparr>"

lemmas example_op_defs = example_op_def example_base_def example_defs

end
