(* ===== verification/Op_Scan.thy ===== *)
theory Op_Scan
  imports Op_World
begin

text \<open>
  The scan for stale mounts (pkg/operator/scanner.go, vol_data.go): kubelet's layout of CSI
  mount paths, the ownership of a mount by its \<open>vol_data.json\<close>, and the walk over kubelet's pod
  volumes that probes the mounts.
\<close>

section \<open>CSI mount paths\<close>

definition csiVolumeDirSegment :: string where "csiVolumeDirSegment = ''kubernetes.io~csi''"
definition mountDirName :: string where "mountDirName = ''mount''"
definition volDataFileName :: string where "volDataFileName = ''vol_data.json''"

text \<open>The loop over the path elements keeps, for a name, the last index it is found at.\<close>

fun last_index :: "string \<Rightarrow> nat \<Rightarrow> string list \<Rightarrow> nat option \<Rightarrow> nat option" where
  "last_index x i [] found = found"
| "last_index x i (part # parts) found = last_index x (Suc i) parts (if part = x then Some i else found)"

definition ParseCSIMountPath :: "string \<Rightarrow> (string \<times> string) option" where
  "ParseCSIMountPath path =
     (let parts = split_on (CHR ''/'') (path_Clean path) in
      case (last_index ''pods'' 0 parts None, last_index csiVolumeDirSegment 0 parts None) of
        (Some podsIdx, Some csiIdx) \<Rightarrow>
          if length parts \<le> podsIdx + 1 \<or> length parts \<le> csiIdx + 1 then None
          else (let podUID = parts ! (podsIdx + 1); volumeName = parts ! (csiIdx + 1) in
                if podUID = '''' \<or> volumeName = '''' then None
                else if last parts \<noteq> mountDirName then None
                else Some (podUID, volumeName))
      | _ \<Rightarrow> None)"

section \<open>Ownership of a mount\<close>

definition ReadCSIDriverName :: "op_env \<Rightarrow> string \<Rightarrow> ('w world_scheme, gerr + string) state" where
  "ReadCSIDriverName oe volumeDir = do {
     data \<leftarrow> read_file oe (path_Join [volumeDir, volDataFileName]);
     case data of
       Inl e \<Rightarrow> fail (OsError e)
     | Inr d \<Rightarrow>
         (case map_of_json (lib_of (base oe)) d of
            None \<Rightarrow> fail (Wrapf ''parse %s: %w'' [S volDataFileName] (ExtError ''json''))
          | Some fs \<Rightarrow>
              if mget fs ''driverName'' = ''''
              then fail (Errorf ''%s missing driverName'' [S volDataFileName])
              else ok (mget fs ''driverName'')) }"

text \<open>\<open>(managed, known)\<close>.\<close>

definition CSIMountManagedBy :: "op_env \<Rightarrow> string \<Rightarrow> string \<Rightarrow> ('w world_scheme, bool \<times> bool) state" where
  "CSIMountManagedBy oe mountPath provisioner =
     (if provisioner = '''' then State_Monad.return (True, True)
      else do {
        r \<leftarrow> ReadCSIDriverName oe (path_Dir mountPath);
        State_Monad.return (case r of Inl _ \<Rightarrow> (False, False) | Inr driver \<Rightarrow> (driver = provisioner, True)) })"

fun local_volumes ::
    "op_env \<Rightarrow> string \<Rightarrow> string \<Rightarrow> (string \<times> bool) list \<Rightarrow> bool \<Rightarrow> ('w world_scheme, bool \<times> bool) state" where
  "local_volumes oe csiDir provisioner [] unreadable = State_Monad.return (False, \<not> unreadable)"
| "local_volumes oe csiDir provisioner ((name, isDir) # es) unreadable =
     (if \<not> isDir then local_volumes oe csiDir provisioner es unreadable
      else do {
        r \<leftarrow> ReadCSIDriverName oe (path_Join [csiDir, name]);
        case r of
          Inl _ \<Rightarrow> local_volumes oe csiDir provisioner es True
        | Inr driver \<Rightarrow>
            if driver = provisioner then State_Monad.return (True, True)
            else local_volumes oe csiDir provisioner es unreadable })"

text \<open>\<open>(has, known)\<close>.\<close>

definition PodHasLocalProvisionerVolume ::
    "op_env \<Rightarrow> string \<Rightarrow> string \<Rightarrow> string \<Rightarrow> ('w world_scheme, bool \<times> bool) state" where
  "PodHasLocalProvisionerVolume oe kubeletDir podUID provisioner =
     (if provisioner = '''' \<or> podUID = '''' then State_Monad.return (False, True)
      else do {
        let csiDir = path_Join [kubeletDir, ''pods'', podUID, ''volumes'', csiVolumeDirSegment];
        r \<leftarrow> call (Op (DirList csiDir)) (\<lambda>h. dirList oe h csiDir);
        case r of
          Inl e \<Rightarrow> State_Monad.return (False, oe_not_exist e)
        | Inr entries \<Rightarrow> local_volumes oe csiDir provisioner entries False })"

text \<open>The mounter of the operator is never nil.\<close>

definition rclone_entry :: "string \<Rightarrow> mount_entry \<Rightarrow> bool" where
  "rclone_entry path m \<longleftrightarrow> path_Clean (me_path m) = path_Clean path
     \<and> (toLower (me_type m) = ''fuse.rclone'' \<or> contains_str (toLower (me_type m)) ''rclone'')"

definition IsRcloneFUSEMount :: "op_env \<Rightarrow> string \<Rightarrow> ('w world_scheme, bool) state" where
  "IsRcloneFUSEMount oe path = do {
     mounts \<leftarrow> call (Os ListMounts) (\<lambda>h. listMounts (os_of (base oe)) h);
     State_Monad.return (case mounts of Inl _ \<Rightarrow> False | Inr ms \<Rightarrow> list_ex (rclone_entry path) ms) }"

section \<open>The scan\<close>

record stale_mount =
  stale_podUID :: string
  stale_volumeName :: string
  stale_mountPath :: string
  stale_reason :: reason

text \<open>The probe as \<open>ConfigureMountProbe\<close> sets it up for a timeout.\<close>

definition mountPathCorruptedProbe :: "op_env \<Rightarrow> int \<Rightarrow> string \<Rightarrow> ('w world_scheme, bool \<times> reason) state" where
  "mountPathCorruptedProbe oe timeout path =
     (if timeout \<le> 0 then IsMountPathCorrupted (base oe) path
      else IsMountPathCorruptedWithTimeout (base oe) path timeout)"

text \<open>
  What is done with a directory named \<open>mount\<close>; whatever it is, the walk does not enter it
  (\<open>filepath.SkipDir\<close>). A mount without \<open>vol_data.json\<close> counts when it is mounted by rclone.
\<close>

definition foreign_mount :: "op_env \<Rightarrow> string \<Rightarrow> string \<Rightarrow> ('w world_scheme, bool) state" where
  "foreign_mount oe provisioner path =
     (if provisioner = '''' then State_Monad.return False
      else do {
        (managed, known) \<leftarrow> CSIMountManagedBy oe path provisioner;
        if known \<and> \<not> managed then State_Monad.return True
        else if \<not> known then do {
          fuse \<leftarrow> IsRcloneFUSEMount oe path;
          State_Monad.return (\<not> fuse) }
        else State_Monad.return False })"

definition scan_mount :: "op_env \<Rightarrow> int \<Rightarrow> string \<Rightarrow> string \<Rightarrow> ('w world_scheme, stale_mount list) state" where
  "scan_mount oe timeout provisioner path =
     (case ParseCSIMountPath path of
        None \<Rightarrow> State_Monad.return []
      | Some (podUID, volumeName) \<Rightarrow> do {
          foreign \<leftarrow> foreign_mount oe provisioner path;
          if foreign then State_Monad.return []
          else do {
            (corrupted, why) \<leftarrow> mountPathCorruptedProbe oe timeout path;
            State_Monad.return (if corrupted
              then [\<lparr>stale_podUID = podUID, stale_volumeName = volumeName, stale_mountPath = path, stale_reason = why\<rparr>]
              else []) } })"

text \<open>
  \<open>filepath.WalkDir\<close> with the callback of the scan, over the tree below a root. The callback
  ignores every error the walk reports, so what could be listed of a directory is walked.
\<close>

fun walk_dir :: "op_env \<Rightarrow> int \<Rightarrow> string \<Rightarrow> string \<Rightarrow> dtree \<Rightarrow> ('w world_scheme, stale_mount list) state"
and walk_entries :: "op_env \<Rightarrow> int \<Rightarrow> string \<Rightarrow> string \<Rightarrow> dtree list \<Rightarrow> ('w world_scheme, stale_mount list) state" where
  "walk_dir oe timeout provisioner path (NonDir n) = State_Monad.return []"
| "walk_dir oe timeout provisioner path (Dir n err ts) =
     (if path_Base path = mountDirName then scan_mount oe timeout provisioner path
      else do { emit (Op (WalkRead path)); walk_entries oe timeout provisioner path ts })"
| "walk_entries oe timeout provisioner path [] = State_Monad.return []"
| "walk_entries oe timeout provisioner path (t # ts) = do {
     found \<leftarrow> walk_dir oe timeout provisioner (path_Join [path, entry_name t]) t;
     more \<leftarrow> walk_entries oe timeout provisioner path ts;
     State_Monad.return (found @ more) }"

text \<open>No callback returns an error, so the scan never fails.\<close>

definition ScanStaleMounts :: "op_env \<Rightarrow> int \<Rightarrow> string \<Rightarrow> string \<Rightarrow> ('w world_scheme, stale_mount list) state" where
  "ScanStaleMounts oe timeout kubeletDir provisioner = do {
     let podsDir = path_Join [kubeletDir, ''pods''];
     root \<leftarrow> call (Op (WalkRoot podsDir)) (\<lambda>h. walkTree oe h podsDir);
     case root of
       Inl _ \<Rightarrow> State_Monad.return []
     | Inr t \<Rightarrow> walk_dir oe timeout provisioner podsDir t }"

section \<open>Only looking\<close>

lemma adds_ownership [frame]:
  "adds looking (ReadCSIDriverName oe d)" "adds looking (CSIMountManagedBy oe path provisioner)"
  "adds looking (IsRcloneFUSEMount oe path)" "adds looking (foreign_mount oe provisioner path)"
  by (auto simp: ReadCSIDriverName_def CSIMountManagedBy_def IsRcloneFUSEMount_def foreign_mount_def intro!: frame)

lemma adds_local_volumes [frame]: "adds looking (local_volumes oe csiDir provisioner es u)"
  by (induction oe csiDir provisioner es u rule: local_volumes.induct) (auto intro!: frame)

lemma adds_PodHasLocal [frame]: "adds looking (PodHasLocalProvisionerVolume oe kubeletDir uid provisioner)"
  by (auto simp: PodHasLocalProvisionerVolume_def Let_def intro!: frame)

lemma adds_mount_probe [frame]: "adds looking (mountPathCorruptedProbe oe timeout path)"
  by (auto simp: mountPathCorruptedProbe_def IsMountPathCorruptedWithTimeout_def
      probeMountPathWithTimeout_def intro!: frame)

lemma keeps_ReadCSIDriverName [frame]: "off_world p \<Longrightarrow> keeps p (ReadCSIDriverName oe d)"
  by (auto simp: ReadCSIDriverName_def intro!: frame)

lemma keeps_CSIMountManagedBy [frame]: "off_world p \<Longrightarrow> keeps p (CSIMountManagedBy oe path provisioner)"
  by (auto simp: CSIMountManagedBy_def intro!: frame)

lemma keeps_local_volumes [frame]: "off_world p \<Longrightarrow> keeps p (local_volumes oe csiDir provisioner es u)"
  by (induction oe csiDir provisioner es u rule: local_volumes.induct) (auto intro!: frame)

lemma keeps_PodHasLocal [frame]: "off_world p \<Longrightarrow> keeps p (PodHasLocalProvisionerVolume oe kubeletDir uid provisioner)"
  by (auto simp: PodHasLocalProvisionerVolume_def Let_def intro!: frame)

lemma keeps_mount_probe [frame]: "off_world p \<Longrightarrow> keeps p (mountPathCorruptedProbe oe timeout path)"
  by (auto simp: mountPathCorruptedProbe_def IsMountPathCorruptedWithTimeout_def
      probeMountPathWithTimeout_def intro!: frame)

section \<open>Kubelet's layout\<close>

lemma last_index_append:
  "last_index x i (ps @ qs) found = last_index x (i + length ps) qs (last_index x i ps found)"
  by (induction ps arbitrary: i found) auto

text \<open>The publish path of a volume of a pod, as kubelet lays it out.\<close>

definition csi_publish_path :: "string \<Rightarrow> string \<Rightarrow> string \<Rightarrow> string" where
  "csi_publish_path kubeletDir podUID volumeName =
     path_Join [kubeletDir, ''pods'', podUID, ''volumes'', csiVolumeDirSegment, volumeName, mountDirName]"

section \<open>Properties\<close>

text \<open>
  Property C27: the path of a published CSI volume is read back as the pod and the volume it is
  for, with one exception. When the volume is named \<open>pods\<close> the last \<open>pods\<close> of the path is that
  of the volume, and the pod is read as \<open>mount\<close>, a pod that does not exist: the scan then takes the
  mount of a live pod for an orphan.
\<close>

theorem ParseCSIMountPath_of_publish_path:
  assumes "list_all path_element ks" and "ks \<noteq> []"
    and "path_element podUID" and "podUID \<noteq> ''pods''"
    and "path_element volumeName" and "volumeName \<noteq> csiVolumeDirSegment"
  shows "ParseCSIMountPath (csi_publish_path (abs_path ks) podUID volumeName)
    = Some (if volumeName = ''pods'' then ''mount'' else podUID, volumeName)"
proof -
  let ?tail = "[''pods'', podUID, ''volumes'', csiVolumeDirSegment, volumeName, mountDirName]"
  let ?parts = "('''' # ks) @ ?tail"
  have tail: "list_all path_element ?tail"
    using assms(3,5) by (simp add: path_element_def csiVolumeDirSegment_def mountDirName_def)
  have clean: "path_Clean (csi_publish_path (abs_path ks) podUID volumeName) = abs_path (ks @ ?tail)"
    using join_abs_path [OF assms(1) tail assms(2)] clean_abs_path(1) [of "ks @ ?tail"] assms(1) tail
    by (simp add: csi_publish_path_def)
  have parts: "split_on (CHR ''/'') (abs_path (ks @ ?tail)) = ?parts"
    using clean_abs_path(2) [of "ks @ ?tail"] assms(1) tail by simp
  have pods: "last_index ''pods'' 0 ?parts None = Some (if volumeName = ''pods'' then length ks + 5 else length ks + 1)"
    using assms(4) unfolding last_index_append by (simp add: csiVolumeDirSegment_def mountDirName_def)
  have csi: "last_index csiVolumeDirSegment 0 ?parts None = Some (length ks + 4)"
    using assms(6) unfolding last_index_append by (simp add: csiVolumeDirSegment_def mountDirName_def)
  have at: "?parts ! (length ks + 1 + 1) = podUID" "?parts ! (length ks + 4 + 1) = volumeName"
    "?parts ! (length ks + 5 + 1) = mountDirName" "last ?parts = mountDirName" "length ?parts = length ks + 7"
    by (simp_all add: nth_append)
  show ?thesis
    unfolding ParseCSIMountPath_def Let_def clean parts pods csi prod.case option.case
    using at assms(3,5)
    by (cases "volumeName = ''pods''") (simp_all add: path_element_def mountDirName_def del: append_Cons)
qed

theorem ParseCSIMountPath_of_publish_path_witness:
  "ParseCSIMountPath ''/var/lib/kubelet/pods/u1/volumes/kubernetes.io~csi/data/mount'' = Some (''u1'', ''data'')
   \<and> ParseCSIMountPath ''/var/lib/kubelet/pods/u1/volumes/kubernetes.io~csi/pods/mount'' = Some (''mount'', ''pods'')"
proof -
  have "list_all path_element [''var'', ''lib'', ''kubelet'']" by (simp add: path_element_def)
  note parse = ParseCSIMountPath_of_publish_path [OF this, of "''u1''"]
  have "csi_publish_path (abs_path [''var'', ''lib'', ''kubelet'']) ''u1'' ''data''
      = ''/var/lib/kubelet/pods/u1/volumes/kubernetes.io~csi/data/mount''"
    "csi_publish_path (abs_path [''var'', ''lib'', ''kubelet'']) ''u1'' ''pods''
      = ''/var/lib/kubelet/pods/u1/volumes/kubernetes.io~csi/pods/mount''"
    by code_simp+
  then show ?thesis
    using parse [of "''data''"] parse [of "''pods''"]
    by (simp add: path_element_def csiVolumeDirSegment_def)
qed

section \<open>What a scan finds\<close>

text \<open>
  The specification of the walk: the directories named \<open>mount\<close> that are reached without passing
  through another one, in the order of the listings.
\<close>

fun mounts_below :: "string \<Rightarrow> dtree \<Rightarrow> string list"
and mounts_among :: "string \<Rightarrow> dtree list \<Rightarrow> string list" where
  "mounts_below path (NonDir n) = []"
| "mounts_below path (Dir n err ts) =
     (if path_Base path = mountDirName then [path] else mounts_among path ts)"
| "mounts_among path [] = []"
| "mounts_among path (t # ts) = mounts_below (path_Join [path, entry_name t]) t @ mounts_among path ts"

text \<open>An environment whose answers do not change during the scan, and in which no probe hangs.\<close>

definition frozen :: "op_env \<Rightarrow> bool" where
  "frozen oe \<longleftrightarrow> (\<forall>h. fileRead oe h = fileRead oe [] \<and> readDir (os_of (base oe)) h = readDir (os_of (base oe)) []
     \<and> listMounts (os_of (base oe)) h = listMounts (os_of (base oe)) [] \<and> \<not> timer_first (base oe) h)"

definition driver_at :: "op_env \<Rightarrow> string \<Rightarrow> string option" where
  "driver_at oe dir =
     (case fileRead oe [] (path_Join [dir, volDataFileName]) of
        Inl _ \<Rightarrow> None
      | Inr d \<Rightarrow> (case map_of_json (lib_of (base oe)) d of
           None \<Rightarrow> None
         | Some m \<Rightarrow> if mget m ''driverName'' = '''' then None else Some (mget m ''driverName'')))"

definition managed_at :: "op_env \<Rightarrow> string \<Rightarrow> string \<Rightarrow> bool" where
  "managed_at oe provisioner path \<longleftrightarrow> provisioner = ''''
     \<or> (case driver_at oe (path_Dir path) of
          Some d \<Rightarrow> d = provisioner
        | None \<Rightarrow> (case listMounts (os_of (base oe)) [] of
             Inl _ \<Rightarrow> False
           | Inr ms \<Rightarrow> list_ex (rclone_entry path) ms))"

definition corrupted_at :: "op_env \<Rightarrow> string \<Rightarrow> bool" where
  "corrupted_at oe path =
     (case readDir (os_of (base oe)) [] path of None \<Rightarrow> False | Some e \<Rightarrow> oe_corrupted e)"

definition stale_at :: "op_env \<Rightarrow> string \<Rightarrow> string \<Rightarrow> bool" where
  "stale_at oe provisioner path \<longleftrightarrow>
     ParseCSIMountPath path \<noteq> None \<and> managed_at oe provisioner path \<and> corrupted_at oe path"

lemma wp_frozen_driver:
  assumes "frozen oe"
  shows "wp (ReadCSIDriverName oe dir) (\<lambda>r _. (case r of Inl _ \<Rightarrow> driver_at oe dir = None | Inr d \<Rightarrow> driver_at oe dir = Some d)) s"
proof -
  have "fileRead oe (trace s) = fileRead oe []" using assms by (simp add: frozen_def)
  then show ?thesis
    by (auto simp: ReadCSIDriverName_def read_file_def wp driver_at_def split: sum.splits option.splits)
qed

lemma wp_frozen_foreign:
  assumes "frozen oe"
  shows "wp (foreign_mount oe provisioner path) (\<lambda>r _. r \<longleftrightarrow> \<not> managed_at oe provisioner path) s"
proof -
  obtain ms where "\<And>h. listMounts (os_of (base oe)) h = ms" using assms by (metis frozen_def)
  then show ?thesis
    by (auto simp: foreign_mount_def CSIMountManagedBy_def IsRcloneFUSEMount_def managed_at_def wp
        split: sum.splits intro!: wp_mono [OF wp_frozen_driver [OF assms]])
qed

lemma wp_frozen_probe:
  assumes "frozen oe"
  shows "wp (mountPathCorruptedProbe oe timeout path) (\<lambda>(c, why) _. c \<longleftrightarrow> corrupted_at oe path) s"
proof -
  obtain d where "\<And>h. readDir (os_of (base oe)) h = d" "\<And>h. \<not> timer_first (base oe) h"
    using assms by (metis frozen_def)
  then show ?thesis
    by (simp add: mountPathCorruptedProbe_def IsMountPathCorruptedWithTimeout_def probeMountPathWithTimeout_def
        IsMountPathCorrupted_def corrupted_at_def wp split: option.splits)
qed

text \<open>What the entries found say: the path they are for, and its pod and volume.\<close>

definition reports :: "string list \<Rightarrow> stale_mount list \<Rightarrow> bool" where
  "reports paths ms \<longleftrightarrow> map stale_mountPath ms = paths
     \<and> list_all (\<lambda>m. ParseCSIMountPath (stale_mountPath m) = Some (stale_podUID m, stale_volumeName m)) ms"

lemma reports_append: "reports ps ms \<Longrightarrow> reports qs ns \<Longrightarrow> reports (ps @ qs) (ms @ ns)"
  by (simp add: reports_def)

lemma wp_frozen_scan_mount:
  assumes "frozen oe"
  shows "wp (scan_mount oe timeout provisioner path) (\<lambda>ms _. reports (filter (stale_at oe provisioner) [path]) ms) s"
  by (auto simp: scan_mount_def wp stale_at_def reports_def split: option.split
      intro!: wp_mono [OF wp_frozen_foreign [OF assms]] wp_mono [OF wp_frozen_probe [OF assms]])

lemma wp_frozen_walk:
  fixes s :: "'w world_scheme"
  assumes "frozen oe"
  shows "wp (walk_dir oe timeout provisioner path t)
      (\<lambda>ms _. reports (filter (stale_at oe provisioner) (mounts_below path t)) ms) s"
    and "wp (walk_entries oe timeout provisioner path ts)
      (\<lambda>ms _. reports (filter (stale_at oe provisioner) (mounts_among path ts)) ms) s"
proof (induction path t and path ts arbitrary: s and s rule: mounts_below_mounts_among.induct)
  case (2 path n err ts)
  then show ?case
    using wp_frozen_scan_mount [OF assms, of timeout provisioner path] by (cases "path_Base path = mountDirName"; cases "stale_at oe provisioner path") (simp_all add: wp)
next
  case (4 path t ts)
  show ?case
    by (auto simp: wp intro!: wp_mono [OF 4(1)] wp_mono [OF 4(2)] reports_append)
qed (simp_all add: wp reports_def)

fun enters_mount :: "ev \<Rightarrow> bool" where
  "enters_mount (Op (WalkRead p)) = (path_Base p = mountDirName)"
| "enters_mount _ = False"

lemma adds_scan_mount [frame]: "adds (\<lambda>e. \<not> enters_mount e) (scan_mount oe timeout provisioner path)"
  unfolding scan_mount_def foreign_mount_def CSIMountManagedBy_def ReadCSIDriverName_def IsRcloneFUSEMount_def
    read_file_def mountPathCorruptedProbe_def IsMountPathCorruptedWithTimeout_def probeMountPathWithTimeout_def
  by (intro frame) simp_all

lemma adds_walk:
  "adds (\<lambda>e. \<not> enters_mount e) (walk_dir oe timeout provisioner path t :: ('w world_scheme, stale_mount list) state)"
  "adds (\<lambda>e. \<not> enters_mount e) (walk_entries oe timeout provisioner path ts :: ('w world_scheme, stale_mount list) state)"
  by (induction path t and path ts rule: mounts_below_mounts_among.induct) (auto intro!: frame)

text \<open>
  Property C20: while nothing changes, a scan reports exactly the stale mounts among the
  directories named \<open>mount\<close> below kubelet's pods, each with the pod and volume of its path,
  and skips those of other drivers; and, whatever the node answers, the walk never lists a
  directory named \<open>mount\<close>, so it does not enter a possibly hung file system.
\<close>

theorem ScanStaleMounts_finds:
  assumes "frozen oe" and "walkTree oe (trace s) (path_Join [kubeletDir, ''pods'']) = Inr t"
  shows "wp (ScanStaleMounts oe timeout kubeletDir provisioner)
      (\<lambda>ms _. reports (filter (stale_at oe provisioner) (mounts_below (path_Join [kubeletDir, ''pods'']) t)) ms) s
    \<and> adds (\<lambda>e. \<not> enters_mount e) (ScanStaleMounts oe timeout kubeletDir provisioner)"
proof
  show "adds (\<lambda>e. \<not> enters_mount e) (ScanStaleMounts oe timeout kubeletDir provisioner)"
    by (auto simp: ScanStaleMounts_def Let_def intro!: frame adds_walk)
qed (simp add: ScanStaleMounts_def Let_def wp assms wp_frozen_walk)

lemma example_op_frozen: "frozen example_op"
  by (simp add: frozen_def example_op_defs)

theorem ScanStaleMounts_finds_witness:
  "let (ms, s') = run_state (ScanStaleMounts example_op 5 ''/k'' example_driver) start
   in map stale_mountPath ms = [csi_dir @ ''/data/mount'']"
proof -
  obtain ms s' where run: "run_state (ScanStaleMounts example_op 5 ''/k'' example_driver) start = (ms, s')" by fastforce
  have root: "walkTree example_op (trace start) (path_Join [''/k'', ''pods'']) = Inr example_tree"
    by (simp add: example_op_def)
  have spec: "filter (stale_at example_op example_driver) (mounts_below (path_Join [''/k'', ''pods'']) example_tree)
      = [csi_dir @ ''/data/mount'']"
    by code_simp
  show ?thesis
    using wp_runD [OF conjunct1 [OF ScanStaleMounts_finds [OF example_op_frozen root]] run]
    unfolding spec run by (simp add: reports_def)
qed

end
