(* ===== verification/Op_Fuse.thy ===== *)
theory Op_Fuse
  imports Op_World
begin

text \<open>
  What the operator does to orphan mounts on the node (pkg/operator/fuse_abort.go,
  orphan_kill.go, orphan_umount.go and their linux variants): reading
  \<open>/proc/self/mountinfo\<close>, aborting a FUSE connection, lazy unmounting, and signalling the
  processes of a mount. The linux files are modelled, the others only return an error.
\<close>

section \<open>mountinfo\<close>

abbreviation backslash :: char where "backslash \<equiv> CHR 0x5C"
abbreviation newline :: char where "newline \<equiv> CHR 0x0A"

fun unescapeMountinfo :: "string \<Rightarrow> string" where
  "unescapeMountinfo [] = []"
| "unescapeMountinfo (c # s) =
     (if c = backslash \<and> 3 \<le> length s
      then (case parse_octal_byte (take 3 s) of
              Some v \<Rightarrow> char_of v # unescapeMountinfo (drop 3 s)
            | None \<Rightarrow> c # unescapeMountinfo s)
      else c # unescapeMountinfo s)"

definition fuse_type :: "string \<Rightarrow> bool" where
  "fuse_type t \<longleftrightarrow> t = ''fuse'' \<or> hasPrefix t ''fuse.''"

text \<open>A line of mountinfo: the fields before and behind the separator.\<close>

definition line_fields :: "string \<Rightarrow> (string list \<times> string list) option" where
  "line_fields line =
     (case cut_str line '' - '' of
        None \<Rightarrow> None
      | Some (l, r) \<Rightarrow>
          if length (fields_of l) < 5 \<or> fields_of r = [] then None
          else Some (fields_of l, fields_of r))"

definition line_conn_id :: "string \<Rightarrow> string \<Rightarrow> string option" where
  "line_conn_id want line =
     (case line_fields line of
        None \<Rightarrow> None
      | Some (left, right) \<Rightarrow>
          if path_Clean (unescapeMountinfo (left ! 4)) \<noteq> want then None
          else if \<not> fuse_type (hd right) then None
          else (case cut_str (left ! 2) '':'' of
                  None \<Rightarrow> None
                | Some (major, minor) \<Rightarrow>
                    if minor = '''' \<or> atoi minor = None then None else Some minor))"

fun first_conn_id :: "string \<Rightarrow> string list \<Rightarrow> string option" where
  "first_conn_id want [] = None"
| "first_conn_id want (l # ls) = (case line_conn_id want l of Some i \<Rightarrow> Some i | None \<Rightarrow> first_conn_id want ls)"

definition ParseFuseConnIDFromMountinfo :: "string \<Rightarrow> string \<Rightarrow> gerr + string" where
  "ParseFuseConnIDFromMountinfo content mountPath =
     (case first_conn_id (path_Clean mountPath) (split_on newline content) of
        Some i \<Rightarrow> Inr i
      | None \<Rightarrow> Inl (Errorf ''fuse mountinfo entry not found for %s'' [S mountPath]))"

definition line_shares :: "string \<Rightarrow> string \<Rightarrow> string \<Rightarrow> bool" where
  "line_shares want connID line =
     (case line_fields line of
        None \<Rightarrow> False
      | Some (left, right) \<Rightarrow>
          fuse_type (hd right)
          \<and> (case cut_str (left ! 2) '':'' of
               None \<Rightarrow> False
             | Some (major, minor) \<Rightarrow> minor = connID \<and> path_Clean (unescapeMountinfo (left ! 4)) \<noteq> want))"

definition fuseConnSharedInMountinfo :: "string \<Rightarrow> string \<Rightarrow> string \<Rightarrow> bool" where
  "fuseConnSharedInMountinfo content mountPath connID =
     list_ex (line_shares (path_Clean mountPath) connID) (split_on newline content)"

definition ResolveFuseConnID :: "op_env \<Rightarrow> string \<Rightarrow> ('w world_scheme, gerr + string) state" where
  "ResolveFuseConnID oe path = do {
     data \<leftarrow> read_file oe ''/proc/self/mountinfo'';
     State_Monad.return (case data of Inl e \<Rightarrow> Inl (OsError e) | Inr d \<Rightarrow> ParseFuseConnIDFromMountinfo d path) }"

definition fuseConnSharedByOtherMount :: "op_env \<Rightarrow> string \<Rightarrow> string \<Rightarrow> ('w world_scheme, gerr + bool) state" where
  "fuseConnSharedByOtherMount oe path connID = do {
     data \<leftarrow> read_file oe ''/proc/self/mountinfo'';
     State_Monad.return (case data of Inl e \<Rightarrow> Inl (OsError e) | Inr d \<Rightarrow> Inr (fuseConnSharedInMountinfo d path connID)) }"

section \<open>Aborting and unmounting\<close>

definition fuseConnectionsRoot :: string where "fuseConnectionsRoot = ''/sys/fs/fuse/connections''"

definition AbortFuseConn :: "op_env \<Rightarrow> string \<Rightarrow> ('w world_scheme, gerr option) state" where
  "AbortFuseConn oe i =
     (if atoi i = None
      then State_Monad.return (Some (Wrapf ''invalid fuse connection id %q: %w'' [S i] (ExtError ''strconv'')))
      else do {
        let abortPath = path_Join [fuseConnectionsRoot, i, ''abort''];
        r \<leftarrow> call (Op (FileWrite abortPath ''1'')) (\<lambda>h. fileWrite oe h abortPath ''1'');
        State_Monad.return (map_option OsError r) })"

definition LazyUmount :: "op_env \<Rightarrow> string \<Rightarrow> ('w world_scheme, umount_err option) state" where
  "LazyUmount oe path = do {
     r \<leftarrow> call (Op (UmountDetach path)) (\<lambda>h. umountDetach oe h path);
     State_Monad.return (case r of None \<Rightarrow> None | Some EINVAL \<Rightarrow> None | Some ENOENT \<Rightarrow> None | Some e \<Rightarrow> Some e) }"

definition ShouldLazyUmountOrphan :: "bool \<Rightarrow> bool \<Rightarrow> bool" where
  "ShouldLazyUmountOrphan enabled podFound \<longleftrightarrow> enabled \<and> \<not> podFound"

definition ShouldAbortOrphanFuse :: "bool \<Rightarrow> bool \<Rightarrow> bool" where
  "ShouldAbortOrphanFuse enabled podFound \<longleftrightarrow> enabled \<and> \<not> podFound"

definition ShouldKillOrphanMountProcess :: "bool \<Rightarrow> bool \<Rightarrow> bool" where
  "ShouldKillOrphanMountProcess enabled podFound \<longleftrightarrow> enabled \<and> \<not> podFound"

section \<open>Killing the mount's processes\<close>

definition MatchMountServerCmdline :: "string \<Rightarrow> string \<Rightarrow> bool" where
  "MatchMountServerCmdline cmdline publishPath \<longleftrightarrow>
     publishPath \<noteq> '''' \<and> cmdline \<noteq> '''' \<and> list_ex (\<lambda>arg. arg = publishPath) (split_on (CHR 0x00) cmdline)"

text \<open>The state letter behind the last closing parenthesis of \<open>/proc/<pid>/stat\<close>.\<close>

definition stat_state :: "string \<Rightarrow> char option" where
  "stat_state d =
     (if CHR '')'' \<notin> set d then None
      else let behind = rev (takeWhile (\<lambda>c. c \<noteq> CHR '')'') (rev d))
           in if length behind < 2 then None else Some (behind ! 1))"

definition proc_file :: "int \<Rightarrow> string \<Rightarrow> string" where
  "proc_file pid f = path_Join [''/proc'', int_text pid, f]"

definition processState :: "op_env \<Rightarrow> int \<Rightarrow> ('w world_scheme, char option) state" where
  "processState oe pid = do {
     data \<leftarrow> read_file oe (proc_file pid ''stat'');
     State_Monad.return (case data of Inl _ \<Rightarrow> None | Inr d \<Rightarrow> stat_state d) }"

definition pidAlive :: "op_env \<Rightarrow> int \<Rightarrow> ('w world_scheme, bool) state" where
  "pidAlive oe pid = call (Op (PathStat (path_Join [''/proc'', int_text pid])))
     (\<lambda>h. pathExists oe h (path_Join [''/proc'', int_text pid]))"

definition killPollInterval :: int where "killPollInterval = 20000000"
definition killGracePeriod :: int where "killGracePeriod = 200000000"

text \<open>
  The wait for a terminated process: poll until it is gone (\<open>Some True\<close>) or the deadline has
  passed (\<open>Some False\<close>). The first argument bounds the rounds; \<open>None\<close> when it runs out, which
  \<open>killPolls\<close> rounds never do on a clock that advances by what is slept (lemma \<open>kill_wait_ends\<close>).
\<close>

definition killPolls :: nat where "killPolls = 11"

fun kill_wait :: "nat \<Rightarrow> op_env \<Rightarrow> int \<Rightarrow> int \<Rightarrow> ('w world_scheme, bool option) state" where
  "kill_wait 0 oe deadline pid = State_Monad.return None"
| "kill_wait (Suc n) oe deadline pid = do {
     now \<leftarrow> call Now (time_now (base oe));
     if \<not> now < deadline then State_Monad.return (Some False)
     else do {
       alive \<leftarrow> pidAlive oe pid;
       if \<not> alive then State_Monad.return (Some True)
       else do {
         emit (Sleep killPollInterval);
         kill_wait n oe deadline pid } } }"

definition signal_process :: "op_env \<Rightarrow> int \<Rightarrow> bool \<Rightarrow> ('w world_scheme, os_err option) state" where
  "signal_process oe pid kill = call (Op (SignalProcess pid kill)) (\<lambda>h. signalProcess oe h pid kill)"

text \<open>\<open>os.FindProcess\<close> always succeeds on Unix.\<close>

definition kill_after_wait :: "op_env \<Rightarrow> int \<Rightarrow> ('w world_scheme, os_err option) state" where
  "kill_after_wait oe pid = do {
     now \<leftarrow> call Now (time_now (base oe));
     gone \<leftarrow> kill_wait killPolls oe (now + killGracePeriod) pid;
     if gone = Some True then State_Monad.return None
     else do {
       alive \<leftarrow> pidAlive oe pid;
       if \<not> alive then State_Monad.return None else signal_process oe pid True } }"

definition signalMountServer :: "op_env \<Rightarrow> int \<Rightarrow> ('w world_scheme, os_err option) state" where
  "signalMountServer oe pid = do {
     st \<leftarrow> processState oe pid;
     if st = Some (CHR ''T'') \<or> st = Some (CHR ''t'') then signal_process oe pid True
     else do {
       r \<leftarrow> signal_process oe pid False;
       case r of Some e \<Rightarrow> State_Monad.return (Some e) | None \<Rightarrow> kill_after_wait oe pid } }"

text \<open>One entry of \<open>/proc\<close>; a failing signal is only logged.\<close>

definition kill_candidate :: "op_env \<Rightarrow> string \<Rightarrow> string \<times> bool \<Rightarrow> ('w world_scheme, unit) state" where
  "kill_candidate oe path e =
     (case e of (name, isDir) \<Rightarrow>
        if \<not> isDir then State_Monad.return ()
        else (case atoi name of
                None \<Rightarrow> State_Monad.return ()
              | Some pid \<Rightarrow>
                  if pid \<le> 1 \<or> pid = ownPid oe then State_Monad.return ()
                  else do {
                    data \<leftarrow> read_file oe (path_Join [''/proc'', name, ''cmdline'']);
                    case data of
                      Inl _ \<Rightarrow> State_Monad.return ()
                    | Inr cmdline \<Rightarrow>
                        if cmdline = '''' \<or> \<not> MatchMountServerCmdline cmdline path then State_Monad.return ()
                        else do { signalMountServer oe pid; State_Monad.return () } }))"

definition BestEffortKillMountServer :: "op_env \<Rightarrow> string \<Rightarrow> ('w world_scheme, os_err option) state" where
  "BestEffortKillMountServer oe path = do {
     entries \<leftarrow> call (Op (DirList ''/proc'')) (\<lambda>h. dirList oe h ''/proc'');
     case entries of
       Inl e \<Rightarrow> State_Monad.return (Some e)
     | Inr es \<Rightarrow> do { for_each es (kill_candidate oe path); State_Monad.return None } }"

section \<open>The mount table behind mountinfo\<close>

text \<open>
  An entry of the kernel's mount table and the line of mountinfo it is written as. The kernel
  writes white space and backslashes of a path as octal escapes.
\<close>

record mountinfo =
  mi_ids :: "string list" \<comment> \<open>mount ID and parent ID\<close>
  mi_major :: string
  mi_minor :: string
  mi_root :: string
  mi_point :: string \<comment> \<open>the mount point, unescaped\<close>
  mi_options :: "string list"
  mi_fstype :: string
  mi_rest :: "string list" \<comment> \<open>source and super options\<close>

definition octal_digit :: "nat \<Rightarrow> char" where
  "octal_digit n = char_of (48 + n mod 8)"

definition needs_escape :: "char \<Rightarrow> bool" where
  "needs_escape c \<longleftrightarrow> is_space c \<or> c = backslash"

fun escape_mountinfo :: "string \<Rightarrow> string" where
  "escape_mountinfo [] = []"
| "escape_mountinfo (c # s) =
     (if needs_escape c
      then [backslash, octal_digit (of_char c div 64), octal_digit (of_char c div 8), octal_digit (of_char c)] @ escape_mountinfo s
      else c # escape_mountinfo s)"

fun unwords :: "string list \<Rightarrow> string" where
  "unwords [] = []"
| "unwords [w] = w"
| "unwords (w # ws) = w @ '' '' @ unwords ws"

definition left_fields :: "mountinfo \<Rightarrow> string list" where
  "left_fields m = mi_ids m @ [mi_major m @ '':'' @ mi_minor m, mi_root m, escape_mountinfo (mi_point m)] @ mi_options m"

definition render_line :: "mountinfo \<Rightarrow> string" where
  "render_line m = unwords (left_fields m) @ '' - '' @ unwords (mi_fstype m # mi_rest m)"

definition render_mountinfo :: "mountinfo list \<Rightarrow> string" where
  "render_mountinfo ms = concat (map (\<lambda>m. render_line m @ [newline]) ms)"

text \<open>A field: not empty, no white space, not the separator.\<close>

definition token :: "string \<Rightarrow> bool" where
  "token w \<longleftrightarrow> w \<noteq> '''' \<and> w \<noteq> ''-'' \<and> list_all (\<lambda>c. \<not> is_space c) w"

definition well_formed :: "mountinfo \<Rightarrow> bool" where
  "well_formed m \<longleftrightarrow> length (mi_ids m) = 2 \<and> list_all token (mi_ids m @ [mi_root m] @ mi_options m @ [mi_fstype m] @ mi_rest m)
     \<and> token (mi_major m) \<and> CHR '':'' \<notin> set (mi_major m) \<and> token (mi_minor m) \<and> atoi (mi_minor m) \<noteq> None
     \<and> mi_point m \<noteq> '''' \<and> hd (mi_point m) = CHR ''/''"

lemma octal_digit_nat: "n < 8 \<Longrightarrow> digit_val (octal_digit n) = Some n"
  by (simp add: digit_val_def octal_digit_def)

lemma octal_digits: "n < 256 \<Longrightarrow> 8 * (8 * (n div 64 mod 8) + n div 8 mod 8) + n mod 8 = (n :: nat)"
proof -
  assume "n < 256"
  then have "n div 64 mod 8 = n div 8 div 8" by (simp add: div_mult2_eq [symmetric])
  moreover have "8 * (n div 8 div 8) + n div 8 mod 8 = n div 8" by (rule mult_div_mod_eq)
  moreover have "8 * (n div 8) + n mod 8 = n" by (rule mult_div_mod_eq)
  ultimately show ?thesis by simp
qed

lemma parse_octal_escape:
  "parse_octal_byte [octal_digit (of_char c div 64), octal_digit (of_char c div 8), octal_digit (of_char c)]
    = Some (of_char (c :: char))"
proof -
  define n where "n = (of_char c :: nat)"
  have n: "n < 256" by (simp add: n_def)
  have digit: "digit_val (octal_digit k) = Some (k mod 8)" for k
    using octal_digit_nat [of "k mod 8"] by (simp add: octal_digit_def)
  have "digits_val 8 [octal_digit (n div 64), octal_digit (n div 8), octal_digit n] 0
      = Some (8 * (8 * (n div 64 mod 8) + n div 8 mod 8) + n mod 8)"
    by (simp only: digits_val.simps digit option.case) simp
  then show ?thesis using n unfolding n_def [symmetric] parse_octal_byte_def octal_digits [OF n] by simp
qed

text \<open>Unescaping undoes the kernel's escaping.\<close>

lemma unescape_escape: "unescapeMountinfo (escape_mountinfo s) = s"
proof (induction s)
  case (Cons c s)
  show ?case
  proof (cases "needs_escape c")
    case True
    then show ?thesis using Cons parse_octal_escape [of c] by simp
  next
    case False
    then have "c \<noteq> backslash" by (simp add: needs_escape_def)
    with False Cons show ?thesis by simp
  qed
qed simp

section \<open>Reading a line back\<close>

lemma token_no_space: "token w \<Longrightarrow> CHR '' '' \<notin> set w"
  by (auto simp: token_def list_all_iff is_space_def Let_def)

lemma cut_step: "\<not> hasPrefix (c # s) sep \<Longrightarrow> cut_str (c # s) sep = map_option (apfst (Cons c)) (cut_str s sep)"
  by (simp add: cut_str.simps [of "c # s"] apfst_def split: option.split)

lemma cut_over_word:
  "CHR '' '' \<notin> set w \<Longrightarrow> cut_str (w @ s) '' - '' = map_option (apfst ((@) w)) (cut_str s '' - '')"
proof (induction w)
  case Nil
  then show ?case by (cases "cut_str s '' - ''") (auto simp: apfst_def map_prod_def)
next
  case (Cons c w)
  then have "\<not> hasPrefix (c # (w @ s)) '' - ''" by (auto simp: hasPrefix_def)
  with Cons show ?case
    by (cases "cut_str s '' - ''") (auto simp: cut_step apfst_def map_prod_def split: prod.split)
qed

lemma cut_before_word:
  assumes "token w"
  shows "cut_str ('' '' @ w @ '' '' @ s) '' - '' = map_option (apfst (Cons CHR '' '')) (cut_str (w @ '' '' @ s) '' - '')"
proof -
  have "\<not> hasPrefix (CHR '' '' # (w @ '' '' @ s)) '' - ''"
    using assms token_no_space [OF assms]
    by (cases w; cases "tl w") (auto simp: hasPrefix_def token_def)
  then show ?thesis using cut_step [of "CHR '' ''" "w @ '' '' @ s"] by simp
qed

lemma cut_unwords:
  "list_all token ws \<Longrightarrow> ws \<noteq> [] \<Longrightarrow> cut_str (unwords ws @ '' - '' @ r) '' - '' = Some (unwords ws, r)"
proof (induction ws rule: unwords.induct)
  case (2 w)
  have "cut_str ('' - '' @ r) '' - '' = Some ([], r)"
    by (simp add: cut_str.simps [of "CHR '' '' # _"] hasPrefix_def)
  with 2 cut_over_word [OF token_no_space, of w "'' - '' @ r"] show ?case by (simp add: apfst_def)
next
  case (3 w v ws)
  obtain s where s: "unwords (v # ws) @ '' - '' @ r = v @ '' '' @ s" by (cases ws) auto
  have v: "token v" and w: "token w" using 3(2) by simp_all
  have "cut_str (v @ '' '' @ s) '' - '' = Some (unwords (v # ws), r)" using 3 s by simp
  then have "cut_str ('' '' @ v @ '' '' @ s) '' - '' = Some ('' '' @ unwords (v # ws), r)"
    using cut_before_word [OF v, of s] by (simp add: apfst_def)
  then show ?case
    using cut_over_word [OF token_no_space [OF w], of "'' '' @ unwords (v # ws) @ '' - '' @ r"] s
    by (simp add: apfst_def)
qed simp

lemma drop_spaces_token: "token w \<Longrightarrow> dropWhile is_space (w @ s) = w @ s"
  by (cases w) (auto simp: token_def)

lemma fields_of_token: "token w \<Longrightarrow> fields_of (w @ s) = takeWhile (\<lambda>c. \<not> is_space c) (w @ s)
    # fields_of (dropWhile (\<lambda>c. \<not> is_space c) (w @ s))"
  using drop_spaces_token [of w s] by (cases w) (auto simp: fields_of.simps [of "_ # _"] token_def)

lemma fields_of_space: "fields_of ('' '' @ s) = fields_of s"
proof -
  have "dropWhile is_space ('' '' @ s) = dropWhile is_space s" by (simp add: is_space_def)
  then show ?thesis by (subst (1 2) fields_of.simps) (simp only:)
qed

lemma fields_of_unwords: "list_all token ws \<Longrightarrow> fields_of (unwords ws) = ws"
proof (induction ws rule: unwords.induct)
  case 1
  then show ?case by (simp add: fields_of.simps)
next
  case (2 w)
  then have "takeWhile (\<lambda>c. \<not> is_space c) w = w" "dropWhile (\<lambda>c. \<not> is_space c) w = []"
    by (auto simp: token_def list_all_iff)
  with 2 fields_of_token [of w "[]"] show ?case by (simp add: fields_of.simps [of "[]"])
next
  case (3 w v ws)
  have w: "\<And>c. c \<in> set w \<Longrightarrow> \<not> is_space c" "is_space CHR '' ''"
    using 3(2) by (auto simp: token_def list_all_iff is_space_def Let_def)
  then have "takeWhile (\<lambda>c. \<not> is_space c) (w @ '' '' @ s) = w" "dropWhile (\<lambda>c. \<not> is_space c) (w @ '' '' @ s) = '' '' @ s" for s
    by (simp_all add: takeWhile_append2 dropWhile_append2)
  with 3 fields_of_token [of w "'' '' @ unwords (v # ws)"] fields_of_space [of "unwords (v # ws)"] show ?case by simp
qed

lemma escaped_no_space: "list_all (\<lambda>c. \<not> is_space c) (escape_mountinfo s)"
proof (induction s)
  case (Cons c s)
  have "\<not> is_space (octal_digit n)" for n
    using mod_less_divisor [of 8 n] by (simp add: is_space_def Let_def octal_digit_def)
  then show ?case using Cons by (auto simp: needs_escape_def is_space_def)
qed simp

lemma escaped_token: "mi_point m \<noteq> '''' \<Longrightarrow> hd (mi_point m) = CHR ''/'' \<Longrightarrow> token (escape_mountinfo (mi_point m))"
  using escaped_no_space [of "mi_point m"]
  by (cases "mi_point m") (auto simp: token_def needs_escape_def is_space_def Let_def)

lemma device_token: "token a \<Longrightarrow> token b \<Longrightarrow> token (a @ '':'' @ b)"
  by (cases a) (auto simp: token_def is_space_def)

lemma cut_colon: "c \<notin> set a \<Longrightarrow> cut_str (a @ [c] @ b) [c] = Some (a, b)"
  by (induction a) (auto simp: cut_str.simps [of "_ # _"] hasPrefix_def)

text \<open>The fields of a written line.\<close>

lemma line_fields_render:
  assumes "well_formed m"
  shows "line_fields (render_line m) = Some (left_fields m, mi_fstype m # mi_rest m)"
proof -
  have left: "list_all token (left_fields m)" "left_fields m \<noteq> []"
    using assms escaped_token [of m] device_token by (auto simp: well_formed_def left_fields_def)
  have right: "list_all token (mi_fstype m # mi_rest m)" using assms by (simp add: well_formed_def)
  have "length (mi_ids m) = 2" using assms by (simp add: well_formed_def)
  then have "\<not> length (left_fields m) < 5" by (simp add: left_fields_def)
  then show ?thesis
    using cut_unwords [OF left] fields_of_unwords [OF left(1)] fields_of_unwords [OF right]
    by (simp add: line_fields_def render_line_def)
qed

lemma render_fields:
  assumes "well_formed m"
  shows "left_fields m ! 2 = mi_major m @ '':'' @ mi_minor m"
    and "left_fields m ! 4 = escape_mountinfo (mi_point m)"
    and "cut_str (left_fields m ! 2) '':'' = Some (mi_major m, mi_minor m)"
proof -
  obtain a b where "mi_ids m = [a, b]"
    using assms by (auto simp: well_formed_def length_Suc_conv numeral_2_eq_2)
  then show "left_fields m ! 2 = mi_major m @ '':'' @ mi_minor m" "left_fields m ! 4 = escape_mountinfo (mi_point m)"
    by (simp_all add: left_fields_def)
  then show "cut_str (left_fields m ! 2) '':'' = Some (mi_major m, mi_minor m)"
    using assms cut_colon [of "CHR '':''" "mi_major m" "mi_minor m"] by (simp add: well_formed_def)
qed

lemma set_unwords: "set (unwords ws) \<subseteq> insert (CHR '' '') (\<Union> (set ` set ws))"
  by (induction ws rule: unwords.induct) auto

lemma newline_space: "is_space newline"
  by (simp add: is_space_def)

lemma render_no_newline: "well_formed m \<Longrightarrow> newline \<notin> set (render_line m)"
proof -
  assume "well_formed m"
  then have "list_all token (left_fields m @ mi_fstype m # mi_rest m)"
    using escaped_token [of m] device_token by (auto simp: well_formed_def left_fields_def)
  then have "newline \<notin> set w" if "w \<in> set (left_fields m @ mi_fstype m # mi_rest m)" for w
    using that unfolding list_all_iff by (metis token_def list_all_iff newline_space)
  then show ?thesis
    using set_unwords [of "left_fields m"] set_unwords [of "mi_fstype m # mi_rest m"]
    unfolding render_line_def by (auto simp del: unwords.simps)
qed

lemma lines_render:
  "list_all well_formed ms \<Longrightarrow> split_on newline (render_mountinfo ms) = map render_line ms @ [ [] ]"
  by (induction ms) (simp_all add: render_mountinfo_def split_on_append render_no_newline)

section \<open>Properties of the node operations\<close>

definition fuse_at :: "string \<Rightarrow> mountinfo \<Rightarrow> bool" where
  "fuse_at path m \<longleftrightarrow> fuse_type (mi_fstype m) \<and> path_Clean (mi_point m) = path_Clean path"

lemma line_conn_id_render:
  assumes "well_formed m"
  shows "line_conn_id (path_Clean path) (render_line m) = (if fuse_at path m then Some (mi_minor m) else None)"
  using assms line_fields_render [OF assms] render_fields [OF assms]
  by (auto simp: line_conn_id_def fuse_at_def unescape_escape well_formed_def token_def)

lemma line_shares_render:
  assumes "well_formed m"
  shows "line_shares (path_Clean path) i (render_line m)
    \<longleftrightarrow> fuse_type (mi_fstype m) \<and> mi_minor m = i \<and> path_Clean (mi_point m) \<noteq> path_Clean path"
  using assms line_fields_render [OF assms] render_fields [OF assms]
  by (auto simp: line_shares_def unescape_escape)

lemma no_empty_line: "line_conn_id want [] = None" "\<not> line_shares want i []"
  by (simp_all add: line_conn_id_def line_shares_def line_fields_def cut_str.simps [of "[]"] hasPrefix_def)

lemma first_conn_id_render:
  "list_all well_formed ms \<Longrightarrow> first_conn_id (path_Clean path) (map render_line ms @ [ [] ])
    = map_option mi_minor (find (fuse_at path) ms)"
  by (induction ms) (simp_all add: line_conn_id_render no_empty_line)

text \<open>
  Property C21: what the operator reads of mountinfo is what the kernel's mount table says, for
  any table and with every white space and backslash of the mount points escaped: the connection of a
  path is that of the first FUSE mount on it, and a connection counts as shared exactly when a
  FUSE mount with its number is on another path.
\<close>

theorem mountinfo_roundtrip:
  assumes "list_all well_formed ms"
  shows "ParseFuseConnIDFromMountinfo (render_mountinfo ms) path
      = (case find (fuse_at path) ms of
           Some m \<Rightarrow> Inr (mi_minor m)
         | None \<Rightarrow> Inl (Errorf ''fuse mountinfo entry not found for %s'' [S path]))
    \<and> (fuseConnSharedInMountinfo (render_mountinfo ms) path i
      = list_ex (\<lambda>m. fuse_type (mi_fstype m) \<and> mi_minor m = i \<and> path_Clean (mi_point m) \<noteq> path_Clean path) ms)"
proof -
  have "list_ex (line_shares (path_Clean path) i) (map render_line ms)
      = list_ex (\<lambda>m. fuse_type (mi_fstype m) \<and> mi_minor m = i \<and> path_Clean (mi_point m) \<noteq> path_Clean path) ms"
    using assms by (induction ms) (simp_all add: line_shares_render)
  then show ?thesis
    using first_conn_id_render [OF assms, of path]
    by (simp add: ParseFuseConnIDFromMountinfo_def fuseConnSharedInMountinfo_def lines_render [OF assms]
        no_empty_line split: option.splits)
qed

definition example_table :: "mountinfo list" where
  "example_table =
    [\<lparr>mi_ids = [''36'', ''35''], mi_major = ''98'', mi_minor = ''0'', mi_root = ''/'', mi_point = ''/data'',
      mi_options = [''rw'', ''master:1''], mi_fstype = ''ext4'', mi_rest = [''/dev/sda'', ''rw'']\<rparr>,
     \<lparr>mi_ids = [''40'', ''35''], mi_major = ''0'', mi_minor = ''52'', mi_root = ''/'', mi_point = ''/pods/a b/mount'',
      mi_options = [''rw''], mi_fstype = ''fuse.rclone'', mi_rest = [''s3:data'', ''rw'']\<rparr>]"

theorem mountinfo_roundtrip_witness:
  "ParseFuseConnIDFromMountinfo (render_mountinfo example_table) ''/pods/a b/mount/'' = Inr ''52''
   \<and> \<not> fuseConnSharedInMountinfo (render_mountinfo example_table) ''/pods/a b/mount'' ''52''
   \<and> fuseConnSharedInMountinfo (render_mountinfo example_table) ''/other'' ''52''"
proof -
  have wf: "list_all well_formed example_table" by code_simp
  have "find (fuse_at ''/pods/a b/mount/'') example_table = Some (example_table ! 1)" by code_simp
  moreover have "mi_minor (example_table ! 1) = ''52''" by code_simp
  moreover have "\<not> list_ex (\<lambda>m. fuse_type (mi_fstype m) \<and> mi_minor m = ''52''
      \<and> path_Clean (mi_point m) \<noteq> path_Clean ''/pods/a b/mount'') example_table" by code_simp
  moreover have "list_ex (\<lambda>m. fuse_type (mi_fstype m) \<and> mi_minor m = ''52''
      \<and> path_Clean (mi_point m) \<noteq> path_Clean ''/other'') example_table" by code_simp
  ultimately show ?thesis
    using mountinfo_roundtrip [OF wf, of "''/pods/a b/mount/''" "''52''"]
      mountinfo_roundtrip [OF wf, of "''/pods/a b/mount''" "''52''"]
      mountinfo_roundtrip [OF wf, of "''/other''" "''52''"]
    by simp
qed

section \<open>Aborting stays below the connections directory\<close>

lemma digits_val_digits: "digits_val b ds acc = Some n \<Longrightarrow> c \<in> set ds \<Longrightarrow> digit_val c \<noteq> None"
  by (induction b ds acc rule: digits_val.induct) (auto split: option.splits if_splits)

lemma atoi_chars:
  assumes "atoi s = Some n"
  shows "s \<noteq> []" and "\<And>c. c \<in> set s \<Longrightarrow> digit_val c \<noteq> None \<or> c = CHR ''-'' \<or> c = CHR ''+''"
proof -
  show "s \<noteq> []" using assms by (auto simp: atoi_def)
  obtain c t where s: "s = c # t" using \<open>s \<noteq> []\<close> by (cases s) auto
  have "\<exists>ds m. digits_val 10 ds 0 = Some m \<and> (s = ds \<or> (t = ds \<and> (c = CHR ''-'' \<or> c = CHR ''+'')))"
    using assms unfolding atoi_def s
    by (auto simp: Let_def split: if_splits option.splits)
  then show "digit_val x \<noteq> None \<or> x = CHR ''-'' \<or> x = CHR ''+''" if "x \<in> set s" for x
    using that digits_val_digits unfolding s by (auto simp del: digits_val.simps)
qed

lemma atoi_path_element: "atoi s = Some n \<Longrightarrow> path_element s"
proof -
  assume s: "atoi s = Some n"
  have "CHR ''/'' \<notin> set s" "CHR ''.'' \<notin> set s"
    using atoi_chars(2) [OF s, of "CHR ''/''"] atoi_chars(2) [OF s, of "CHR ''.''"] by (auto simp: digit_val_def)
  then show ?thesis using atoi_chars(1) [OF s] by (auto simp: path_element_def)
qed

definition connections_path :: "string list" where
  "connections_path = [''sys'', ''fs'', ''fuse'', ''connections'']"

lemma abort_path: "atoi i = Some n \<Longrightarrow> path_Join [fuseConnectionsRoot, i, ''abort''] = abs_path (connections_path @ [i, ''abort''])"
  using join_abs_path [of connections_path "[i, ''abort'']"] atoi_path_element [of i n]
  by (simp add: connections_path_def fuseConnectionsRoot_def abs_path_def path_element_def)

section \<open>Who is signalled\<close>

text \<open>
  The processes the operator may signal for a path: not itself, not init, and running a command
  one of whose arguments is the path.
\<close>

definition serves_path :: "op_env \<Rightarrow> string \<Rightarrow> int \<Rightarrow> bool" where
  "serves_path oe path pid \<longleftrightarrow> 1 < pid \<and> pid \<noteq> ownPid oe
     \<and> (\<exists>h name cmdline. atoi name = Some pid \<and> fileRead oe h (path_Join [''/proc'', name, ''cmdline'']) = Inr cmdline
          \<and> path \<in> set (split_on (CHR 0x00) cmdline) \<and> path \<noteq> '''')"

fun signals :: "(int \<Rightarrow> bool) \<Rightarrow> ev \<Rightarrow> bool" where
  "signals P (Op (SignalProcess pid kill)) = P pid"
| "signals P (Op (FileWrite _ _)) = False"
| "signals P (Op (UmountDetach _)) = False"
| "signals P (Op (PodDelete _ _ _)) = False"
| "signals P _ = True"

lemma adds_kill_wait [frame]: "adds (signals P) (kill_wait n oe deadline pid)"
  by (induction n) (auto simp: pidAlive_def intro!: frame)

lemma adds_signalMountServer [frame]: "P pid \<Longrightarrow> adds (signals P) (signalMountServer oe pid)"
  by (auto simp: signalMountServer_def kill_after_wait_def processState_def read_file_def pidAlive_def
      signal_process_def intro!: frame)

lemma adds_kill_candidate [frame]:
  "adds (signals (serves_path oe path)) (kill_candidate oe path e :: ('w world_scheme, unit) state)"
proof -
  obtain name isDir where e: "e = (name, isDir)" by fastforce
  show ?thesis
  proof (cases "isDir \<and> (\<exists>pid. atoi name = Some pid \<and> 1 < pid \<and> pid \<noteq> ownPid oe)")
    case False
    then have "kill_candidate oe path e = (State_Monad.return () :: ('w world_scheme, unit) state)"
      by (auto simp: e kill_candidate_def not_less split: option.split)
    then show ?thesis by (simp add: frame)
  next
    case True
    then obtain pid where pid: "atoi name = Some pid" "1 < pid" "pid \<noteq> ownPid oe" and isDir by blast
    let ?file = "path_Join [''/proc'', name, ''cmdline'']"
    have "adds (signals (serves_path oe path)) (signalMountServer oe pid)"
      if "fileRead oe h ?file = Inr c" "MatchMountServerCmdline c path" for h c
      using that pid by (intro adds_signalMountServer) (auto simp: serves_path_def MatchMountServerCmdline_def list_ex_iff)
    then have "adds (signals (serves_path oe path))
        (State_Monad.bind (read_file oe ?file) (\<lambda>data. case data of
           Inl _ \<Rightarrow> State_Monad.return ()
         | Inr c \<Rightarrow> if c = '''' \<or> \<not> MatchMountServerCmdline c path then State_Monad.return ()
                   else State_Monad.bind (signalMountServer oe pid) (\<lambda>_. State_Monad.return ())))"
      unfolding read_file_def
      by (intro adds_bind_call) (auto split: sum.split intro: adds_bind adds_return)
    then show ?thesis using pid \<open>isDir\<close> by (simp add: e kill_candidate_def)
  qed
qed

lemma adds_BestEffortKill [frame]: "adds (signals (serves_path oe path)) (BestEffortKillMountServer oe path)"
  by (auto simp: BestEffortKillMountServer_def intro!: frame)

text \<open>
  Killing the mount server of a path signals only processes that have the path as an
  argument of their command line, never the operator itself or process 1, and does nothing else
  to the node: a process that merely runs rclone is left alone.
\<close>

theorem BestEffortKillMountServer_targets:
  "adds (signals (serves_path oe path)) (BestEffortKillMountServer oe path)
   \<and> (MatchMountServerCmdline cmdline path \<longleftrightarrow>
        path \<noteq> '''' \<and> cmdline \<noteq> '''' \<and> path \<in> set (split_on (CHR 0x00) cmdline))"
  by (simp add: adds_BestEffortKill MatchMountServerCmdline_def list_ex_iff)

section \<open>The wait for a terminated process\<close>

text \<open>A clock that does not go back and advances by what is slept, as \<open>time.Sleep\<close> promises.\<close>

definition clock_ok :: "env \<Rightarrow> bool" where
  "clock_ok env \<longleftrightarrow> (\<forall>h e. time_now env h \<le> time_now env (h @ [e]))
     \<and> (\<forall>h d. time_now env h + d \<le> time_now env (h @ [Sleep d]))"

lemma clock_poll: "clock_ok env \<Longrightarrow> time_now env h + d \<le> time_now env (h @ [e1, e2, Sleep d])"
proof -
  assume "clock_ok env"
  then have "time_now env h \<le> time_now env (h @ [e1])" "time_now env (h @ [e1]) \<le> time_now env ((h @ [e1]) @ [e2])"
    "time_now env ((h @ [e1]) @ [e2]) + d \<le> time_now env (((h @ [e1]) @ [e2]) @ [Sleep d])"
    unfolding clock_ok_def by blast+
  then show ?thesis by simp
qed

lemma kill_wait_ends:
  fixes s :: "'w world_scheme"
  assumes "clock_ok (base oe)" and "deadline - time_now (base oe) (trace s) \<le> int n * killPollInterval"
  shows "wp (kill_wait (Suc n) oe deadline pid) (\<lambda>r _. r \<noteq> None) s"
  using assms(2)
proof (induction n arbitrary: s)
  case 0
  then show ?case by (simp add: wp del: not_None_eq)
next
  case (Suc n)
  let ?s = "s\<lparr>trace := trace s @ [Now, Op (PathStat (path_Join [''/proc'', int_text pid])), Sleep killPollInterval]\<rparr>"
  have "deadline - time_now (base oe) (trace ?s) \<le> int n * killPollInterval"
    using Suc.prems clock_poll [OF assms(1), of "trace s" killPollInterval Now] by (simp add: algebra_simps) (smt (verit))
  from Suc.IH [OF this] show ?case
    by (subst kill_wait.simps) (simp add: wp pidAlive_def del: kill_wait.simps not_None_eq)
qed

text \<open>
  Property C28: the wait for a signalled process ends: after at most ten sleeps of 20 ms the
  deadline of 200 ms has passed, so the eleven rounds of \<open>killPolls\<close> always suffice.
\<close>

theorem kill_wait_terminates:
  assumes "clock_ok (base oe)"
  shows "\<exists>gone s'. run_state (kill_wait killPolls oe (time_now (base oe) (trace s) + killGracePeriod) pid) s = (Some gone, s')"
proof -
  have "wp (kill_wait (Suc 10) oe (time_now (base oe) (trace s) + killGracePeriod) pid) (\<lambda>r _. r \<noteq> None) s"
    by (rule kill_wait_ends [OF assms]) (simp add: killGracePeriod_def killPollInterval_def)
  then have "wp (kill_wait killPolls oe (time_now (base oe) (trace s) + killGracePeriod) pid) (\<lambda>r _. r \<noteq> None) s"
    by (simp add: killPolls_def eval_nat_numeral)
  then show ?thesis by (auto simp: wp_def split: prod.splits)
qed

text \<open>A clock that reads the sum of the sleeps.\<close>

definition slept_clock :: "history \<Rightarrow> int" where
  "slept_clock h = sum_list (map (\<lambda>e. case e of Sleep d \<Rightarrow> max 0 d | _ \<Rightarrow> 0) h)"

theorem kill_wait_terminates_witness:
  "\<exists>gone s'. run_state (kill_wait killPolls (example_op\<lparr>base := example_base\<lparr>time_now := slept_clock\<rparr>, pathExists := \<lambda>h p. True\<rparr>)
      (0 + killGracePeriod) 7) start = (Some gone, s')"
proof -
  let ?op = "example_op\<lparr>base := example_base\<lparr>time_now := slept_clock\<rparr>, pathExists := \<lambda>h p. True\<rparr>"
  have "clock_ok (base ?op)" by (auto simp: clock_ok_def slept_clock_def split: ev.split)
  from kill_wait_terminates [OF this, of start 7] show ?thesis by (simp add: start_def slept_clock_def)
qed

end
