(* ===== verification/Op_Recovery.thy ===== *)
theory Op_Recovery
  imports Op_Scan Op_Fuse
begin

text \<open>
  Restarting pods (pkg/operator/reconciler.go, recovery_annotate.go): which pods may be
  restarted, the cooldown of a workload in memory and on its controller, the restart itself,
  and the annotations it leaves. \<open>op_world\<close> is the state of a \<open>Reconciler\<close>, \<open>reconciler\<close> its settings.
\<close>

section \<open>Settings and state\<close>

record reconciler =
  oc_nodeName :: string
  oc_provisioner :: string
  oc_kubeletDir :: string
  oc_cooldown :: int
  oc_confirmCorrupted :: "int option" \<comment> \<open>the timeout of the probe set by \<open>SetMountProbeTimeout\<close>\<close>
  oc_orphanLazyUmount :: bool
  oc_orphanFuseAbort :: bool
  oc_orphanKillMountProcess :: bool
  oc_replacementWait :: int
  oc_recorder :: bool

definition defaultRecoveryCooldown :: int where "defaultRecoveryCooldown = 3600000000000"
definition defaultReplacementAnnotateWait :: int where "defaultReplacementAnnotateWait = 30000000000"

definition NewReconciler :: "string \<Rightarrow> string \<Rightarrow> reconciler" where
  "NewReconciler nodeName provisioner =
     \<lparr>oc_nodeName = nodeName, oc_provisioner = provisioner, oc_kubeletDir = '''', oc_cooldown = defaultRecoveryCooldown,
      oc_confirmCorrupted = None, oc_orphanLazyUmount = False, oc_orphanFuseAbort = False,
      oc_orphanKillMountProcess = False, oc_replacementWait = defaultReplacementAnnotateWait, oc_recorder = False\<rparr>"

definition SetEventRecorder :: "bool \<Rightarrow> reconciler \<Rightarrow> reconciler" where
  "SetEventRecorder present rc = rc\<lparr>oc_recorder := present\<rparr>"

definition SetKubeletDir :: "string \<Rightarrow> reconciler \<Rightarrow> reconciler" where
  "SetKubeletDir dir rc = rc\<lparr>oc_kubeletDir := dir\<rparr>"

definition SetOrphanLazyUmount :: "bool \<Rightarrow> reconciler \<Rightarrow> reconciler" where
  "SetOrphanLazyUmount enabled rc = rc\<lparr>oc_orphanLazyUmount := enabled\<rparr>"

definition SetOrphanFuseAbort :: "bool \<Rightarrow> reconciler \<Rightarrow> reconciler" where
  "SetOrphanFuseAbort enabled rc = rc\<lparr>oc_orphanFuseAbort := enabled\<rparr>"

definition SetOrphanKillMountProcess :: "bool \<Rightarrow> reconciler \<Rightarrow> reconciler" where
  "SetOrphanKillMountProcess enabled rc = rc\<lparr>oc_orphanKillMountProcess := enabled\<rparr>"

definition SetMountProbeTimeout :: "int \<Rightarrow> reconciler \<Rightarrow> reconciler" where
  "SetMountProbeTimeout timeout rc = rc\<lparr>oc_confirmCorrupted := (if timeout \<le> 0 then None else Some timeout)\<rparr>"

text \<open>A goroutine that waits to annotate the pod that replaces a deleted one.\<close>

record annotate_job =
  aj_old :: pod
  aj_now :: int
  aj_known :: "string list"

record op_world = world +
  lastRecovery :: "string \<rightharpoonup> int"
  annotating :: "annotate_job list"

definition isMountCorrupted :: "op_env \<Rightarrow> reconciler \<Rightarrow> string \<Rightarrow> ('w world_scheme, bool \<times> reason) state" where
  "isMountCorrupted oe rc path =
     (case oc_confirmCorrupted rc of
        Some timeout \<Rightarrow> IsMountPathCorruptedWithTimeout (base oe) path timeout
      | None \<Rightarrow> IsMountPathCorrupted (base oe) path)"

section \<open>Which pods\<close>

definition controllerOwnerRef :: "pod \<Rightarrow> owner_ref option" where
  "controllerOwnerRef pod = find (\<lambda>ow. or_controller ow = Some True) (pod_owners pod)"

definition controllerOwnerObject :: "pod \<Rightarrow> event_object option" where
  "controllerOwnerObject pod =
     map_option (\<lambda>ow. OwnerObject (or_apiVersion ow) (or_kind ow) (pod_namespace pod) (or_name ow) (or_uid ow))
       (find (\<lambda>ow. or_controller ow = Some True) (pod_owners pod))"

definition csi_daemon_set :: "owner_ref \<Rightarrow> bool" where
  "csi_daemon_set owner \<longleftrightarrow> or_kind owner = ''DaemonSet''
     \<and> (contains_str (toLower (or_name owner)) ''csi-rclone'' \<or> contains_str (toLower (or_name owner)) ''csi-rclone-node'')"

definition ShouldSkipPod :: "pod \<Rightarrow> bool" where
  "ShouldSkipPod pod \<longleftrightarrow>
     controllerOwnerRef pod = None \<or> pod_namespace pod = ''kube-system''
     \<or> contains_str (pod_name pod) ''csi-rclone'' \<or> list_ex csi_daemon_set (pod_owners pod)"

definition RecoveryKey :: "pod \<Rightarrow> string" where
  "RecoveryKey pod =
     (case find (\<lambda>ow. or_controller ow = Some True) (pod_owners pod) of
        Some ow \<Rightarrow> pod_namespace pod @ ''/'' @ or_kind ow @ ''/'' @ or_name ow
      | None \<Rightarrow> pod_namespace pod @ ''/Pod/'' @ pod_name pod)"

definition ownedByController :: "pod \<Rightarrow> owner_ref \<Rightarrow> bool" where
  "ownedByController pod owner \<longleftrightarrow>
     list_ex (\<lambda>ow. or_uid ow = or_uid owner \<and> or_kind ow = or_kind owner \<and> or_name ow = or_name owner) (pod_owners pod)"

section \<open>Volumes of the provisioner\<close>

text \<open>The CSI driver behind a claim; \<open>None\<close> when the claim or its volume cannot be read or has none.\<close>

definition claim_driver :: "op_env \<Rightarrow> string \<Rightarrow> string \<Rightarrow> ('w world_scheme, string option) state" where
  "claim_driver oe ns claim = do {
     pvc \<leftarrow> call (Op (PvcGet ns claim)) (\<lambda>h. pvcGet oe h ns claim);
     case pvc of
       Inl _ \<Rightarrow> State_Monad.return None
     | Inr volumeName \<Rightarrow>
         if volumeName = '''' then State_Monad.return None
         else do {
           pv \<leftarrow> call (Op (PvGet volumeName)) (\<lambda>h. pvGet oe h volumeName);
           State_Monad.return (case pv of Inl _ \<Rightarrow> None | Inr driver \<Rightarrow> driver) } }"

fun has_provisioner_volume ::
    "op_env \<Rightarrow> string \<Rightarrow> string \<Rightarrow> pod_volume list \<Rightarrow> ('w world_scheme, bool) state" where
  "has_provisioner_volume oe provisioner ns [] = State_Monad.return False"
| "has_provisioner_volume oe provisioner ns (vol # vols) =
     (if pvol_csiDriver vol = Some provisioner then State_Monad.return True
      else case pvol_claim vol of
             None \<Rightarrow> has_provisioner_volume oe provisioner ns vols
           | Some claim \<Rightarrow> do {
               driver \<leftarrow> claim_driver oe ns claim;
               if driver = Some provisioner then State_Monad.return True
               else has_provisioner_volume oe provisioner ns vols })"

definition podHasProvisionerVolume :: "op_env \<Rightarrow> pod \<Rightarrow> string \<Rightarrow> ('w world_scheme, bool) state" where
  "podHasProvisionerVolume oe pod provisioner = has_provisioner_volume oe provisioner (pod_namespace pod) (pod_volumes pod)"

definition podUsesProvisioner :: "op_env \<Rightarrow> reconciler \<Rightarrow> pod \<Rightarrow> ('w world_scheme, bool) state" where
  "podUsesProvisioner oe rc pod = do {
     (has, known) \<leftarrow> (if oc_kubeletDir rc \<noteq> ''''
                     then PodHasLocalProvisionerVolume oe (oc_kubeletDir rc) (pod_uid pod) (oc_provisioner rc)
                     else State_Monad.return (False, False));
     if known then State_Monad.return has else podHasProvisionerVolume oe pod (oc_provisioner rc) }"

text \<open>The first volume of that name decides.\<close>

definition podUsesProvisionerVolume :: "op_env \<Rightarrow> pod \<Rightarrow> string \<Rightarrow> string \<Rightarrow> ('w world_scheme, bool) state" where
  "podUsesProvisionerVolume oe pod volumeName provisioner =
     (case find (\<lambda>vol. pvol_name vol = volumeName) (pod_volumes pod) of
        None \<Rightarrow> State_Monad.return False
      | Some vol \<Rightarrow>
          (case pvol_csiDriver vol of
             Some driver \<Rightarrow> State_Monad.return (driver = provisioner)
           | None \<Rightarrow>
               (case pvol_claim vol of
                  None \<Rightarrow> State_Monad.return False
                | Some claim \<Rightarrow> do {
                    driver \<leftarrow> claim_driver oe (pod_namespace pod) claim;
                    State_Monad.return (driver = Some provisioner) })))"

definition volumeManagedByProvisioner :: "op_env \<Rightarrow> reconciler \<Rightarrow> pod \<Rightarrow> stale_mount \<Rightarrow> ('w world_scheme, bool) state" where
  "volumeManagedByProvisioner oe rc pod mount = do {
     (managed, known) \<leftarrow> CSIMountManagedBy oe (stale_mountPath mount) (oc_provisioner rc);
     if known then State_Monad.return managed
     else podUsesProvisionerVolume oe pod (stale_volumeName mount) (oc_provisioner rc) }"

section \<open>The cooldown\<close>

definition RecoveryAnnotation :: string where
  "RecoveryAnnotation = ''volume.veloxpack.io/last-recovery''"

definition setRecoveryAnnotation :: "op_env \<Rightarrow> smap \<Rightarrow> int \<Rightarrow> smap" where
  "setRecoveryAnnotation oe annotations now = AList.update RecoveryAnnotation (rfc3339_format oe now) annotations"

text \<open>A value that is not a time blocks the recovery.\<close>

definition parseRecoveryAnnotation :: "op_env \<Rightarrow> smap \<Rightarrow> int \<Rightarrow> int \<Rightarrow> bool" where
  "parseRecoveryAnnotation oe annotations now cooldown =
     (if mget annotations RecoveryAnnotation = '''' then False
      else case rfc3339_parse oe (mget annotations RecoveryAnnotation) of
             None \<Rightarrow> True
           | Some t \<Rightarrow> now - t < cooldown)"

definition annotated_kinds :: "string list" where
  "annotated_kinds = [''ReplicaSet'', ''StatefulSet'', ''DaemonSet'', ''Job'']"

definition owner_get :: "op_env \<Rightarrow> string \<Rightarrow> owner_ref \<Rightarrow> ('w world_scheme, api_err + smap) state" where
  "owner_get oe ns ow = call (Op (OwnerGet (or_kind ow) ns (or_name ow))) (\<lambda>h. ownerGet oe h (or_kind ow) ns (or_name ow))"

definition ownerAnnotationRateLimited :: "op_env \<Rightarrow> reconciler \<Rightarrow> pod \<Rightarrow> int \<Rightarrow> ('w world_scheme, bool) state" where
  "ownerAnnotationRateLimited oe rc pod now =
     (case controllerOwnerRef pod of
        None \<Rightarrow> State_Monad.return False
      | Some ow \<Rightarrow>
          if or_kind ow \<notin> set annotated_kinds then State_Monad.return False
          else do {
            r \<leftarrow> owner_get oe (pod_namespace pod) ow;
            State_Monad.return (case r of
               Inl _ \<Rightarrow> False
             | Inr annotations \<Rightarrow> parseRecoveryAnnotation oe annotations now (oc_cooldown rc)) })"

definition pruneExpiredRecoveries :: "reconciler \<Rightarrow> int \<Rightarrow> (string \<rightharpoonup> int) \<Rightarrow> (string \<rightharpoonup> int)" where
  "pruneExpiredRecoveries rc now recoveries =
     (\<lambda>key. case recoveries key of
         None \<Rightarrow> None
       | Some t \<Rightarrow> if \<not> now - oc_cooldown rc < t then None else Some t)"

definition isRateLimited :: "op_env \<Rightarrow> reconciler \<Rightarrow> pod \<Rightarrow> int \<Rightarrow> ('w op_world_scheme, bool) state" where
  "isRateLimited oe rc pod now = do {
     modify (\<lambda>s. s\<lparr>lastRecovery := pruneExpiredRecoveries rc now (lastRecovery s)\<rparr>);
     found \<leftarrow> gets (\<lambda>s. lastRecovery s (RecoveryKey pod));
     case found of
       Some t \<Rightarrow> if now - t < oc_cooldown rc then State_Monad.return True
                else ownerAnnotationRateLimited oe rc pod now
     | None \<Rightarrow> ownerAnnotationRateLimited oe rc pod now }"

definition markRecovered :: "reconciler \<Rightarrow> pod \<Rightarrow> int \<Rightarrow> ('w op_world_scheme, unit) state" where
  "markRecovered rc pod now =
     modify (\<lambda>s. s\<lparr>lastRecovery := (pruneExpiredRecoveries rc now (lastRecovery s))(RecoveryKey pod \<mapsto> now)\<rparr>)"

section \<open>Annotating the owner\<close>

definition annotate_owner_once :: "op_env \<Rightarrow> string \<Rightarrow> owner_ref \<Rightarrow> int \<Rightarrow> ('w world_scheme, api_err option) state" where
  "annotate_owner_once oe ns ow now = do {
     r \<leftarrow> owner_get oe ns ow;
     case r of
       Inl e \<Rightarrow> State_Monad.return (Some e)
     | Inr annotations \<Rightarrow>
         call (Op (OwnerUpdate (or_kind ow) ns (or_name ow) (setRecoveryAnnotation oe annotations now)))
           (\<lambda>h. ownerUpdate oe h (or_kind ow) ns (or_name ow) (setRecoveryAnnotation oe annotations now)) }"

text \<open>\<open>retry.RetryOnConflict\<close> with a given number of repetitions.\<close>

fun retry_on_conflict :: "nat \<Rightarrow> ('s, api_err option) state \<Rightarrow> ('s, api_err option) state" where
  "retry_on_conflict 0 body = body"
| "retry_on_conflict (Suc n) body = do {
     r \<leftarrow> body;
     if r = Some Conflict then retry_on_conflict n body else State_Monad.return r }"

definition annotateOwner :: "op_env \<Rightarrow> pod \<Rightarrow> int \<Rightarrow> ('w world_scheme, api_err option) state" where
  "annotateOwner oe pod now =
     (case controllerOwnerRef pod of
        None \<Rightarrow> State_Monad.return None
      | Some ow \<Rightarrow>
          retry_on_conflict (conflictRetries oe)
            (if or_kind ow \<in> set annotated_kinds then annotate_owner_once oe (pod_namespace pod) ow now
             else State_Monad.return None))"

section \<open>Annotating the replacement pod\<close>

definition snapshotOwnerPodUIDs :: "op_env \<Rightarrow> pod \<Rightarrow> ('w world_scheme, api_err + string list option) state" where
  "snapshotOwnerPodUIDs oe old =
     (case controllerOwnerRef old of
        None \<Rightarrow> State_Monad.return (Inr None)
      | Some owner \<Rightarrow> do {
          pods \<leftarrow> call (Op (ListPodsIn (pod_namespace old))) (\<lambda>h. podsIn oe h (pod_namespace old));
          State_Monad.return (case pods of
             Inl e \<Rightarrow> Inl e
           | Inr ps \<Rightarrow> Inr (Some (map pod_uid (filter (\<lambda>p. ownedByController p owner) ps)))) })"

definition is_replacement :: "pod \<Rightarrow> owner_ref \<Rightarrow> string list \<Rightarrow> pod \<Rightarrow> bool" where
  "is_replacement old owner known p \<longleftrightarrow>
     pod_uid p \<noteq> pod_uid old \<and> ownedByController p owner \<and> pod_uid p \<notin> set known"

text \<open>Whether a replacement was found and annotated; every failure means that it is tried again.\<close>

definition tryAnnotateReplacementOnce ::
    "op_env \<Rightarrow> pod \<Rightarrow> owner_ref \<Rightarrow> int \<Rightarrow> string list \<Rightarrow> ('w world_scheme, bool) state" where
  "tryAnnotateReplacementOnce oe old owner now known = do {
     pods \<leftarrow> call (Op (ListPodsIn (pod_namespace old))) (\<lambda>h. podsIn oe h (pod_namespace old));
     case pods of
       Inl _ \<Rightarrow> State_Monad.return False
     | Inr ps \<Rightarrow>
         (case find (is_replacement old owner known) ps of
            None \<Rightarrow> State_Monad.return False
          | Some p \<Rightarrow> do {
              let annotations = setRecoveryAnnotation oe (pod_annotations p) now;
              r \<leftarrow> call (Op (PodUpdate (pod_namespace p) (pod_name p) annotations))
                     (\<lambda>h. podUpdate oe h (pod_namespace p) (pod_name p) annotations);
              State_Monad.return (r = None) }) }"

text \<open>
  The loop of the annotating goroutine: after a failed try the context is done, or the ticker
  fires and it tries again. A ticker of 500 ms fires at most \<open>wait div annotateTick\<close> times before a
  context of that timeout is done, which is the number of rounds.
\<close>

definition annotateTick :: int where "annotateTick = 500000000"

fun annotate_rounds :: "nat \<Rightarrow> op_env \<Rightarrow> pod \<Rightarrow> owner_ref \<Rightarrow> int \<Rightarrow> string list \<Rightarrow> ('w world_scheme, unit) state" where
  "annotate_rounds 0 oe old owner now known = State_Monad.return ()"
| "annotate_rounds (Suc n) oe old owner now known = do {
     done \<leftarrow> tryAnnotateReplacementOnce oe old owner now known;
     if done then State_Monad.return ()
     else do {
       sel \<leftarrow> call Select (select_of (base oe));
       case sel of
         CtxDone _ \<Rightarrow> State_Monad.return ()
       | _ \<Rightarrow> annotate_rounds n oe old owner now known } }"

definition annotateReplacementPod :: "op_env \<Rightarrow> reconciler \<Rightarrow> annotate_job \<Rightarrow> ('w world_scheme, unit) state" where
  "annotateReplacementPod oe rc job =
     (case controllerOwnerRef (aj_old job) of
        None \<Rightarrow> State_Monad.return ()
      | Some owner \<Rightarrow>
          annotate_rounds (Suc (nat (oc_replacementWait rc div annotateTick))) oe (aj_old job) owner (aj_now job) (aj_known job))"

definition scheduleReplacementAnnotate :: "reconciler \<Rightarrow> pod \<Rightarrow> int \<Rightarrow> string list option \<Rightarrow> ('w op_world_scheme, unit) state" where
  "scheduleReplacementAnnotate rc old now known =
     (if oc_replacementWait rc \<le> 0 then State_Monad.return ()
      else case known of
             None \<Rightarrow> State_Monad.return ()
           | Some ks \<Rightarrow> modify (\<lambda>s. s\<lparr>annotating := \<lparr>aj_old = old, aj_now = now, aj_known = ks\<rparr> # annotating s\<rparr>))"

section \<open>Restarting a pod\<close>

definition EventReasonStaleCSIMount :: string where "EventReasonStaleCSIMount = ''StaleCSIMount''"
definition EventReasonCSINodeUIDChanged :: string where "EventReasonCSINodeUIDChanged = ''CSINodeUIDChanged''"

definition emitRecoveryEvents :: "reconciler \<Rightarrow> pod \<Rightarrow> string \<Rightarrow> string \<times> arg list \<Rightarrow> ('w world_scheme, unit) state" where
  "emitRecoveryEvents rc pod why message =
     (if \<not> oc_recorder rc then State_Monad.return ()
      else (case message of (f, xs) \<Rightarrow>
        (case controllerOwnerObject pod of
           Some owner \<Rightarrow> emit (Op (EmitEvent owner why f xs))
         | None \<Rightarrow> emit (Op (EmitEvent (PodObject (pod_namespace pod) (pod_name pod)) why f xs)))))"

text \<open>
  The deletion has the pod's UID as a precondition; a pod that is gone already counts as
  restarted. What follows a deletion is best effort.
\<close>

definition restarted :: "reconciler \<Rightarrow> op_env \<Rightarrow> pod \<Rightarrow> int \<Rightarrow> string list option \<Rightarrow> ('w op_world_scheme, unit) state" where
  "restarted rc oe pod now known = do {
     markRecovered rc pod now;
     annotateOwner oe pod now;
     scheduleReplacementAnnotate rc pod now known }"

definition restartPod ::
    "op_env \<Rightarrow> reconciler \<Rightarrow> pod \<Rightarrow> int \<Rightarrow> string \<Rightarrow> string \<times> arg list \<Rightarrow> ('w op_world_scheme, api_err option) state" where
  "restartPod oe rc pod now why message = do {
     emitRecoveryEvents rc pod why message;
     snap \<leftarrow> snapshotOwnerPodUIDs oe pod;
     err \<leftarrow> call (Op (PodDelete (pod_namespace pod) (pod_name pod) (pod_uid pod)))
             (\<lambda>h. podDelete oe h (pod_namespace pod) (pod_name pod) (pod_uid pod));
     if err = None \<or> err = Some NotFound then do {
       restarted rc oe pod now (case snap of Inl _ \<Rightarrow> None | Inr k \<Rightarrow> k);
       State_Monad.return None }
     else State_Monad.return err }"

section \<open>Orphan mounts\<close>

definition abort_unshared :: "op_env \<Rightarrow> string \<Rightarrow> string \<Rightarrow> ('w world_scheme, unit) state" where
  "abort_unshared oe path connID = do {
     shared \<leftarrow> fuseConnSharedByOtherMount oe path connID;
     if shared = Inr False then do { AbortFuseConn oe connID; State_Monad.return () }
     else State_Monad.return () }"

text \<open>What follows a successful unmount.\<close>

definition abort_and_kill :: "op_env \<Rightarrow> reconciler \<Rightarrow> string \<Rightarrow> string \<Rightarrow> ('w world_scheme, unit) state" where
  "abort_and_kill oe rc path connID = do {
     (if ShouldAbortOrphanFuse (oc_orphanFuseAbort rc) False \<and> connID \<noteq> ''''
      then abort_unshared oe path connID else State_Monad.return ());
     if ShouldKillOrphanMountProcess (oc_orphanKillMountProcess rc) False
     then do { BestEffortKillMountServer oe path; State_Monad.return () }
     else State_Monad.return () }"

definition maybeLazyUmountOrphan :: "op_env \<Rightarrow> reconciler \<Rightarrow> stale_mount \<Rightarrow> ('w world_scheme, unit) state" where
  "maybeLazyUmountOrphan oe rc mount =
     (if \<not> ShouldLazyUmountOrphan (oc_orphanLazyUmount rc) False then State_Monad.return ()
      else do {
        found \<leftarrow> ResolveFuseConnID oe (stale_mountPath mount);
        let connID = (case found of Inl _ \<Rightarrow> '''' | Inr i \<Rightarrow> i);
        err \<leftarrow> LazyUmount oe (stale_mountPath mount);
        if err \<noteq> None then State_Monad.return ()
        else abort_and_kill oe rc (stale_mountPath mount) connID })"

section \<open>The two reconciliations\<close>

text \<open>The pod of a UID: a later entry of the list replaces an earlier one in the map.\<close>

definition pod_by_uid :: "pod list \<Rightarrow> string \<Rightarrow> pod option" where
  "pod_by_uid pods uid = find (\<lambda>p. pod_uid p = uid) (rev pods)"

definition timed_out_reason :: "reason \<Rightarrow> bool" where
  "timed_out_reason r = (case r of None \<Rightarrow> False | Some (f, xs) \<Rightarrow> hasPrefix f ''mount probe timed out after '')"

definition reason_arg :: "reason \<Rightarrow> arg" where
  "reason_arg r = (case r of None \<Rightarrow> S '''' | Some (f, xs) \<Rightarrow> E (Errorf f xs))"

text \<open>The confirmation: a mount that only timed out in the scan is not confirmed.\<close>

definition confirm_stale :: "op_env \<Rightarrow> reconciler \<Rightarrow> stale_mount \<Rightarrow> ('w world_scheme, bool \<times> reason) state" where
  "confirm_stale oe rc mount =
     (if timed_out_reason (stale_reason mount) then State_Monad.return (False, stale_reason mount)
      else isMountCorrupted oe rc (stale_mountPath mount))"

definition reconcile_pod :: "op_env \<Rightarrow> reconciler \<Rightarrow> int \<Rightarrow> stale_mount \<Rightarrow> pod \<Rightarrow> ('w op_world_scheme, unit) state" where
  "reconcile_pod oe rc now mount pod =
     (if ShouldSkipPod pod then State_Monad.return ()
      else do {
        managed \<leftarrow> volumeManagedByProvisioner oe rc pod mount;
        if \<not> managed then State_Monad.return ()
        else do {
          limited \<leftarrow> isRateLimited oe rc pod now;
          if limited then State_Monad.return ()
          else do {
            (corrupted, why) \<leftarrow> confirm_stale oe rc mount;
            if \<not> corrupted then State_Monad.return ()
            else do {
              restartPod oe rc pod now EventReasonStaleCSIMount
                (''stale CSI mount %s: %s'', [S (stale_mountPath mount), reason_arg why]);
              State_Monad.return () } } } })"

definition reconcile_mount :: "op_env \<Rightarrow> reconciler \<Rightarrow> int \<Rightarrow> pod list \<Rightarrow> stale_mount \<Rightarrow> ('w op_world_scheme, unit) state" where
  "reconcile_mount oe rc now pods mount =
     (case pod_by_uid pods (stale_podUID mount) of
        None \<Rightarrow> maybeLazyUmountOrphan oe rc mount
      | Some pod \<Rightarrow> reconcile_pod oe rc now mount pod)"

definition list_node_pods :: "op_env \<Rightarrow> reconciler \<Rightarrow> ('w world_scheme, gerr + pod list) state" where
  "list_node_pods oe rc = do {
     pods \<leftarrow> call (Op (ListPodsOnNode (oc_nodeName rc) '''')) (\<lambda>h. podsOnNode oe h (oc_nodeName rc) '''');
     case pods of
       Inl e \<Rightarrow> fail (Wrapf ''list pods on node %s: %w'' [S (oc_nodeName rc)] (ExtError ''kubernetes''))
     | Inr ps \<Rightarrow> ok ps }"

definition ReconcileStaleMounts :: "op_env \<Rightarrow> reconciler \<Rightarrow> stale_mount list \<Rightarrow> ('w op_world_scheme, gerr + unit) state" where
  "ReconcileStaleMounts oe rc stale =
     (if stale = [] then ok ()
      else do {
        pods \<leftarrow> list_node_pods oe rc;
        case pods of
          Inl e \<Rightarrow> fail e
        | Inr ps \<Rightarrow> do {
            now \<leftarrow> call Now (time_now (base oe));
            for_each stale (reconcile_mount oe rc now ps);
            ok () } })"

definition refresh_pod :: "op_env \<Rightarrow> reconciler \<Rightarrow> int \<Rightarrow> pod \<Rightarrow> ('w op_world_scheme, unit) state" where
  "refresh_pod oe rc now pod =
     (if ShouldSkipPod pod then State_Monad.return ()
      else do {
        uses \<leftarrow> podUsesProvisioner oe rc pod;
        if \<not> uses then State_Monad.return ()
        else do {
          limited \<leftarrow> isRateLimited oe rc pod now;
          if limited then State_Monad.return ()
          else do {
            restartPod oe rc pod now EventReasonCSINodeUIDChanged
              (''CSI node pod restarted on node %s; refreshing volume binds'', [S (oc_nodeName rc)]);
            State_Monad.return () } } })"

definition ReconcileWorkloadPodsAfterCSIRestart :: "op_env \<Rightarrow> reconciler \<Rightarrow> ('w op_world_scheme, gerr + unit) state" where
  "ReconcileWorkloadPodsAfterCSIRestart oe rc = do {
     pods \<leftarrow> list_node_pods oe rc;
     case pods of
       Inl e \<Rightarrow> fail e
     | Inr ps \<Rightarrow> do {
         now \<leftarrow> call Now (time_now (base oe));
         for_each ps (refresh_pod oe rc now);
         ok () } }"

end
