(* ===== verification/Op_Cooldown.thy ===== *)
theory Op_Cooldown
  imports Op_Recovery
begin

text \<open>
  The cooldown of the recovery operator: what one reconciliation restarts, whom it never
  restarts, and what it does to orphan mounts. \<open>restarts\<close> reads off the trace which pods were
  deleted successfully between two states.
\<close>

section \<open>Restarts on the trace\<close>

fun deleted :: "op_env \<Rightarrow> history \<Rightarrow> history \<Rightarrow> (string \<times> string \<times> string) list" where
  "deleted oe h [] = []"
| "deleted oe h (Op (PodDelete ns n u) # es) =
     (if podDelete oe h ns n u = None \<or> podDelete oe h ns n u = Some NotFound then [(ns, n, u)] else [])
     @ deleted oe (h @ [Op (PodDelete ns n u)]) es"
| "deleted oe h (e # es) = deleted oe (h @ [e]) es"

definition pod_id :: "pod \<Rightarrow> string \<times> string \<times> string" where
  "pod_id p = (pod_namespace p, pod_name p, pod_uid p)"

definition restarts :: "op_env \<Rightarrow> 'w op_world_scheme \<Rightarrow> 'w op_world_scheme \<Rightarrow> (string \<times> string \<times> string) list \<Rightarrow> bool" where
  "restarts oe s s' ids \<longleftrightarrow> (\<exists>es. trace s' = trace s @ es \<and> deleted oe (trace s) es = ids)"

definition calm :: "op_env \<Rightarrow> 'w op_world_scheme \<Rightarrow> 'w op_world_scheme \<Rightarrow> bool" where
  "calm oe s s' \<longleftrightarrow> restarts oe s s' [] \<and> lastRecovery s' = lastRecovery s"

lemma deleted_append: "deleted oe h (es @ fs) = deleted oe h es @ deleted oe (h @ es) fs"
  by (induction oe h es rule: deleted.induct) auto

lemma deleted_none: "list_all (\<lambda>e. \<not> pod_deleting e) es \<Longrightarrow> deleted oe h es = []"
  by (induction oe h es rule: deleted.induct) auto

lemma restarts_trans: "restarts oe s s1 a \<Longrightarrow> restarts oe s1 s2 b \<Longrightarrow> restarts oe s s2 (a @ b)"
  by (auto simp: restarts_def deleted_append)

lemma restarts_refl: "restarts oe s s []"
  by (simp add: restarts_def)

lemma restarts_fields [simp]:
  "restarts oe (s\<lparr>lastRecovery := m\<rparr>) s' ids = restarts oe s s' ids"
  "restarts oe s (s'\<lparr>lastRecovery := m\<rparr>) ids = restarts oe s s' ids"
  "restarts oe s (s'\<lparr>annotating := js\<rparr>) ids = restarts oe s s' ids"
  by (simp_all add: restarts_def)

lemma off_world_lastRecovery [frame]: "off_world lastRecovery"
  by (simp add: off_world_def)

lemma wp_calm:
  fixes s :: "'w op_world_scheme"
  assumes "adds (\<lambda>e. \<not> pod_deleting e) m" and "keeps lastRecovery m"
  shows "wp m (\<lambda>_. calm oe s) s"
proof (rule wpI)
  fix r s' assume run: "run_state m s = (r, s')"
  obtain es where "trace s' = trace s @ es" "list_all (\<lambda>e. \<not> pod_deleting e) es"
    using adds_run [OF assms(1) run] .
  then show "calm oe s s'" using keeps_run [OF assms(2) run] deleted_none by (auto simp: calm_def restarts_def)
qed

lemma wp_bind_calm:
  fixes s :: "'w op_world_scheme"
  assumes "adds (\<lambda>e. \<not> pod_deleting e) m" and "keeps lastRecovery m" and "\<And>r s'. calm oe s s' \<Longrightarrow> wp (f r) Q s'"
  shows "wp (State_Monad.bind m f) Q s"
  unfolding wp_bind by (rule wp_mono [OF wp_calm [OF assms(1,2)] assms(3)])

section \<open>Operations that restart nothing\<close>

text \<open>Every operation but a restart is calm; the two collections carry the parts.\<close>

lemma adds_looking_no_delete [frame]:
  "adds (\<lambda>e. \<not> pod_deleting e) (ReadCSIDriverName oe d)" "adds (\<lambda>e. \<not> pod_deleting e) (CSIMountManagedBy oe path provisioner)"
  "adds (\<lambda>e. \<not> pod_deleting e) (PodHasLocalProvisionerVolume oe kubeletDir uid provisioner)"
  "adds (\<lambda>e. \<not> pod_deleting e) (read_file oe path)"
  by (intro adds_looking frame)+

lemma adds_volumes [frame]:
  "adds (\<lambda>e. \<not> pod_deleting e) (claim_driver oe ns claim)"
  "adds (\<lambda>e. \<not> pod_deleting e) (has_provisioner_volume oe provisioner ns vols)"
proof -
  show claim: "adds (\<lambda>e. \<not> pod_deleting e) (claim_driver oe ns claim)" for claim
    by (auto simp: claim_driver_def intro!: frame)
  show "adds (\<lambda>e. \<not> pod_deleting e) (has_provisioner_volume oe provisioner ns vols)"
    by (induction vols) (auto intro!: frame claim)
qed

lemma keeps_volumes [frame]:
  assumes "off_world p"
  shows "keeps p (claim_driver oe ns claim)" and "keeps p (has_provisioner_volume oe provisioner ns vols)"
proof -
  show claim: "keeps p (claim_driver oe ns claim)" for claim
    using assms by (auto simp: claim_driver_def intro!: frame)
  show "keeps p (has_provisioner_volume oe provisioner ns vols)"
    by (induction vols) (auto intro!: frame claim)
qed

lemma adds_ownership_checks [frame]:
  "adds (\<lambda>e. \<not> pod_deleting e) (podUsesProvisioner oe rc pod)"
  "adds (\<lambda>e. \<not> pod_deleting e) (volumeManagedByProvisioner oe rc pod mount)"
  "adds (\<lambda>e. \<not> pod_deleting e) (ownerAnnotationRateLimited oe rc pod now)"
  "adds (\<lambda>e. \<not> pod_deleting e) (isMountCorrupted oe rc path)"
  "adds (\<lambda>e. \<not> pod_deleting e) (confirm_stale oe rc mount)"
  by (auto simp: podUsesProvisioner_def podHasProvisionerVolume_def volumeManagedByProvisioner_def
      podUsesProvisionerVolume_def ownerAnnotationRateLimited_def owner_get_def isMountCorrupted_def confirm_stale_def
      IsMountPathCorruptedWithTimeout_def probeMountPathWithTimeout_def intro!: frame)

lemma keeps_ownership_checks [frame]:
  assumes "off_world p"
  shows "keeps p (podUsesProvisioner oe rc pod)" and "keeps p (volumeManagedByProvisioner oe rc pod mount)"
    and "keeps p (ownerAnnotationRateLimited oe rc pod now)" and "keeps p (confirm_stale oe rc mount)"
  using assms
  by (auto simp: podUsesProvisioner_def podHasProvisionerVolume_def volumeManagedByProvisioner_def
      podUsesProvisionerVolume_def ownerAnnotationRateLimited_def owner_get_def isMountCorrupted_def confirm_stale_def
      IsMountPathCorruptedWithTimeout_def probeMountPathWithTimeout_def intro!: frame)

lemma retry_frame [frame]:
  "adds P body \<Longrightarrow> adds P (retry_on_conflict n body)" "keeps p body \<Longrightarrow> keeps p (retry_on_conflict n body)"
  by (induction n) (auto intro!: frame)

lemma adds_restart_parts [frame]:
  "adds (\<lambda>e. \<not> pod_deleting e) (annotateOwner oe pod now)"
  "adds (\<lambda>e. \<not> pod_deleting e) (snapshotOwnerPodUIDs oe pod)"
  "adds (\<lambda>e. \<not> pod_deleting e) (emitRecoveryEvents rc pod why message)"
  by (auto simp: annotateOwner_def annotate_owner_once_def owner_get_def snapshotOwnerPodUIDs_def
      emitRecoveryEvents_def intro!: frame)

lemma keeps_restart_parts [frame]:
  assumes "off_world p"
  shows "keeps p (annotateOwner oe pod now)" and "keeps p (snapshotOwnerPodUIDs oe pod)"
    and "keeps p (emitRecoveryEvents rc pod why message)"
  using assms
  by (auto simp: annotateOwner_def annotate_owner_once_def owner_get_def snapshotOwnerPodUIDs_def
      emitRecoveryEvents_def intro!: frame)

lemma adds_signals_no_delete: "adds (signals P) m \<Longrightarrow> adds (\<lambda>e. \<not> pod_deleting e) m"
  by (erule adds_mono) (metis pod_deleting.elims(2) signals.simps(4))

lemma adds_orphan [frame]: "adds (\<lambda>e. \<not> pod_deleting e) (maybeLazyUmountOrphan oe rc mount)"
proof -
  have "adds (\<lambda>e. \<not> pod_deleting e) (BestEffortKillMountServer oe path)" for path
    by (rule adds_signals_no_delete) (rule adds_BestEffortKill)
  then show ?thesis
    by (auto simp: maybeLazyUmountOrphan_def abort_and_kill_def ResolveFuseConnID_def LazyUmount_def abort_unshared_def
        fuseConnSharedByOtherMount_def AbortFuseConn_def Let_def intro!: frame)
qed

lemma keeps_kill [frame]:
  assumes "off_world p"
  shows "keeps p (signalMountServer oe pid)" and "keeps p (kill_candidate oe path e)"
    and "keeps p (BestEffortKillMountServer oe path)"
proof -
  note rules = frame assms
  have wait: "keeps p (kill_wait n oe deadline pid)" for n deadline pid
    by (induction n) (auto simp: pidAlive_def intro!: rules)
  show signal: "keeps p (signalMountServer oe pid)" for pid
    by (auto simp: signalMountServer_def kill_after_wait_def processState_def pidAlive_def signal_process_def
        intro!: rules wait)
  show candidate: "keeps p (kill_candidate oe path e)" for e
    by (auto simp: kill_candidate_def intro!: rules signal split: option.split prod.split)
  show "keeps p (BestEffortKillMountServer oe path)"
    by (auto simp: BestEffortKillMountServer_def intro!: rules candidate)
qed

lemma keeps_orphan [frame]: "off_world p \<Longrightarrow> keeps p (maybeLazyUmountOrphan oe rc mount)"
  by (auto simp: maybeLazyUmountOrphan_def abort_and_kill_def ResolveFuseConnID_def LazyUmount_def abort_unshared_def
      fuseConnSharedByOtherMount_def AbortFuseConn_def Let_def intro!: frame)

section \<open>One restart\<close>

definition in_cooldown :: "reconciler \<Rightarrow> int \<Rightarrow> (string \<rightharpoonup> int) \<Rightarrow> string \<Rightarrow> bool" where
  "in_cooldown rc now m k \<longleftrightarrow> (\<exists>t. m k = Some t \<and> now - t < oc_cooldown rc)"

lemma prune_Some: "pruneExpiredRecoveries rc now m k = Some t \<longleftrightarrow> m k = Some t \<and> now - t < oc_cooldown rc"
  by (auto simp: pruneExpiredRecoveries_def split: option.splits)

lemma prune_None: "pruneExpiredRecoveries rc now m k = None \<longleftrightarrow> \<not> in_cooldown rc now m k"
  by (auto simp: pruneExpiredRecoveries_def in_cooldown_def split: option.splits)

text \<open>Pruning removes no entry that still blocks a recovery.\<close>

lemma prune_in_cooldown [simp]: "in_cooldown rc now (pruneExpiredRecoveries rc now m) k = in_cooldown rc now m k"
  by (simp add: in_cooldown_def prune_Some)

lemma calm_refl: "calm oe s s"
  by (simp add: calm_def restarts_refl)

lemma calm_trans: "calm oe s s1 \<Longrightarrow> calm oe s1 s2 \<Longrightarrow> calm oe s s2"
  unfolding calm_def using restarts_trans [of oe s s1 "[]" s2 "[]"] by simp

lemma wp_restarted:
  fixes s :: "'w op_world_scheme"
  shows "wp (restarted rc oe pod now known)
    (\<lambda>_ s'. restarts oe s s' [] \<and> lastRecovery s' = (pruneExpiredRecoveries rc now (lastRecovery s))(RecoveryKey pod \<mapsto> now)) s"
  unfolding restarted_def markRecovered_def wp
  by (rule wp_mono [OF wp_calm])
    (auto simp: calm_def scheduleReplacementAnnotate_def wp split: option.split intro!: frame)

text \<open>A restart deletes its pod and records it, or fails and records nothing.\<close>

lemma wp_restartPod:
  fixes s :: "'w op_world_scheme"
  shows "wp (restartPod oe rc pod now why message)
    (\<lambda>r s'. (if r = None
        then restarts oe s s' [pod_id pod] \<and> lastRecovery s' = (pruneExpiredRecoveries rc now (lastRecovery s))(RecoveryKey pod \<mapsto> now)
        else calm oe s s')) s"
  unfolding restartPod_def
proof (rule wp_bind_calm [OF adds_restart_parts(3) keeps_restart_parts(3) [OF off_world_lastRecovery]],
    rule wp_bind_calm [OF adds_restart_parts(2) keeps_restart_parts(2) [OF off_world_lastRecovery]])
  fix s1 s2 :: "'w op_world_scheme" and snap
  assume calm: "calm oe s s1" "calm oe s1 s2"
  let ?e = "Op (PodDelete (pod_namespace pod) (pod_name pod) (pod_uid pod))"
  let ?err = "podDelete oe (trace s2) (pod_namespace pod) (pod_name pod) (pod_uid pod)"
  let ?s2 = "s2\<lparr>trace := trace s2 @ [?e]\<rparr>"
  have base: "restarts oe s s2 []" "lastRecovery s2 = lastRecovery s"
    using calm_trans [OF calm] by (auto simp: calm_def)
  have del: "restarts oe s ?s2 (if ?err = None \<or> ?err = Some NotFound then [pod_id pod] else [])"
    using restarts_trans [OF base(1), of ?s2 "if ?err = None \<or> ?err = Some NotFound then [pod_id pod] else []"]
    by (simp add: restarts_def pod_id_def)
  have finish: "wp (restarted rc oe pod now known) (\<lambda>_ s'. restarts oe s s' [pod_id pod]
        \<and> lastRecovery s' = (pruneExpiredRecoveries rc now (lastRecovery s))(RecoveryKey pod \<mapsto> now)) ?s2"
    if "?err = None \<or> ?err = Some NotFound" for known
    using del that base(2) restarts_trans [of oe s ?s2 "[pod_id pod]" _ "[]"]
    by (intro wp_mono [OF wp_restarted]) auto
  show "wp (State_Monad.bind (call ?e (\<lambda>h. podDelete oe h (pod_namespace pod) (pod_name pod) (pod_uid pod)))
     (\<lambda>err. if err = None \<or> err = Some NotFound
        then State_Monad.bind (restarted rc oe pod now (case snap of Inl _ \<Rightarrow> None | Inr k \<Rightarrow> k)) (\<lambda>_. State_Monad.return None)
        else State_Monad.return err))
     (\<lambda>r s'. if r = None
        then restarts oe s s' [pod_id pod] \<and> lastRecovery s' = (pruneExpiredRecoveries rc now (lastRecovery s))(RecoveryKey pod \<mapsto> now)
        else calm oe s s') s2"
    using del base(2) by (auto simp: wp calm_def intro!: wp_mono [OF finish])
qed

lemma wp_isRateLimited:
  fixes s :: "'w op_world_scheme"
  shows "wp (isRateLimited oe rc pod now)
    (\<lambda>r s'. restarts oe s s' [] \<and> lastRecovery s' = pruneExpiredRecoveries rc now (lastRecovery s)
       \<and> (in_cooldown rc now (lastRecovery s) (RecoveryKey pod) \<longrightarrow> r)) s"
proof -
  let ?s = "s\<lparr>lastRecovery := pruneExpiredRecoveries rc now (lastRecovery s)\<rparr>"
  have "wp (ownerAnnotationRateLimited oe rc pod now) (\<lambda>_. calm oe ?s) ?s"
    by (rule wp_calm) (auto intro!: frame)
  then have "wp (ownerAnnotationRateLimited oe rc pod now)
      (\<lambda>_ s'. restarts oe s s' [] \<and> lastRecovery s' = pruneExpiredRecoveries rc now (lastRecovery s)) ?s"
    by (rule wp_mono) (simp add: calm_def)
  then show ?thesis
    by (auto simp: isRateLimited_def wp prune_None prune_Some restarts_refl split: option.split elim!: wp_mono)
qed

section \<open>One step of a reconciliation\<close>

lemma prune_prune [simp]: "pruneExpiredRecoveries rc now (pruneExpiredRecoveries rc now m) = pruneExpiredRecoveries rc now m"
  by (rule ext) (simp add: pruneExpiredRecoveries_def split: option.split)

lemma prune_update [simp]:
  "0 < oc_cooldown rc \<Longrightarrow> pruneExpiredRecoveries rc now (m(k \<mapsto> now)) = (pruneExpiredRecoveries rc now m)(k \<mapsto> now)"
  by (rule ext) (simp add: pruneExpiredRecoveries_def)

text \<open>Two tables that differ in expired entries only, of which the second may have dropped some.\<close>

definition same_recoveries :: "reconciler \<Rightarrow> int \<Rightarrow> (string \<rightharpoonup> int) \<Rightarrow> (string \<rightharpoonup> int) \<Rightarrow> bool" where
  "same_recoveries rc now m m' \<longleftrightarrow>
     pruneExpiredRecoveries rc now m' = pruneExpiredRecoveries rc now m \<and> map_le m' m"

lemma map_le_prune: "map_le (pruneExpiredRecoveries rc now m) m"
  by (auto simp: map_le_def prune_Some dom_def)

lemma same_refl [simp]: "same_recoveries rc now m m"
  by (simp add: same_recoveries_def)

lemma same_prune [simp]: "same_recoveries rc now m (pruneExpiredRecoveries rc now m)"
  by (simp add: same_recoveries_def map_le_prune)

lemma same_trans: "same_recoveries rc now m m1 \<Longrightarrow> same_recoveries rc now m1 m2 \<Longrightarrow> same_recoveries rc now m m2"
  unfolding same_recoveries_def by (metis map_le_trans)

lemma same_update: "0 < oc_cooldown rc \<Longrightarrow> same_recoveries rc now m m1
    \<Longrightarrow> same_recoveries rc now (m(k \<mapsto> now)) (m1(k \<mapsto> now))"
  by (simp add: same_recoveries_def map_le_upd)

lemma same_in_cooldown: "same_recoveries rc now m m1 \<Longrightarrow> in_cooldown rc now m1 k = in_cooldown rc now m k"
  unfolding same_recoveries_def by (metis prune_in_cooldown)

text \<open>
  One entry of a reconciliation at \<open>now\<close>: it restarts nothing, or one pod that may be restarted
  and whose workload is not in its cooldown, and then records it.
\<close>

definition at_most_one :: "op_env \<Rightarrow> reconciler \<Rightarrow> int \<Rightarrow> pod list \<Rightarrow> 'w op_world_scheme \<Rightarrow> 'w op_world_scheme \<Rightarrow> bool" where
  "at_most_one oe rc now pods s s' \<longleftrightarrow>
     (restarts oe s s' [] \<and> same_recoveries rc now (lastRecovery s) (lastRecovery s'))
     \<or> (\<exists>p \<in> set pods. \<not> ShouldSkipPod p \<and> \<not> in_cooldown rc now (lastRecovery s) (RecoveryKey p) \<and> restarts oe s s' [pod_id p]
         \<and> same_recoveries rc now ((lastRecovery s)(RecoveryKey p \<mapsto> now)) (lastRecovery s'))"

lemma calm_at_most_one: "calm oe s s' \<Longrightarrow> at_most_one oe rc now pods s s'"
  by (simp add: calm_def at_most_one_def)

lemma at_most_one_after:
  assumes "0 < oc_cooldown rc" and "restarts oe s s1 []" and "same_recoveries rc now (lastRecovery s) (lastRecovery s1)"
    and "at_most_one oe rc now pods s1 s2"
  shows "at_most_one oe rc now pods s s2"
  using assms(4) restarts_trans [OF assms(2)] same_trans [OF assms(3)] same_in_cooldown [OF assms(3)]
    same_trans [OF same_update [OF assms(1,3)]]
  unfolding at_most_one_def by fastforce

lemma at_most_one_after_calm:
  "0 < oc_cooldown rc \<Longrightarrow> calm oe s s1 \<Longrightarrow> at_most_one oe rc now pods s1 s2 \<Longrightarrow> at_most_one oe rc now pods s s2"
  by (erule at_most_one_after) (simp_all add: calm_def)

lemma at_most_one_after_prune:
  "0 < oc_cooldown rc \<Longrightarrow> restarts oe s s1 [] \<Longrightarrow> lastRecovery s1 = pruneExpiredRecoveries rc now (lastRecovery s)
    \<Longrightarrow> at_most_one oe rc now pods s1 s2 \<Longrightarrow> at_most_one oe rc now pods s s2"
  by (erule at_most_one_after) simp_all

lemma wp_restart_at_most_one:
  assumes "0 < oc_cooldown rc" and "p \<in> set pods" and "\<not> ShouldSkipPod p" and "\<not> in_cooldown rc now (lastRecovery s) (RecoveryKey p)"
  shows "wp (restartPod oe rc p now why message) (\<lambda>_. at_most_one oe rc now pods s) s"
  using assms same_update [OF assms(1) same_prune]
  by (intro wp_mono [OF wp_restartPod]) (auto simp: at_most_one_def calm_def split: if_splits)

text \<open>
  The shape shared by the two reconciliations: a check that restarts nothing, the rate limit,
  another check, the restart.
\<close>

lemma wp_limited:
  fixes s :: "'w op_world_scheme"
  assumes "0 < oc_cooldown rc"
    and "\<And>s'. restarts oe s s' [] \<Longrightarrow> lastRecovery s' = pruneExpiredRecoveries rc now (lastRecovery s)
      \<Longrightarrow> \<not> in_cooldown rc now (lastRecovery s') (RecoveryKey p) \<Longrightarrow> wp m (\<lambda>_. at_most_one oe rc now pods s') s'"
  shows "wp (State_Monad.bind (isRateLimited oe rc p now) (\<lambda>limited. if limited then State_Monad.return () else m))
    (\<lambda>_. at_most_one oe rc now pods s) s"
  unfolding wp_bind
proof (rule wp_mono [OF wp_isRateLimited], elim conjE)
  fix limited and s1 :: "'w op_world_scheme"
  assume s1: "restarts oe s s1 []" "lastRecovery s1 = pruneExpiredRecoveries rc now (lastRecovery s)"
    and "in_cooldown rc now (lastRecovery s) (RecoveryKey p) \<longrightarrow> limited"
  then have "\<not> limited \<Longrightarrow> wp m (\<lambda>_. at_most_one oe rc now pods s1) s1" by (intro assms(2)) auto
  moreover have "at_most_one oe rc now pods s s1" using s1 by (simp add: at_most_one_def)
  ultimately show "wp (if limited then State_Monad.return () else m) (\<lambda>_. at_most_one oe rc now pods s) s1"
    by (auto simp: wp elim!: wp_mono intro: at_most_one_after_prune [OF assms(1) s1])
qed

lemma find_in: "find P xs = Some x \<Longrightarrow> x \<in> set xs \<and> P x"
  by (induction xs) (auto split: if_splits)

lemma pod_by_uid_in: "pod_by_uid pods uid = Some p \<Longrightarrow> p \<in> set pods \<and> pod_uid p = uid"
  unfolding pod_by_uid_def by (drule find_in) (simp only: set_rev)

lemma wp_at_most_one_bind:
  fixes s :: "'w op_world_scheme"
  assumes "0 < oc_cooldown rc" and "adds (\<lambda>e. \<not> pod_deleting e) m" and "keeps lastRecovery m"
    and "\<And>r s'. wp (f r) (\<lambda>_. at_most_one oe rc now pods s') s'"
  shows "wp (State_Monad.bind m f) (\<lambda>_. at_most_one oe rc now pods s) s"
proof (rule wp_bind_calm [OF assms(2,3)])
  fix r s' assume "calm oe s s'"
  then show "wp (f r) (\<lambda>_. at_most_one oe rc now pods s) s'"
    by (auto intro: wp_mono [OF assms(4)] at_most_one_after_calm [OF assms(1)])
qed

lemma wp_skip_at_most_one: "wp (State_Monad.return ()) (\<lambda>_. at_most_one oe rc now pods s) s"
  by (simp add: wp calm_at_most_one calm_refl)

lemma wp_restart_last:
  fixes s :: "'w op_world_scheme"
  assumes "0 < oc_cooldown rc" and "p \<in> set pods" and "\<not> ShouldSkipPod p" and "\<not> in_cooldown rc now (lastRecovery s) (RecoveryKey p)"
  shows "wp (State_Monad.bind (restartPod oe rc p now why message) (\<lambda>_. State_Monad.return ()))
    (\<lambda>_. at_most_one oe rc now pods s) s"
  using wp_restart_at_most_one [OF assms] by (simp add: wp)

text \<open>The confirmation in between leaves the cooldowns alone.\<close>

lemma wp_confirmed:
  fixes s :: "'w op_world_scheme"
  assumes "0 < oc_cooldown rc" and "p \<in> set pods" and "\<not> ShouldSkipPod p" and "\<not> in_cooldown rc now (lastRecovery s) (RecoveryKey p)"
  shows "wp (do { (corrupted, why) \<leftarrow> confirm_stale oe rc mount;
           if \<not> corrupted then State_Monad.return ()
           else do { restartPod oe rc p now reason (message why); State_Monad.return () } })
    (\<lambda>_. at_most_one oe rc now pods s) s"
proof (rule wp_bind_calm [OF adds_ownership_checks(5) keeps_ownership_checks(4) [OF off_world_lastRecovery]])
  fix r :: "bool \<times> reason" and s'
  assume calm: "calm oe s s'"
  then have "\<not> in_cooldown rc now (lastRecovery s') (RecoveryKey p)" using assms(4) by (simp add: calm_def)
  then have "wp (restartPod oe rc p now reason message) (\<lambda>_. at_most_one oe rc now pods s) s'" for message
    by (rule wp_mono [OF wp_restart_at_most_one [OF assms(1-3)]]) (rule at_most_one_after_calm [OF assms(1) calm])
  then show "wp (case r of (corrupted, why) \<Rightarrow>
      if \<not> corrupted then State_Monad.return ()
      else do { restartPod oe rc p now reason (message why); State_Monad.return () })
    (\<lambda>_. at_most_one oe rc now pods s) s'"
    using calm_at_most_one [OF calm] by (auto simp: wp split: prod.split)
qed

lemma wp_reconcile_pod:
  fixes s :: "'w op_world_scheme"
  assumes "0 < oc_cooldown rc" and "p \<in> set pods"
  shows "wp (reconcile_pod oe rc now mount p) (\<lambda>_. at_most_one oe rc now pods s) s"
proof (cases "ShouldSkipPod p")
  case False
  have "wp (if \<not> managed then State_Monad.return ()
      else do { limited \<leftarrow> isRateLimited oe rc p now;
        if limited then State_Monad.return ()
        else do { (corrupted, why) \<leftarrow> confirm_stale oe rc mount;
          if \<not> corrupted then State_Monad.return ()
          else do { restartPod oe rc p now EventReasonStaleCSIMount
                (''stale CSI mount %s: %s'', [S (stale_mountPath mount), reason_arg why]);
              State_Monad.return () } } })
     (\<lambda>_. at_most_one oe rc now pods s') s'" for managed and s' :: "'w op_world_scheme"
    using assms False by (cases managed) (auto simp only: simp_thms if_True if_False intro!: wp_skip_at_most_one wp_limited [OF assms(1)] wp_confirmed)
  with False show ?thesis
    unfolding reconcile_pod_def by (simp only: if_False) (rule wp_at_most_one_bind [OF assms(1)]; auto intro!: frame)
qed (simp add: reconcile_pod_def wp_skip_at_most_one)

lemma wp_reconcile_mount:
  fixes s :: "'w op_world_scheme"
  assumes "0 < oc_cooldown rc"
  shows "wp (reconcile_mount oe rc now pods mount) (\<lambda>_. at_most_one oe rc now pods s) s"
proof (cases "pod_by_uid pods (stale_podUID mount)")
  case None
  then show ?thesis
    by (auto simp: reconcile_mount_def intro!: wp_mono [OF wp_calm] frame calm_at_most_one)
next
  case (Some p)
  then show ?thesis
    using pod_by_uid_in [OF Some] by (auto simp: reconcile_mount_def intro: wp_reconcile_pod [OF assms])
qed

lemma wp_refresh_pod:
  fixes s :: "'w op_world_scheme"
  assumes "0 < oc_cooldown rc" and "p \<in> set pods"
  shows "wp (refresh_pod oe rc now p) (\<lambda>_. at_most_one oe rc now pods s) s"
proof (cases "ShouldSkipPod p")
  case False
  have "wp (if \<not> uses then State_Monad.return ()
      else do { limited \<leftarrow> isRateLimited oe rc p now;
        if limited then State_Monad.return ()
        else do { restartPod oe rc p now EventReasonCSINodeUIDChanged
              (''CSI node pod restarted on node %s; refreshing volume binds'', [S (oc_nodeName rc)]);
            State_Monad.return () } })
     (\<lambda>_. at_most_one oe rc now pods s') s'" for uses and s' :: "'w op_world_scheme"
    using assms False by (cases uses) (auto simp only: simp_thms if_True if_False intro!: wp_skip_at_most_one wp_limited [OF assms(1)] wp_restart_last)
  with False show ?thesis
    unfolding refresh_pod_def by (simp only: if_False) (rule wp_at_most_one_bind [OF assms(1)]; auto intro!: frame)
qed (simp add: refresh_pod_def wp_skip_at_most_one)

section \<open>A whole reconciliation\<close>

text \<open>
  The pods \<open>ps\<close> have been restarted between two states: each may be restarted and belongs to a
  workload of its own that was not in its cooldown, and exactly these workloads have been
  recorded.
\<close>

definition recovered :: "op_env \<Rightarrow> reconciler \<Rightarrow> int \<Rightarrow> pod list \<Rightarrow> 'w op_world_scheme \<Rightarrow> 'w op_world_scheme \<Rightarrow> pod list \<Rightarrow> bool" where
  "recovered oe rc now pods s s' ps \<longleftrightarrow>
     restarts oe s s' (map pod_id ps) \<and> distinct (map RecoveryKey ps)
     \<and> (\<forall>p \<in> set ps. p \<in> set pods \<and> \<not> ShouldSkipPod p \<and> \<not> in_cooldown rc now (lastRecovery s) (RecoveryKey p))
     \<and> same_recoveries rc now (\<lambda>k. if k \<in> RecoveryKey ` set ps then Some now else lastRecovery s k) (lastRecovery s')"

lemma recovered_none: "recovered oe rc now pods s s []"
  by (simp add: recovered_def restarts_refl)

lemma not_recorded:
  assumes "0 < oc_cooldown rc" and "recovered oe rc now pods s s1 ps" and "\<not> in_cooldown rc now (lastRecovery s1) k"
  shows "k \<notin> RecoveryKey ` set ps \<and> \<not> in_cooldown rc now (lastRecovery s) k"
proof -
  have "\<not> in_cooldown rc now (\<lambda>k. if k \<in> RecoveryKey ` set ps then Some now else lastRecovery s k) k"
    using assms(2,3) same_in_cooldown unfolding recovered_def by blast
  then show ?thesis using assms(1) by (auto simp: in_cooldown_def split: if_splits)
qed

lemma recovered_step:
  assumes "0 < oc_cooldown rc" and "recovered oe rc now pods s s1 ps" and "at_most_one oe rc now pods s1 s2"
  shows "\<exists>qs. recovered oe rc now pods s s2 qs"
  using assms(3) unfolding at_most_one_def
proof (elim disjE conjE bexE)
  assume none: "restarts oe s1 s2 []" and same: "same_recoveries rc now (lastRecovery s1) (lastRecovery s2)"
  have "recovered oe rc now pods s s2 ps"
    unfolding recovered_def
  proof (intro conjI)
    show "restarts oe s s2 (map pod_id ps)"
      using assms(2) restarts_trans [OF _ none, of s] by (simp add: recovered_def)
    have "same_recoveries rc now (\<lambda>k. if k \<in> RecoveryKey ` set ps then Some now else lastRecovery s k) (lastRecovery s1)"
      using assms(2) by (simp add: recovered_def)
    from same_trans [OF this same]
    show "same_recoveries rc now (\<lambda>k. if k \<in> RecoveryKey ` set ps then Some now else lastRecovery s k) (lastRecovery s2)" .
  qed (use assms(2) in \<open>simp_all add: recovered_def\<close>)
  then show ?thesis ..
next
  fix p
  let ?table = "\<lambda>ps k. if k \<in> RecoveryKey ` set ps then Some now else lastRecovery s k"
  assume p: "p \<in> set pods" "\<not> ShouldSkipPod p" "\<not> in_cooldown rc now (lastRecovery s1) (RecoveryKey p)"
    and two: "restarts oe s1 s2 [pod_id p]"
    and rec: "same_recoveries rc now ((lastRecovery s1)(RecoveryKey p \<mapsto> now)) (lastRecovery s2)"
  have "restarts oe s s2 (map pod_id (ps @ [p]))"
    using assms(2) restarts_trans [OF _ two, of s] by (simp add: recovered_def)
  moreover have table: "?table (ps @ [p]) = (?table ps)(RecoveryKey p \<mapsto> now)" by (auto simp: fun_eq_iff)
  have "same_recoveries rc now (?table ps) (lastRecovery s1)" using assms(2) by (simp add: recovered_def)
  then have "same_recoveries rc now (?table (ps @ [p])) (lastRecovery s2)"
    unfolding table by (rule same_trans [OF same_update [OF assms(1)] rec])
  ultimately show ?thesis
    using assms(2) p(1,2) not_recorded [OF assms(1,2) p(3)]
    by (intro exI [of _ "ps @ [p]"]) (auto simp: recovered_def)
qed

lemma wp_recovered_loop:
  fixes s :: "'w op_world_scheme"
  assumes "0 < oc_cooldown rc"
    and "\<And>x s. x \<in> set xs \<Longrightarrow> wp (f x) (\<lambda>_. at_most_one oe rc now pods s) s"
    and "recovered oe rc now pods s0 s ps"
  shows "wp (for_each xs f) (\<lambda>_ s'. \<exists>qs. recovered oe rc now pods s0 s' qs) s"
  using assms(2,3)
proof (induction xs arbitrary: s ps)
  case (Cons x xs)
  have "wp (f x) (\<lambda>_. at_most_one oe rc now pods s) s" using Cons.prems(1) by simp
  then have "wp (f x) (\<lambda>_. wp (for_each xs f) (\<lambda>_ s'. \<exists>qs. recovered oe rc now pods s0 s' qs)) s"
  proof (rule wp_mono)
    fix s1 assume "at_most_one oe rc now pods s s1"
    then obtain qs where "recovered oe rc now pods s0 s1 qs"
      using recovered_step [OF assms(1) Cons.prems(2)] by blast
    then show "wp (for_each xs f) (\<lambda>_ s'. \<exists>qs. recovered oe rc now pods s0 s' qs) s1"
      using Cons.prems(1) by (intro Cons.IH) auto
  qed
  then show ?case by (simp add: wp)
qed (auto simp: wp)

text \<open>What both reconciliations do to the pods of the node; \<open>now\<close> is read in between.\<close>

definition restarts_few :: "op_env \<Rightarrow> reconciler \<Rightarrow> 'w op_world_scheme \<Rightarrow> gerr + unit \<Rightarrow> 'w op_world_scheme \<Rightarrow> bool" where
  "restarts_few oe rc s r s' \<longleftrightarrow>
     calm oe s s' \<or> (\<exists>now pods ps h es1 es2. podsOnNode oe h (oc_nodeName rc) '''' = Inr pods
        \<and> trace s' = trace s @ es1 @ es2 \<and> now = time_now (base oe) (trace s @ es1)
        \<and> r = Inr () \<and> recovered oe rc now pods s s' ps)"

lemma recovered_after_calm:
  assumes "calm oe s s1" and "recovered oe rc now pods s1 s2 ps"
  shows "recovered oe rc now pods s s2 ps"
proof -
  have eq: "lastRecovery s1 = lastRecovery s" and none: "restarts oe s s1 []" using assms(1) by (simp_all add: calm_def)
  have "restarts oe s s2 (map pod_id ps)" using assms(2) restarts_trans [OF none] by (simp add: recovered_def)
  then show ?thesis using assms(2) unfolding recovered_def eq by blast
qed

lemma wp_list_node_pods:
  fixes s :: "'w op_world_scheme"
  shows "wp (list_node_pods oe rc) (\<lambda>r s'. calm oe s s'
     \<and> (case r of Inl _ \<Rightarrow> True | Inr pods \<Rightarrow> podsOnNode oe (trace s) (oc_nodeName rc) '''' = Inr pods)) s"
proof -
  have "wp (list_node_pods oe rc) (\<lambda>_. calm oe s) s"
    by (rule wp_calm) (auto simp: list_node_pods_def intro!: frame)
  then show ?thesis
    by (rule wp_conjI) (auto simp: list_node_pods_def wp split: sum.split)
qed

lemma wp_reconcile_loop:
  fixes s :: "'w op_world_scheme"
  assumes "0 < oc_cooldown rc"
    and "\<And>now pods x s. x \<in> set (xs pods) \<Longrightarrow> wp (f now pods x) (\<lambda>_. at_most_one oe rc now pods s) s"
  shows "wp (do { pods \<leftarrow> list_node_pods oe rc;
        case pods of Inl e \<Rightarrow> fail e
        | Inr ps \<Rightarrow> do { now \<leftarrow> call Now (time_now (base oe)); for_each (xs ps) (f now ps); ok () } })
     (restarts_few oe rc s) s"
  unfolding wp_bind
proof (rule wp_mono [OF wp_list_node_pods], elim conjE)
  fix r :: "gerr + pod list" and s1 :: "'w op_world_scheme"
  assume s1: "calm oe s s1"
    and pods: "case r of Inl _ \<Rightarrow> True | Inr pods \<Rightarrow> podsOnNode oe (trace s) (oc_nodeName rc) '''' = Inr pods"
  show "wp (case r of Inl e \<Rightarrow> fail e
      | Inr ps \<Rightarrow> do { now \<leftarrow> call Now (time_now (base oe)); for_each (xs ps) (f now ps); ok () }) (restarts_few oe rc s) s1"
  proof (cases r)
    case (Inl e)
    then show ?thesis using s1 by (simp add: wp restarts_few_def)
  next
    case (Inr ps)
    let ?now = "time_now (base oe) (trace s1)" and ?s1 = "s1\<lparr>trace := trace s1 @ [Now]\<rparr>"
    have "calm oe s1 ?s1" by (simp add: calm_def restarts_def)
    then have s: "calm oe s ?s1" using calm_trans [OF s1] by blast
    obtain es1 where es1: "trace s1 = trace s @ es1" using s1 by (auto simp: calm_def restarts_def)
    have "restarts_few oe rc s (Inr ()) s'" if rec: "recovered oe rc ?now ps ?s1 s' qs" for s' qs
    proof -
      obtain es2 where "trace s' = trace s @ es1 @ es2"
        using rec es1 by (auto simp: recovered_def restarts_def)
      then show ?thesis
        using recovered_after_calm [OF s rec] Inr pods es1 unfolding restarts_few_def
        by (intro disjI2 exI [of _ ?now] exI [of _ ps] exI [of _ qs] exI [of _ "trace s"] exI [of _ es1] exI [of _ es2]) simp
    qed
    then have "wp (for_each (xs ps) (f ?now ps)) (\<lambda>_. restarts_few oe rc s (Inr ())) ?s1"
      by (intro wp_mono [OF wp_recovered_loop [OF assms(1) assms(2) recovered_none]]) auto
    then show ?thesis using Inr by (simp add: wp)
  qed
qed

lemma wp_ReconcileStaleMounts:
  fixes s :: "'w op_world_scheme"
  assumes "0 < oc_cooldown rc"
  shows "wp (ReconcileStaleMounts oe rc stale) (restarts_few oe rc s) s"
proof (cases "stale = []")
  case True
  then show ?thesis by (simp add: ReconcileStaleMounts_def wp restarts_few_def calm_refl)
next
  case False
  have "wp (do { pods \<leftarrow> list_node_pods oe rc;
        case pods of Inl e \<Rightarrow> fail e
        | Inr ps \<Rightarrow> do { now \<leftarrow> call Now (time_now (base oe)); for_each stale (reconcile_mount oe rc now ps); ok () } })
     (restarts_few oe rc s) s"
    by (rule wp_reconcile_loop [where xs = "\<lambda>_. stale", OF assms wp_reconcile_mount [OF assms]])
  with False show ?thesis by (simp add: ReconcileStaleMounts_def)
qed

lemma wp_ReconcileWorkloadPods:
  fixes s :: "'w op_world_scheme"
  assumes "0 < oc_cooldown rc"
  shows "wp (ReconcileWorkloadPodsAfterCSIRestart oe rc) (restarts_few oe rc s) s"
  unfolding ReconcileWorkloadPodsAfterCSIRestart_def
  by (rule wp_reconcile_loop [where xs = "\<lambda>ps. ps" and f = "\<lambda>now ps. refresh_pod oe rc now", OF assms wp_refresh_pod [OF assms]])

end
