(* ===== verification/Op_Orphans.thy ===== *)
theory Op_Orphans
  imports Op_Cooldown
begin

text \<open>
  What the operator may do to the node and to the API server: which pods it deletes, which mounts
  it detaches, which connections it aborts and which processes it signals.
\<close>

text \<open>When the continuation depends on what the first operation is known to return.\<close>

lemma adds_bind_wp:
  fixes m :: "('w world_scheme, 'a) state"
  assumes "adds P m" and "\<And>s. wp m (\<lambda>r _. Q r) s" and "\<And>r. Q r \<Longrightarrow> adds P (f r)"
  shows "adds P (State_Monad.bind m f)"
  unfolding adds_def
proof
  fix s :: "'w world_scheme"
  obtain r s1 where run: "run_state m s = (r, s1)" by fastforce
  obtain es1 where es1: "trace s1 = trace s @ es1" "list_all P es1" using adds_run [OF assms(1) run] .
  have "Q r" using wp_runD [OF assms(2) run] .
  then obtain es2 where es2: "trace (snd (run_state (f r) s1)) = trace s1 @ es2" "list_all P es2"
    using addsD [OF assms(3)] by blast
  show "\<exists>es. trace (snd (run_state (State_Monad.bind m f) s)) = trace s @ es \<and> list_all P es"
    using run es1 es2 by (intro exI [of _ "es1 @ es2"]) simp
qed

section \<open>What a reconciliation of stale mounts is permitted\<close>

definition listed :: "op_env \<Rightarrow> reconciler \<Rightarrow> pod list \<Rightarrow> bool" where
  "listed oe rc pods \<longleftrightarrow> (\<exists>h. podsOnNode oe h (oc_nodeName rc) '''' = Inr pods)"

text \<open>
  A deletion: of a pod listed on the node that may be restarted and has a stale mount, with its
  UID. An unmount: of a stale mount whose pod is not listed. An abort: below the connections
  directory. A signal: to a process that serves a stale mount.
\<close>

fun permitted :: "op_env \<Rightarrow> reconciler \<Rightarrow> stale_mount list \<Rightarrow> ev \<Rightarrow> bool" where
  "permitted oe rc stale (Op (PodDelete ns n u)) =
     (\<exists>pods p mount. listed oe rc pods \<and> p \<in> set pods \<and> \<not> ShouldSkipPod p \<and> pod_id p = (ns, n, u)
        \<and> mount \<in> set stale \<and> stale_podUID mount = u)"
| "permitted oe rc stale (Op (UmountDetach path)) =
     (oc_orphanLazyUmount rc
      \<and> (\<exists>pods mount. listed oe rc pods \<and> mount \<in> set stale \<and> stale_mountPath mount = path
            \<and> stale_podUID mount \<notin> pod_uid ` set pods))"
| "permitted oe rc stale (Op (FileWrite path d)) =
     (oc_orphanFuseAbort rc \<and> (\<exists>i n. atoi i = Some n \<and> path = abs_path (connections_path @ [i, ''abort''])))"
| "permitted oe rc stale (Op (SignalProcess pid kill)) =
     (oc_orphanKillMountProcess rc \<and> (\<exists>mount \<in> set stale. serves_path oe (stale_mountPath mount) pid))"
| "permitted oe rc stale e = True"

declare permitted.simps(1-4) [simp del]

lemma looking_permitted: "looking e \<Longrightarrow> permitted oe rc stale e"
  by (cases e rule: looking.cases) auto

lemma adds_permitted: "adds looking m \<Longrightarrow> adds (permitted oe rc stale) m"
  by (erule adds_mono) (rule looking_permitted)

lemma adds_looking_checks [frame]:
  "adds looking (claim_driver oe ns claim)" "adds looking (has_provisioner_volume oe provisioner ns vols)"
  "adds looking (podUsesProvisionerVolume oe p v provisioner)"
  "adds looking (volumeManagedByProvisioner oe rc p mount)" "adds looking (ownerAnnotationRateLimited oe rc p now)"
  "adds looking (isRateLimited oe rc p now)" "adds looking (confirm_stale oe rc mount)" "adds looking (list_node_pods oe rc)"
proof -
  show claim: "adds looking (claim_driver oe ns claim)" for ns claim
    by (auto simp: claim_driver_def intro!: frame)
  show "adds looking (has_provisioner_volume oe provisioner ns vols)"
    by (induction vols) (auto intro!: frame claim)
  show "adds looking (podUsesProvisionerVolume oe p v provisioner)"
    by (auto simp: podUsesProvisionerVolume_def intro!: frame claim)
  then show "adds looking (volumeManagedByProvisioner oe rc p mount)"
    by (auto simp: volumeManagedByProvisioner_def podUsesProvisionerVolume_def intro!: frame claim)
  show limited: "adds looking (ownerAnnotationRateLimited oe rc p now)"
    by (auto simp: ownerAnnotationRateLimited_def owner_get_def intro!: frame)
  show "adds looking (isRateLimited oe rc p now)"
    by (auto simp: isRateLimited_def ownerAnnotationRateLimited_def owner_get_def intro!: frame adds_modify)
  show "adds looking (confirm_stale oe rc mount)"
    by (auto simp: confirm_stale_def isMountCorrupted_def IsMountPathCorruptedWithTimeout_def
        probeMountPathWithTimeout_def intro!: frame)
  show "adds looking (list_node_pods oe rc)" by (auto simp: list_node_pods_def intro!: frame)
qed

lemma adds_permitted_restart [frame]:
  assumes "permitted oe rc stale (Op (PodDelete (pod_namespace p) (pod_name p) (pod_uid p)))"
  shows "adds (permitted oe rc stale) (restartPod oe rc p now why message)"
proof -
  have owner: "adds (permitted oe rc stale) (annotateOwner oe p now)"
    by (auto simp: annotateOwner_def annotate_owner_once_def owner_get_def intro!: adds_case_option retry_frame adds_if
        adds_bind adds_call adds_return adds_case_sum)
  show ?thesis
    unfolding restartPod_def restarted_def markRecovered_def scheduleReplacementAnnotate_def emitRecoveryEvents_def
      snapshotOwnerPodUIDs_def
    using assms by (auto intro!: adds_bind adds_if adds_case_prod adds_case_option adds_emit adds_call adds_return
        adds_modify owner)
qed

lemma adds_permitted_signals:
  assumes "oc_orphanKillMountProcess rc" and "mount \<in> set stale"
  shows "adds (permitted oe rc stale) (BestEffortKillMountServer oe (stale_mountPath mount))"
proof (rule adds_mono [OF adds_BestEffortKill])
  fix e assume "signals (serves_path oe (stale_mountPath mount)) e"
  then show "permitted oe rc stale e" using assms by (cases "(oe, rc, stale, e)" rule: permitted.cases) (auto simp: permitted.simps)
qed

lemma adds_permitted_abort:
  assumes "oc_orphanFuseAbort rc"
  shows "adds (permitted oe rc stale) (AbortFuseConn oe i)"
proof (cases "atoi i")
  case (Some n)
  then have "permitted oe rc stale (Op (FileWrite (path_Join [fuseConnectionsRoot, i, ''abort'']) ''1''))"
    using assms abort_path [OF Some] Some by (auto simp: permitted.simps)
  with Some show ?thesis by (simp add: AbortFuseConn_def Let_def adds_bind adds_call adds_return)
qed (simp add: AbortFuseConn_def adds_return)

lemma adds_permitted_orphan:
  assumes "listed oe rc pods" and "mount \<in> set stale" and "pod_by_uid pods (stale_podUID mount) = None"
  shows "adds (permitted oe rc stale) (maybeLazyUmountOrphan oe rc mount)"
proof -
  have gone: "stale_podUID mount \<notin> pod_uid ` set pods"
    using assms(3) by (auto simp: pod_by_uid_def find_None_iff)
  have umount: "permitted oe rc stale (Op (UmountDetach (stale_mountPath mount)))" if "oc_orphanLazyUmount rc"
    using that assms(1,2) gone unfolding permitted.simps by blast
  have unshared: "adds (permitted oe rc stale) (abort_unshared oe path i)" if "oc_orphanFuseAbort rc" for path i
    by (auto simp: abort_unshared_def fuseConnSharedByOtherMount_def read_file_def
        intro!: adds_bind adds_if adds_return adds_call adds_permitted_abort [OF that])
  show ?thesis
    unfolding maybeLazyUmountOrphan_def abort_and_kill_def ResolveFuseConnID_def LazyUmount_def read_file_def Let_def
    using assms(2)
    by (auto simp: ShouldLazyUmountOrphan_def ShouldAbortOrphanFuse_def ShouldKillOrphanMountProcess_def
        intro!: adds_bind adds_if adds_return adds_call umount unshared adds_permitted_signals)
qed

lemma adds_permitted_reconcile_mount:
  assumes "listed oe rc pods" and "mount \<in> set stale"
  shows "adds (permitted oe rc stale) (reconcile_mount oe rc now pods mount)"
proof (cases "pod_by_uid pods (stale_podUID mount)")
  case None
  then show ?thesis using adds_permitted_orphan [OF assms] by (simp add: reconcile_mount_def)
next
  case (Some p)
  have "permitted oe rc stale (Op (PodDelete (pod_namespace p) (pod_name p) (pod_uid p)))" if "\<not> ShouldSkipPod p"
    using that assms pod_by_uid_in [OF Some] unfolding permitted.simps pod_id_def
    by (intro exI [of _ pods] exI [of _ p] exI [of _ mount]) simp
  then show ?thesis
    using Some unfolding reconcile_mount_def reconcile_pod_def
    by (auto intro!: adds_bind adds_if adds_return adds_case_prod adds_permitted_restart
        adds_looking_checks [THEN adds_permitted])
qed



section \<open>Aborting a connection\<close>

definition mountinfo_file :: string where "mountinfo_file = ''/proc/self/mountinfo''"

text \<open>
  What must have happened before the file \<open>p\<close> is written: mountinfo gave the connection of the path,
  the path has been detached, and mountinfo read again shows the connection on no other path.
\<close>

definition abort_justified :: "op_env \<Rightarrow> history \<Rightarrow> string \<Rightarrow> string \<Rightarrow> bool" where
  "abort_justified oe h path p \<longleftrightarrow>
     (\<exists>before after i. fileRead oe h mountinfo_file = Inr before
        \<and> ParseFuseConnIDFromMountinfo before path = Inr i
        \<and> umountDetach oe (h @ [Op (FileRead mountinfo_file)]) path \<in> {None, Some EINVAL, Some ENOENT}
        \<and> fileRead oe (h @ [Op (FileRead mountinfo_file), Op (UmountDetach path)]) mountinfo_file = Inr after
        \<and> \<not> fuseConnSharedInMountinfo after path i
        \<and> p = abs_path (connections_path @ [i, ''abort'']))"

fun writes_only :: "(string \<Rightarrow> bool) \<Rightarrow> ev \<Rightarrow> bool" where
  "writes_only P (Op (FileWrite p d)) = P p"
| "writes_only P e = True"

lemma adds_no_write: "adds (signals Q) m \<Longrightarrow> adds (writes_only P) m"
  by (erule adds_mono, rename_tac e, case_tac "(P, e)" rule: writes_only.cases) auto

text \<open>\<open>adds\<close> of one run, from a given state.\<close>

definition adds_from :: "(ev \<Rightarrow> bool) \<Rightarrow> 'w world_scheme \<Rightarrow> 'w world_scheme \<Rightarrow> bool" where
  "adds_from P s s' \<longleftrightarrow> (\<exists>es. trace s' = trace s @ es \<and> list_all P es)"

lemma adds_from_wp: "adds P m \<Longrightarrow> adds_from P s0 s \<Longrightarrow> wp m (\<lambda>_. adds_from P s0) s"
  by (rule wpI) (auto simp: adds_from_def elim!: adds_run)

lemma adds_from_refl: "adds_from P s s"
  by (simp add: adds_from_def)

lemma adds_from_event: "adds_from P s0 s \<Longrightarrow> P e \<Longrightarrow> adds_from P s0 (s\<lparr>trace := trace s @ [e]\<rparr>)"
  by (auto simp: adds_from_def)

lemma wp_abort_unshared:
  fixes s s0 :: "'w world_scheme"
  assumes "adds_from (writes_only P) s0 s"
    and "\<And>after. fileRead oe (trace s) mountinfo_file = Inr after \<Longrightarrow> \<not> fuseConnSharedInMountinfo after path i
      \<Longrightarrow> P (abs_path (connections_path @ [i, ''abort'']))"
  shows "wp (abort_unshared oe path i) (\<lambda>_. adds_from (writes_only P) s0) s"
proof -
  let ?s1 = "s\<lparr>trace := trace s @ [Op (FileRead mountinfo_file)]\<rparr>"
  have s1: "adds_from (writes_only P) s0 ?s1" using assms(1) by (rule adds_from_event) simp
  have abort: "wp (AbortFuseConn oe i) (\<lambda>_. adds_from (writes_only P) s0) ?s1"
    if "P (abs_path (connections_path @ [i, ''abort'']))"
  proof (cases "atoi i")
    case (Some n)
    have "adds_from (writes_only P) s0
        (?s1\<lparr>trace := trace ?s1 @ [Op (FileWrite (path_Join [fuseConnectionsRoot, i, ''abort'']) ''1'')]\<rparr>)"
      using that by (intro adds_from_event [OF s1]) (simp add: abort_path [OF Some])
    with Some show ?thesis by (simp add: AbortFuseConn_def Let_def wp)
  qed (simp add: AbortFuseConn_def wp s1)
  show ?thesis
    using assms(2) s1 abort
    by (auto simp: abort_unshared_def fuseConnSharedByOtherMount_def read_file_def mountinfo_file_def wp split: sum.split)
qed

lemma wp_abort_and_kill:
  fixes s s0 :: "'w world_scheme"
  assumes "adds_from (writes_only P) s0 s"
    and "\<And>after. i \<noteq> '''' \<Longrightarrow> fileRead oe (trace s) mountinfo_file = Inr after \<Longrightarrow> \<not> fuseConnSharedInMountinfo after path i
      \<Longrightarrow> P (abs_path (connections_path @ [i, ''abort'']))"
  shows "wp (abort_and_kill oe rc path i) (\<lambda>_. adds_from (writes_only P) s0) s"
proof -
  have "wp (if b \<and> i \<noteq> '''' then abort_unshared oe path i else State_Monad.return ()) (\<lambda>_. adds_from (writes_only P) s0) s" for b
    using assms wp_abort_unshared [OF assms(1), of oe path i] by (auto simp: wp)
  then show ?thesis
    unfolding abort_and_kill_def wp_bind
    by (rule wp_mono) (auto simp: wp intro!: adds_from_wp adds_no_write adds_BestEffortKill)
qed

text \<open>
  Property C14: the operator aborts a FUSE connection only when mountinfo, read before the unmount,
  named it for the orphan's path, the path has been detached, and mountinfo, read again, has the
  connection on no other path; nothing else is written. So a connection that another mount still
  uses is never aborted.
\<close>

theorem orphan_abort_justified:
  "wp (maybeLazyUmountOrphan oe rc mount)
     (\<lambda>_ s'. adds_from (writes_only (abort_justified oe (trace s) (stale_mountPath mount))) s s') s"
proof -
  let ?path = "stale_mountPath mount" and ?P = "writes_only (abort_justified oe (trace s) (stale_mountPath mount))"
  let ?s1 = "s\<lparr>trace := trace s @ [Op (FileRead mountinfo_file)]\<rparr>"
  let ?s2 = "s\<lparr>trace := trace s @ [Op (FileRead mountinfo_file), Op (UmountDetach ?path)]\<rparr>"
  have s2: "adds_from ?P s ?s2" by (simp add: adds_from_def)
  have rest: "wp (abort_and_kill oe rc ?path i) (\<lambda>_. adds_from ?P s) ?s2"
    if "umountDetach oe (trace ?s1) ?path \<in> {None, Some EINVAL, Some ENOENT}"
      and "i = '''' \<or> (\<exists>before. fileRead oe (trace s) mountinfo_file = Inr before \<and> ParseFuseConnIDFromMountinfo before ?path = Inr i)"
    for i
    by (rule wp_abort_and_kill [OF s2]) (use that in \<open>auto simp: abort_justified_def\<close>)
  show ?thesis
  proof (cases "ShouldLazyUmountOrphan (oc_orphanLazyUmount rc) False")
    case True
    then show ?thesis
      using s2 rest
      by (auto simp: maybeLazyUmountOrphan_def ResolveFuseConnID_def LazyUmount_def read_file_def wp
          mountinfo_file_def [symmetric] split: sum.split option.split umount_err.split)
  qed (simp add: maybeLazyUmountOrphan_def wp adds_from_refl)
qed

end
