(* ===== verification/Op_Watch.thy ===== *)
theory Op_Watch
  imports Op_Cooldown
begin

text \<open>
  The watch over the CSI node pod (pkg/operator/csi_watch.go), the loops of the operator
  (pkg/operator/runner.go) with the two handlers of cmd/volume-recovery-operator/main.go, and
  the operator as a step relation: its ticks and the goroutines they start. A handler runs
  to its end before the next one; the two loops of the code may overlap, see the header of the
  root theory.
\<close>

section \<open>The tracker\<close>

definition defaultCSINodeLabelSelector :: string where "defaultCSINodeLabelSelector = ''app=csi-rclone-node''"
definition defaultCSIReadyPollInterval :: int where "defaultCSIReadyPollInterval = 1000000000"
definition defaultCSIReadyTimeout :: int where "defaultCSIReadyTimeout = 90000000000"

record tracker =
  ct_nodeName :: string
  ct_labelSelector :: string
  ct_readyPoll :: int

definition NewCSINodeTracker :: "string \<Rightarrow> string \<Rightarrow> tracker" where
  "NewCSINodeTracker nodeName labelSelector =
     \<lparr>ct_nodeName = nodeName,
      ct_labelSelector = (if labelSelector = '''' then defaultCSINodeLabelSelector else labelSelector),
      ct_readyPoll = 0\<rparr>"

record operator = op_world +
  lastUID :: string
  pendingUID :: string
  initialized :: bool

definition isPodReady :: "pod \<Rightarrow> bool" where
  "isPodReady pod \<longleftrightarrow> list_ex (\<lambda>(t, status). t = ''Ready'' \<and> status = ''True'') (pod_conditions pod)"

definition newer :: "pod \<Rightarrow> pod option \<Rightarrow> pod option" where
  "newer pod chosen =
     (case chosen of
        None \<Rightarrow> Some pod
      | Some c \<Rightarrow> if pod_created c < pod_created pod then Some pod else Some c)"

definition newestCSINodePod :: "op_env \<Rightarrow> tracker \<Rightarrow> ('w world_scheme, gerr + pod option) state" where
  "newestCSINodePod oe tc = do {
     pods \<leftarrow> call (Op (ListPodsOnNode (ct_nodeName tc) (ct_labelSelector tc)))
               (\<lambda>h. podsOnNode oe h (ct_nodeName tc) (ct_labelSelector tc));
     case pods of
       Inl e \<Rightarrow> fail (Wrapf ''list CSI node pods on %s: %w'' [S (ct_nodeName tc)] (ExtError ''kubernetes''))
     | Inr ps \<Rightarrow> ok (fold newer ps None) }"

definition CheckRestarted :: "op_env \<Rightarrow> tracker \<Rightarrow> (operator, gerr + bool) state" where
  "CheckRestarted oe tc = do {
     r \<leftarrow> newestCSINodePod oe tc;
     case r of
       Inl e \<Rightarrow> fail e
     | Inr None \<Rightarrow> ok False
     | Inr (Some pod) \<Rightarrow> do {
         s \<leftarrow> gets (\<lambda>s. s);
         if \<not> initialized s then do {
           modify (\<lambda>s. s\<lparr>lastUID := pod_uid pod, initialized := True\<rparr>);
           ok False }
         else if pod_uid pod = lastUID s then ok False
         else do {
           (if pendingUID s \<noteq> pod_uid pod then modify (\<lambda>s. s\<lparr>pendingUID := pod_uid pod\<rparr>) else State_Monad.return ());
           ok True } } }"

definition AcknowledgeRestart :: "(operator, unit) state" where
  "AcknowledgeRestart = do {
     pending \<leftarrow> gets pendingUID;
     if pending = '''' then State_Monad.return ()
     else modify (\<lambda>s. s\<lparr>lastUID := pending, pendingUID := ''''\<rparr>) }"

text \<open>
  The wait for a ready node pod. A timeout is not an error, a cancellation is. The ticker fires
  at most \<open>timeout div poll\<close> times before the deadline, which bounds the rounds.
\<close>

fun wait_ready :: "nat \<Rightarrow> op_env \<Rightarrow> tracker \<Rightarrow> ('w world_scheme, gerr + unit) state" where
  "wait_ready 0 oe tc = ok ()"
| "wait_ready (Suc n) oe tc = do {
     r \<leftarrow> newestCSINodePod oe tc;
     ended \<leftarrow> (case r of Inl _ \<Rightarrow> call Select (select_of (base oe)) | Inr _ \<Rightarrow> State_Monad.return TimerFired);
     case ended of
       CtxDone deadline \<Rightarrow> if deadline then ok () else fail (ExtError ''context canceled'')
     | _ \<Rightarrow>
         if (case r of Inr (Some pod) \<Rightarrow> isPodReady pod | _ \<Rightarrow> False) then ok ()
         else do {
           sel \<leftarrow> call Select (select_of (base oe));
           case sel of
             CtxDone deadline \<Rightarrow> if deadline then ok () else fail (ExtError ''context canceled'')
           | _ \<Rightarrow> wait_ready n oe tc } }"

definition WaitUntilReady :: "op_env \<Rightarrow> tracker \<Rightarrow> int \<Rightarrow> ('w world_scheme, gerr + unit) state" where
  "WaitUntilReady oe tc timeout =
     (let timeout = (if timeout \<le> 0 then defaultCSIReadyTimeout else timeout);
          poll = (if ct_readyPoll tc \<le> 0 then defaultCSIReadyPollInterval else ct_readyPoll tc)
      in wait_ready (Suc (nat (timeout div poll))) oe tc)"

section \<open>The handlers\<close>

record op_flags =
  of_kubeletDir :: string
  of_probeTimeout :: int
  of_readyTimeout :: int
  of_csiRestartRecovery :: bool

definition onCSI :: "op_env \<Rightarrow> reconciler \<Rightarrow> tracker \<Rightarrow> op_flags \<Rightarrow> (operator, unit) state" where
  "onCSI oe rc tc fl = do {
     r \<leftarrow> CheckRestarted oe tc;
     if r \<noteq> Inr True then State_Monad.return ()
     else do {
       w \<leftarrow> WaitUntilReady oe tc (of_readyTimeout fl);
       case w of
         Inl _ \<Rightarrow> State_Monad.return ()
       | Inr _ \<Rightarrow> do {
           e \<leftarrow> ReconcileWorkloadPodsAfterCSIRestart oe rc;
           case e of Inl _ \<Rightarrow> State_Monad.return () | Inr _ \<Rightarrow> AcknowledgeRestart } } }"

definition onScan :: "op_env \<Rightarrow> reconciler \<Rightarrow> op_flags \<Rightarrow> ('w op_world_scheme, unit) state" where
  "onScan oe rc fl = do {
     stale \<leftarrow> ScanStaleMounts oe (of_probeTimeout fl) (of_kubeletDir fl) (oc_provisioner rc);
     ReconcileStaleMounts oe rc stale;
     State_Monad.return () }"

text \<open>
  \<open>RecoveryLoops.Run\<close>: each configured handler runs once at the start and then on each tick of
  its own ticker; the goroutines of the restarts run in between.
\<close>

inductive op_step :: "op_env \<Rightarrow> reconciler \<Rightarrow> tracker \<Rightarrow> op_flags \<Rightarrow> operator \<Rightarrow> operator \<Rightarrow> bool"
  for oe rc tc fl where
  csi_tick: "of_csiRestartRecovery fl \<Longrightarrow> run_state (onCSI oe rc tc fl) s = (u, s') \<Longrightarrow> op_step oe rc tc fl s s'"
| scan_tick: "run_state (onScan oe rc fl) s = (u, s') \<Longrightarrow> op_step oe rc tc fl s s'"
| annotate: "job \<in> set (annotating s) \<Longrightarrow>
    run_state (annotateReplacementPod oe rc job) (s\<lparr>annotating := remove1 job (annotating s)\<rparr>) = (u, s') \<Longrightarrow>
    op_step oe rc tc fl s s'"

definition operator_start :: "history \<Rightarrow> operator" where
  "operator_start h = \<lparr>trace = h, nextCtx = 0, lastRecovery = Map.empty, annotating = [],
     lastUID = '''', pendingUID = '''', initialized = False\<rparr>"

inductive_cases op_stepE [elim]: "op_step oe rc tc fl s s'"

section \<open>A tick restarts what one reconciliation restarts\<close>

definition passes :: "op_env \<Rightarrow> reconciler \<Rightarrow> 'w op_world_scheme \<Rightarrow> 'w op_world_scheme \<Rightarrow> bool" where
  "passes oe rc s s' \<longleftrightarrow> (\<exists>r. restarts_few oe rc s r s')"

lemma passesE:
  assumes "passes oe rc s s'"
  obtains "calm oe s s'"
  | now pods ps h es1 es2 where "trace s' = trace s @ es1 @ es2" "now = time_now (base oe) (trace s @ es1)"
      "podsOnNode oe h (oc_nodeName rc) '''' = Inr pods" "recovered oe rc now pods s s' ps"
  using assms unfolding passes_def restarts_few_def by blast

lemma calm_passes: "calm oe s s' \<Longrightarrow> passes oe rc s s'"
  by (auto simp: passes_def restarts_few_def)

lemma calm_trace: "calm oe s s' \<Longrightarrow> \<exists>es. trace s' = trace s @ es"
  by (auto simp: calm_def restarts_def)

lemma passes_after_calm:
  assumes "calm oe s s1" and "passes oe rc s1 s2"
  shows "passes oe rc s s2"
  using assms(2) unfolding passes_def restarts_few_def
proof (elim exE disjE conjE)
  assume "calm oe s1 s2"
  then show "\<exists>r. calm oe s s2 \<or> (\<exists>now pods ps h es1 es2. podsOnNode oe h (oc_nodeName rc) '''' = Inr pods
        \<and> trace s2 = trace s @ es1 @ es2 \<and> now = time_now (base oe) (trace s @ es1)
        \<and> r = Inr () \<and> recovered oe rc now pods s s2 ps)" using calm_trans [OF assms(1)] by blast
next
  fix now pods ps h es1 es2
  assume h: "podsOnNode oe h (oc_nodeName rc) '''' = Inr pods" "trace s2 = trace s1 @ es1 @ es2"
    "now = time_now (base oe) (trace s1 @ es1)" "recovered oe rc now pods s1 s2 ps"
  obtain es where "trace s1 = trace s @ es" using calm_trace [OF assms(1)] by blast
  then show "\<exists>r. calm oe s s2 \<or> (\<exists>now pods ps h es1 es2. podsOnNode oe h (oc_nodeName rc) '''' = Inr pods
        \<and> trace s2 = trace s @ es1 @ es2 \<and> now = time_now (base oe) (trace s @ es1)
        \<and> r = Inr () \<and> recovered oe rc now pods s s2 ps)"
    using h recovered_after_calm [OF assms(1) h(4)]
    by (intro exI [of _ "Inr ()"] disjI2 exI [of _ now] exI [of _ pods] exI [of _ ps] exI [of _ h]
        exI [of _ "es @ es1"] exI [of _ es2]) simp
qed

lemma keeps_fields [frame]:
  "keeps lastRecovery (modify (\<lambda>s. s\<lparr>lastUID := u, initialized := b\<rparr>))"
  "keeps lastRecovery (modify (\<lambda>s. s\<lparr>pendingUID := u\<rparr>))"
  by (rule keeps_modify; simp)+

lemma calm_newestCSINodePod [frame]:
  "adds (\<lambda>e. \<not> pod_deleting e) (newestCSINodePod oe tc)" "off_world p \<Longrightarrow> keeps p (newestCSINodePod oe tc)"
  by (auto simp: newestCSINodePod_def intro!: frame)

lemma calm_CheckRestarted [frame]:
  "adds (\<lambda>e. \<not> pod_deleting e) (CheckRestarted oe tc)" "keeps lastRecovery (CheckRestarted oe tc)"
  by (auto simp: CheckRestarted_def intro!: frame adds_modify split: sum.split option.split)

lemma calm_wait_ready [frame]:
  "adds (\<lambda>e. \<not> pod_deleting e) (wait_ready n oe tc)" "off_world p \<Longrightarrow> keeps p (wait_ready n oe tc)"
  by (induction n) (auto intro!: frame split: sum.split select_case.split)

lemma calm_WaitUntilReady [frame]:
  "adds (\<lambda>e. \<not> pod_deleting e) (WaitUntilReady oe tc t)" "off_world p \<Longrightarrow> keeps p (WaitUntilReady oe tc t)"
  by (auto simp: WaitUntilReady_def Let_def simp del: wait_ready.simps intro!: frame)

lemma calm_scan [frame]:
  "adds (\<lambda>e. \<not> pod_deleting e) (scan_mount oe timeout provisioner path)"
  "off_world p \<Longrightarrow> keeps p (scan_mount oe timeout provisioner path)"
  by (auto simp: scan_mount_def foreign_mount_def IsRcloneFUSEMount_def mountPathCorruptedProbe_def
      IsMountPathCorruptedWithTimeout_def probeMountPathWithTimeout_def intro!: frame)

lemma calm_walk:
  "adds (\<lambda>e. \<not> pod_deleting e) (walk_dir oe timeout provisioner path t :: ('w world_scheme, stale_mount list) state)
   \<and> (off_world p \<longrightarrow> keeps p (walk_dir oe timeout provisioner path t :: ('w world_scheme, stale_mount list) state))"
  "adds (\<lambda>e. \<not> pod_deleting e) (walk_entries oe timeout provisioner path ts :: ('w world_scheme, stale_mount list) state)
   \<and> (off_world p \<longrightarrow> keeps p (walk_entries oe timeout provisioner path ts :: ('w world_scheme, stale_mount list) state))"
  by (induction path t and path ts rule: mounts_below_mounts_among.induct) (auto intro!: frame)

lemma calm_ScanStaleMounts [frame]:
  "adds (\<lambda>e. \<not> pod_deleting e) (ScanStaleMounts oe timeout kubeletDir provisioner)"
  "off_world p \<Longrightarrow> keeps p (ScanStaleMounts oe timeout kubeletDir provisioner)"
  by (auto simp: ScanStaleMounts_def Let_def
      intro!: frame calm_walk(1) [THEN conjunct1] calm_walk(1) [THEN conjunct2, rule_format])

lemma wp_passes:
  fixes s :: "'w op_world_scheme"
  assumes "0 < oc_cooldown rc"
  shows "wp (ReconcileStaleMounts oe rc stale) (\<lambda>_. passes oe rc s) s"
    and "wp (ReconcileWorkloadPodsAfterCSIRestart oe rc) (\<lambda>_. passes oe rc s) s"
  by (auto simp: passes_def intro!: wp_mono [OF wp_ReconcileStaleMounts [OF assms]] wp_mono [OF wp_ReconcileWorkloadPods [OF assms]])

lemma wp_onScan:
  fixes s :: "'w op_world_scheme"
  assumes "0 < oc_cooldown rc"
  shows "wp (onScan oe rc fl) (\<lambda>_. passes oe rc s) s"
  unfolding onScan_def
proof (rule wp_bind_calm [OF calm_ScanStaleMounts(1) calm_ScanStaleMounts(2) [OF off_world_lastRecovery]])
  fix stale s1 assume "calm oe s s1"
  then show "wp (do { ReconcileStaleMounts oe rc stale; State_Monad.return () }) (\<lambda>_. passes oe rc s) s1"
    by (auto simp: wp intro: wp_mono [OF wp_passes(1) [OF assms]] passes_after_calm)
qed

lemma ack_passes: "passes oe rc s s' \<Longrightarrow> wp AcknowledgeRestart (\<lambda>_. passes oe rc s) s'"
  by (auto simp: AcknowledgeRestart_def wp passes_def restarts_few_def calm_def recovered_def restarts_def)

lemma wp_onCSI:
  assumes "0 < oc_cooldown rc"
  shows "wp (onCSI oe rc tc fl) (\<lambda>_. passes oe rc s) s"
  unfolding onCSI_def
proof (rule wp_bind_calm [OF calm_CheckRestarted])
  fix r s1 assume s1: "calm oe s s1"
  have "wp (do { w \<leftarrow> WaitUntilReady oe tc (of_readyTimeout fl);
      case w of Inl _ \<Rightarrow> State_Monad.return ()
      | Inr _ \<Rightarrow> do { e \<leftarrow> ReconcileWorkloadPodsAfterCSIRestart oe rc;
          case e of Inl _ \<Rightarrow> State_Monad.return () | Inr _ \<Rightarrow> AcknowledgeRestart } }) (\<lambda>_. passes oe rc s) s1"
  proof (rule wp_bind_calm [OF calm_WaitUntilReady(1) calm_WaitUntilReady(2) [OF off_world_lastRecovery]])
    fix w s2 assume "calm oe s1 s2"
    then have s2: "calm oe s s2" using calm_trans [OF s1] by blast
    have "wp (ReconcileWorkloadPodsAfterCSIRestart oe rc) (\<lambda>_. passes oe rc s) s2"
      by (rule wp_mono [OF wp_passes(2) [OF assms]]) (rule passes_after_calm [OF s2])
    then show "wp (case w of Inl _ \<Rightarrow> State_Monad.return ()
        | Inr _ \<Rightarrow> do { e \<leftarrow> ReconcileWorkloadPodsAfterCSIRestart oe rc;
            case e of Inl _ \<Rightarrow> State_Monad.return () | Inr _ \<Rightarrow> AcknowledgeRestart }) (\<lambda>_. passes oe rc s) s2"
      using calm_passes [OF s2]
      by (auto simp: wp split: sum.split elim!: wp_mono intro: ack_passes)
  qed
  then show "wp (if r \<noteq> Inr True then State_Monad.return ()
      else do { w \<leftarrow> WaitUntilReady oe tc (of_readyTimeout fl);
        case w of Inl _ \<Rightarrow> State_Monad.return ()
        | Inr _ \<Rightarrow> do { e \<leftarrow> ReconcileWorkloadPodsAfterCSIRestart oe rc;
            case e of Inl _ \<Rightarrow> State_Monad.return () | Inr _ \<Rightarrow> AcknowledgeRestart } }) (\<lambda>_. passes oe rc s) s1"
    using calm_passes [OF s1] by (simp add: wp)
qed

lemma calm_annotate [frame]:
  "adds (\<lambda>e. \<not> pod_deleting e) (annotateReplacementPod oe rc job)"
  "off_world p \<Longrightarrow> keeps p (annotateReplacementPod oe rc job)"
proof -
  have try_once: "adds (\<lambda>e. \<not> pod_deleting e) (tryAnnotateReplacementOnce oe old ow now known)" for old ow now known
    by (auto simp: tryAnnotateReplacementOnce_def Let_def intro!: frame)
  have "adds (\<lambda>e. \<not> pod_deleting e) (annotate_rounds n oe old ow now known)" for n old ow now known
    by (induction n) (auto intro!: frame try_once split: select_case.split)
  then show "adds (\<lambda>e. \<not> pod_deleting e) (annotateReplacementPod oe rc job)"
    by (simp only: annotateReplacementPod_def) (auto simp del: annotate_rounds.simps intro!: frame)
next
  assume p: "off_world p"
  have try_once: "keeps p (tryAnnotateReplacementOnce oe old ow now known)" for old ow now known
    using p by (auto simp: tryAnnotateReplacementOnce_def Let_def intro!: frame)
  have "keeps p (annotate_rounds n oe old ow now known)" for n old ow now known
    using p by (induction n) (auto intro!: frame try_once split: select_case.split)
  then show "keeps p (annotateReplacementPod oe rc job)"
    by (simp only: annotateReplacementPod_def) (auto simp del: annotate_rounds.simps intro!: frame)
qed

lemma op_step_passes:
  assumes "0 < oc_cooldown rc" and "op_step oe rc tc fl s s'"
  shows "passes oe rc s s'"
  using assms(2)
proof cases
  case (csi_tick u)
  then show ?thesis using wp_runD [OF wp_onCSI [OF assms(1)]] by blast
next
  case (scan_tick u)
  then show ?thesis using wp_runD [OF wp_onScan [OF assms(1)]] by blast
next
  case (annotate job u)
  let ?s = "s\<lparr>annotating := remove1 job (annotating s)\<rparr>"
  have "wp (annotateReplacementPod oe rc job) (\<lambda>_. calm oe ?s) ?s"
    by (rule wp_calm) (auto intro!: frame)
  then have "calm oe ?s s'" using annotate(2) by (rule wp_runD)
  then show ?thesis by (intro calm_passes) (simp add: calm_def restarts_def)
qed

section \<open>The cooldown over the life of the operator\<close>

lemma clock_mono: "clock_ok env \<Longrightarrow> time_now env h \<le> time_now env (h @ es)"
proof (induction es rule: rev_induct)
  case (snoc e es)
  then have "time_now env (h @ es) \<le> time_now env ((h @ es) @ [e])" unfolding clock_ok_def by blast
  with snoc show ?case by simp
qed simp

text \<open>
  The restarts since the start of the operator, each pod with the time of its pass: the
  successful deletions of the trace are exactly these, each pod was one of the node's that may
  be restarted, and two of the same workload are a cooldown apart. What carries the invariant:
  a restart is still in the table, or its cooldown is over.
\<close>

definition restartable :: "op_env \<Rightarrow> reconciler \<Rightarrow> pod \<Rightarrow> bool" where
  "restartable oe rc p \<longleftrightarrow> \<not> ShouldSkipPod p \<and> (\<exists>h pods. podsOnNode oe h (oc_nodeName rc) '''' = Inr pods \<and> p \<in> set pods)"

definition spaced :: "int \<Rightarrow> (pod \<times> int) list \<Rightarrow> bool" where
  "spaced cooldown = sorted_wrt (\<lambda>(p, t) (p', t'). RecoveryKey p = RecoveryKey p' \<longrightarrow> cooldown \<le> t' - t)"

definition recovery_log :: "op_env \<Rightarrow> reconciler \<Rightarrow> history \<Rightarrow> operator \<Rightarrow> (pod \<times> int) list \<Rightarrow> bool" where
  "recovery_log oe rc h s log \<longleftrightarrow>
     (\<exists>es. trace s = h @ es \<and> deleted oe h es = map (pod_id \<circ> fst) log)
     \<and> (\<forall>(p, t) \<in> set log. restartable oe rc p) \<and> spaced (oc_cooldown rc) log
     \<and> (\<forall>(p, t) \<in> set log. (\<exists>t' \<ge> t. lastRecovery s (RecoveryKey p) = Some t')
          \<or> t + oc_cooldown rc \<le> time_now (base oe) (trace s))"

lemma recovery_log_calm:
  assumes clock: "clock_ok (base oe)" and log: "recovery_log oe rc h s log" and calm: "calm oe s s'"
  shows "recovery_log oe rc h s' log"
proof -
  obtain es where es: "trace s' = trace s @ es" "deleted oe (trace s) es = []"
    using calm by (auto simp: calm_def restarts_def)
  have "time_now (base oe) (trace s) \<le> time_now (base oe) (trace s')" unfolding es(1) by (rule clock_mono [OF clock])
  then show ?thesis
    using log calm es unfolding recovery_log_def calm_def
    by (auto simp: deleted_append split: prod.split)
qed

lemma recovered_table:
  assumes "0 < oc_cooldown rc" and "recovered oe rc now pods s s' ps"
  shows "k \<in> RecoveryKey ` set ps \<Longrightarrow> lastRecovery s' k = Some now"
    and "lastRecovery s' k = Some t \<Longrightarrow> (k \<in> RecoveryKey ` set ps \<and> t = now) \<or> lastRecovery s k = Some t"
    and "lastRecovery s k = Some t \<Longrightarrow> now - t < oc_cooldown rc \<Longrightarrow> k \<notin> RecoveryKey ` set ps \<Longrightarrow> lastRecovery s' k = Some t"
proof -
  let ?table = "\<lambda>k. if k \<in> RecoveryKey ` set ps then Some now else lastRecovery s k"
  have prune: "pruneExpiredRecoveries rc now (lastRecovery s') = pruneExpiredRecoveries rc now ?table"
    and le: "map_le (lastRecovery s') ?table"
    using assms(2) by (simp_all add: recovered_def same_recoveries_def)
  have live: "lastRecovery s' k = Some t" if "?table k = Some t" "now - t < oc_cooldown rc" for k t
    using that prune prune_Some [of rc now ?table k t] prune_Some [of rc now "lastRecovery s'" k t] by simp
  show new: "lastRecovery s' k = Some now" if "k \<in> RecoveryKey ` set ps"
    using live [of k now] that assms(1) by simp
  show "(k \<in> RecoveryKey ` set ps \<and> t = now) \<or> lastRecovery s k = Some t" if "lastRecovery s' k = Some t"
  proof -
    have "lastRecovery s' k = ?table k" using le that unfolding map_le_def by (metis domI)
    then show ?thesis using that by (auto split: if_splits)
  qed
  show "lastRecovery s' k = Some t"
    if "lastRecovery s k = Some t" "now - t < oc_cooldown rc" "k \<notin> RecoveryKey ` set ps"
    using live [of k t] that by simp
qed

lemma spaced_append:
  assumes "spaced c log" and "distinct (map RecoveryKey ps)"
    and "\<And>p t p'. (p, t) \<in> set log \<Longrightarrow> p' \<in> set ps \<Longrightarrow> RecoveryKey p = RecoveryKey p' \<Longrightarrow> c \<le> now - t"
  shows "spaced c (log @ map (\<lambda>p. (p, now)) ps)"
proof -
  have "spaced c (map (\<lambda>p. (p, now)) ps)"
    using assms(2) by (induction ps) (auto simp: spaced_def)
  then show ?thesis
    using assms(1,3) by (fastforce simp: spaced_def sorted_wrt_append)
qed

lemma recovery_log_passes:
  assumes "0 < oc_cooldown rc" and clock: "clock_ok (base oe)" and log: "recovery_log oe rc h s log" and "passes oe rc s s'"
  shows "\<exists>log'. recovery_log oe rc h s' log'"
  using assms(4)
proof (cases rule: passesE)
  case 1
  then show ?thesis using recovery_log_calm [OF clock log] by blast
next
  case (2 now pods ps h' es1 es2)
  note table = recovered_table [OF assms(1) 2(4)]
  let ?time = "\<lambda>s. time_now (base oe) (trace s)" and ?log = "log @ map (\<lambda>p. (p, now)) ps"
  have "?time s \<le> now" unfolding 2(2) by (rule clock_mono [OF clock])
  moreover have "now \<le> ?time s'" using clock_mono [OF clock, of "trace s @ es1" es2] by (simp add: 2(1,2))
  ultimately have time: "?time s \<le> now" "now \<le> ?time s'" by simp_all
  have recorded: "(\<exists>t' \<ge> t. lastRecovery s (RecoveryKey p) = Some t') \<or> t + oc_cooldown rc \<le> ?time s"
    if "(p, t) \<in> set log" for p t
    using log that by (auto simp: recovery_log_def)
  have apart: "oc_cooldown rc \<le> now - t"
    if "(p, t) \<in> set log" "p' \<in> set ps" "RecoveryKey p = RecoveryKey p'" for p t p'
  proof -
    have "\<not> in_cooldown rc now (lastRecovery s) (RecoveryKey p)" using 2(4) that(2,3) by (auto simp: recovered_def)
    then show ?thesis using recorded [OF that(1)] time by (force simp: in_cooldown_def)
  qed
  have "recovery_log oe rc h s' ?log"
    unfolding recovery_log_def
  proof (intro conjI)
    show "\<exists>es. trace s' = h @ es \<and> deleted oe h es = map (pod_id \<circ> fst) ?log"
      using log 2(4) by (auto simp: recovery_log_def recovered_def restarts_def deleted_append)
    show "\<forall>(p, t) \<in> set ?log. restartable oe rc p"
      using log 2(4) exI [of "\<lambda>h. podsOnNode oe h (oc_nodeName rc) '''' = Inr pods", OF 2(3)]
      by (auto 0 3 simp: recovery_log_def restartable_def recovered_def)
    show "spaced (oc_cooldown rc) ?log"
      using log 2(4) apart by (intro spaced_append) (auto simp: recovery_log_def recovered_def)
    have "(\<exists>t' \<ge> t. lastRecovery s' (RecoveryKey p) = Some t') \<or> t + oc_cooldown rc \<le> ?time s'"
      if "(p, t) \<in> set ?log" for p t
    proof (cases "RecoveryKey p \<in> RecoveryKey ` set ps")
      case True
      then have "t \<le> now" using that apart assms(1) by fastforce
      then show ?thesis using table(1) [OF True] by blast
    next
      case False
      then have "(p, t) \<in> set log" using that by auto
      from recorded [OF this] show ?thesis
      proof (elim disjE exE conjE)
        fix t' assume t': "t \<le> t'" "lastRecovery s (RecoveryKey p) = Some t'"
        show ?thesis
        proof (cases "now - t' < oc_cooldown rc")
          case True
          then show ?thesis using table(3) [OF t'(2) True False] t'(1) by blast
        next
          case False
          then show ?thesis using t'(1) time(2) by linarith
        qed
      next
        assume "t + oc_cooldown rc \<le> ?time s"
        then show ?thesis using time by linarith
      qed
    qed
    then show "\<forall>(p, t) \<in> set ?log. (\<exists>t' \<ge> t. lastRecovery s' (RecoveryKey p) = Some t')
        \<or> t + oc_cooldown rc \<le> ?time s'" by blast
  qed
  then show ?thesis by blast
qed

lemma recovery_log_reach:
  assumes "0 < oc_cooldown rc" and "clock_ok (base oe)" and "(op_step oe rc tc fl)\<^sup>*\<^sup>* (operator_start h) s"
  shows "\<exists>log. recovery_log oe rc h s log"
  using assms(3)
proof induction
  case base
  have "recovery_log oe rc h (operator_start h) []"
    by (simp add: recovery_log_def operator_start_def spaced_def)
  then show ?case by blast
next
  case (step s s')
  then show ?case using recovery_log_passes [OF assms(1,2)] op_step_passes [OF assms(1)] by blast
qed


section \<open>An example\<close>

text \<open>
  A node whose CSI pod \<open>a\<close> is replaced by \<open>b\<close>, with two pods of one ReplicaSet on it. The second
  CSI tick notices the replacement and restarts the first of the two.
\<close>

definition restarted_op :: op_env where
  "restarted_op = example_op\<lparr>base := example_base\<lparr>time_now := slept_clock\<rparr>,
     podsOnNode := (\<lambda>h n l. Inr (if l = '''' then [example_pod ''web-1'' ''u1'', example_pod ''web-2'' ''u2'']
       else [example_pod ''csi'' (if h = [] then ''a'' else ''b'')]))\<rparr>"

definition example_flags :: op_flags where
  "example_flags = \<lparr>of_kubeletDir = ''/k'', of_probeTimeout = 3000000000, of_readyTimeout = 0, of_csiRestartRecovery = True\<rparr>"

definition example_rc :: reconciler where "example_rc = NewReconciler ''n'' example_driver"
definition example_tc :: tracker where "example_tc = NewCSINodeTracker ''n'' ''''"

definition example_tick :: "operator \<Rightarrow> operator" where
  "example_tick s = snd (run_state (onCSI restarted_op example_rc example_tc example_flags) s)"

lemma example_tick_step: "op_step restarted_op example_rc example_tc example_flags s (example_tick s)"
  by (rule csi_tick [of _ _ _ _ _ "()"]) (simp_all add: example_tick_def example_flags_def prod_eq_iff)

lemma example_ticks:
  "(op_step restarted_op example_rc example_tc example_flags)\<^sup>*\<^sup>* (operator_start []) (example_tick (example_tick (operator_start [])))"
  by (blast intro: example_tick_step rtranclp.intros)

lemma example_ticks_delete:
  "deleted restarted_op [] (trace (example_tick (example_tick (operator_start [])))) = [(''default'', ''web-1'', ''u1'')]"
  by code_simp


end
