(* ===== verification/Op_Restart.thy ===== *)
theory Op_Restart
  imports Op_Watch
begin

text \<open>
  The restart of the CSI node pod, from its detection to its acknowledgement, and the cooldown
  across a restart of the operator itself: what the annotation on a workload's controller is for.
\<close>

section \<open>The newest CSI pod\<close>

lemma fold_newer:
  "fold newer ps (Some c) = Some p \<Longrightarrow>
     p \<in> insert c (set ps) \<and> pod_created c \<le> pod_created p \<and> (\<forall>q \<in> set ps. pod_created q \<le> pod_created p)"
proof (induction ps arbitrary: c)
  case (Cons q ps)
  show ?case
  proof (cases "pod_created c < pod_created q")
    case True
    then show ?thesis using Cons.IH [of q] Cons.prems by (auto simp: newer_def)
  next
    case False
    then show ?thesis using Cons.IH [of c] Cons.prems by (auto simp: newer_def)
  qed
qed simp

lemma fold_newer_Some: "\<exists>p. fold newer ps (Some c) = Some p"
  by (induction ps arbitrary: c) (auto simp: newer_def)

lemma newest_pod:
  assumes "p \<in> set ps" and "\<forall>q \<in> set ps. q \<noteq> p \<longrightarrow> pod_created q < pod_created p"
  shows "fold newer ps None = Some p"
proof (cases ps)
  case (Cons c cs)
  obtain p' where p': "fold newer cs (Some c) = Some p'" using fold_newer_Some by blast
  from fold_newer [OF this] have "p' \<in> set ps" "pod_created p \<le> pod_created p'"
    using assms(1) Cons by auto
  then have "p' = p" using assms(2) by fastforce
  then show ?thesis using p' Cons by (simp add: newer_def)
qed (use assms in simp)

text \<open>
  The check for a restart of the CSI pod, for whatever older pods are still listed:
  the first observation only seeds the tracker, later ones report exactly a newest pod that is not
  the one last acknowledged, and remember it; the acknowledged pod does not change.
\<close>

theorem CheckRestarted_reports:
  assumes "podsOnNode oe (trace s) (ct_nodeName tc) (ct_labelSelector tc) = Inr ps"
    and "p \<in> set ps" and "\<forall>q \<in> set ps. q \<noteq> p \<longrightarrow> pod_created q < pod_created p"
  shows "\<exists>s'. run_state (CheckRestarted oe tc) s = (Inr (initialized s \<and> pod_uid p \<noteq> lastUID s), s')
           \<and> initialized s' \<and> lastUID s' = (if initialized s then lastUID s else pod_uid p)
           \<and> (initialized s \<and> pod_uid p \<noteq> lastUID s \<longrightarrow> pendingUID s' = pod_uid p)"
  using newest_pod [OF assms(2,3)]
  by (auto simp: CheckRestarted_def newestCSINodePod_def assms(1))

theorem CheckRestarted_reports_witness:
  "\<exists>s'. run_state (CheckRestarted restarted_op example_tc) (operator_start []) = (Inr False, s') \<and> lastUID s' = ''a''"
  using CheckRestarted_reports [of restarted_op "operator_start []" example_tc "[example_pod ''csi'' ''a'']" "example_pod ''csi'' ''a''"]
  by (auto simp: restarted_op_def operator_start_def example_tc_def NewCSINodeTracker_def defaultCSINodeLabelSelector_def example_pod_def)

section \<open>Who changes the tracker\<close>

text \<open>Whatever depends on neither the world nor the table nor the goroutines is kept by the reconciler.\<close>

definition off_recovery :: "('w op_world_scheme \<Rightarrow> 'x) \<Rightarrow> bool" where
  "off_recovery p \<longleftrightarrow> off_world p \<and> (\<forall>s m. p (s\<lparr>lastRecovery := m\<rparr>) = p s) \<and> (\<forall>s js. p (s\<lparr>annotating := js\<rparr>) = p s)"

lemma off_recovery_world [frame]: "off_recovery p \<Longrightarrow> off_world p"
  by (simp add: off_recovery_def)

lemma off_recovery_lastUID [frame]: "off_recovery lastUID"
  by (simp add: off_recovery_def off_world_def)

lemma keeps_table [frame]:
  "off_recovery p \<Longrightarrow> keeps p (modify (\<lambda>s. s\<lparr>lastRecovery := m s\<rparr>))"
  "off_recovery p \<Longrightarrow> keeps p (modify (\<lambda>s. s\<lparr>annotating := js s\<rparr>))"
  by (auto simp: off_recovery_def intro: keeps_modify)

lemma keeps_reconcilers [frame]:
  assumes "off_recovery p"
  shows "keeps p (ReconcileStaleMounts oe rc stale)" and "keeps p (ReconcileWorkloadPodsAfterCSIRestart oe rc)"
proof -
  note rules = frame assms off_recovery_world [OF assms]
  have limited: "keeps p (isRateLimited oe rc pod now)" for pod now
    by (auto simp: isRateLimited_def intro!: rules)
  have restart: "keeps p (restartPod oe rc pod now why message)" for pod now why message
    by (auto simp: restartPod_def restarted_def markRecovered_def scheduleReplacementAnnotate_def intro!: rules)
  have "keeps p (reconcile_mount oe rc now pods mount)" for now pods mount
    by (auto simp: reconcile_mount_def reconcile_pod_def intro!: rules limited restart)
  then show "keeps p (ReconcileStaleMounts oe rc stale)"
    by (auto simp: ReconcileStaleMounts_def list_node_pods_def intro!: rules)
  have "keeps p (refresh_pod oe rc now pod)" for now pod
    by (auto simp: refresh_pod_def intro!: rules limited restart)
  then show "keeps p (ReconcileWorkloadPodsAfterCSIRestart oe rc)"
    by (auto simp: ReconcileWorkloadPodsAfterCSIRestart_def list_node_pods_def intro!: rules)
qed

lemma wp_CheckRestarted_lastUID:
  fixes s :: operator
  shows "initialized s \<Longrightarrow> wp (CheckRestarted oe tc) (\<lambda>_ s'. lastUID s' = lastUID s) s"
  by (auto simp: CheckRestarted_def newestCSINodePod_def wp split: sum.split option.split)

text \<open>An acknowledgement: the workload pods have been gone through in between.\<close>

definition acknowledged :: "op_env \<Rightarrow> reconciler \<Rightarrow> operator \<Rightarrow> operator \<Rightarrow> bool" where
  "acknowledged oe rc s s' \<longleftrightarrow>
     (\<exists>s1 s2. run_state (ReconcileWorkloadPodsAfterCSIRestart oe rc) s1 = (Inr (), s2)
        \<and> lastUID s1 = lastUID s \<and> s' = s2\<lparr>lastUID := pendingUID s2, pendingUID := ''''\<rparr>)"

lemma wp_keeps_eq: "keeps p m \<Longrightarrow> p s = x \<Longrightarrow> wp m (\<lambda>r s'. run_state m s = (r, s') \<and> p s' = x) s"
  by (auto intro!: wpI dest: keeps_run)

lemma wp_onCSI_acknowledged:
  fixes s :: operator
  assumes "initialized s"
  shows "wp (onCSI oe rc tc fl) (\<lambda>_ s'. lastUID s' = lastUID s \<or> acknowledged oe rc s s') s"
  unfolding onCSI_def wp_bind
proof (rule wp_mono [OF wp_CheckRestarted_lastUID [OF assms]])
  let ?Q = "\<lambda>s'. lastUID s' = lastUID s \<or> acknowledged oe rc s s'"
  fix r and s1 :: operator assume s1: "lastUID s1 = lastUID s"
  have refresh: "wp (ReconcileWorkloadPodsAfterCSIRestart oe rc)
      (\<lambda>e. wp (case e of Inl _ \<Rightarrow> State_Monad.return () | Inr _ \<Rightarrow> AcknowledgeRestart) (\<lambda>_. ?Q)) s2"
    if "lastUID s2 = lastUID s" for s2
    by (rule wp_mono [OF wp_keeps_eq [where p = lastUID and x = "lastUID s"]])
      (use that in \<open>auto simp: wp AcknowledgeRestart_def acknowledged_def intro!: frame split: sum.split\<close>)
  have "wp (WaitUntilReady oe tc (of_readyTimeout fl)) (\<lambda>w. wp (case w of Inl _ \<Rightarrow> State_Monad.return ()
      | Inr _ \<Rightarrow> do { e \<leftarrow> ReconcileWorkloadPodsAfterCSIRestart oe rc;
          case e of Inl _ \<Rightarrow> State_Monad.return () | Inr _ \<Rightarrow> AcknowledgeRestart }) (\<lambda>_. ?Q)) s1"
    by (rule wp_mono [OF wp_keeps_eq [where p = lastUID and x = "lastUID s"]])
      (use s1 refresh in \<open>auto simp: wp intro!: frame split: sum.split\<close>)
  then show "wp (if r \<noteq> Inr True then State_Monad.return ()
      else do { w \<leftarrow> WaitUntilReady oe tc (of_readyTimeout fl);
        case w of Inl _ \<Rightarrow> State_Monad.return ()
        | Inr _ \<Rightarrow> do { e \<leftarrow> ReconcileWorkloadPodsAfterCSIRestart oe rc;
            case e of Inl _ \<Rightarrow> State_Monad.return () | Inr _ \<Rightarrow> AcknowledgeRestart } }) (\<lambda>_. ?Q) s1"
    using s1 by (simp add: wp)
qed

text \<open>
  Property C22: whatever the operator does next, an observed CSI pod is replaced by another as the
  acknowledged one only right after a refresh of the workload pods that returned without error;
  until then every check keeps reporting the restart.
\<close>

theorem acknowledged_after_refresh:
  assumes "op_step oe rc tc fl s s'" and "initialized s" and "lastUID s' \<noteq> lastUID s"
  shows "acknowledged oe rc s s'"
  using assms(1)
proof cases
  case (csi_tick u)
  then show ?thesis using wp_runD [OF wp_onCSI_acknowledged [OF assms(2)] csi_tick(2)] assms(3) by blast
next
  case (scan_tick u)
  have "keeps lastUID (onScan oe rc fl)" by (auto simp: onScan_def intro!: frame)
  then show ?thesis using scan_tick assms(3) keeps_run by fastforce
next
  case (annotate job u)
  have "keeps lastUID (annotateReplacementPod oe rc job)" by (auto intro!: frame)
  then show ?thesis using annotate assms(3) keeps_run by fastforce
qed

theorem acknowledged_after_refresh_witness:
  "acknowledged restarted_op example_rc (example_tick (operator_start [])) (example_tick (example_tick (operator_start [])))"
proof (rule acknowledged_after_refresh [OF example_tick_step])
  show "initialized (example_tick (operator_start []))" by code_simp
  show "lastUID (example_tick (example_tick (operator_start []))) \<noteq> lastUID (example_tick (operator_start []))" by code_simp
qed

section \<open>A refresh is not repeated\<close>

text \<open>
  Property C23: a refresh counts as done once the pods have been listed, whatever became of them.
  With a ready CSI pod that is not the acknowledged one, the tick acknowledges it and the next
  check reports no restart, even when every deletion was refused or every pod was in the cooldown
  of its workload: these pods keep their stale binds until something else restarts them.
\<close>

theorem refresh_not_repeated:
  assumes "\<And>h. podsOnNode oe h (oc_nodeName rc) '''' = Inr pods"
    and "\<And>h. podsOnNode oe h (ct_nodeName tc) (ct_labelSelector tc) = Inr ps"
    and "fold newer ps None = Some p" and "isPodReady p" and "pod_uid p \<noteq> ''''"
    and "initialized s" and "pod_uid p \<noteq> lastUID s"
  shows "\<exists>s' s''. run_state (onCSI oe rc tc fl) s = ((), s') \<and> lastUID s' = pod_uid p
           \<and> run_state (CheckRestarted oe tc) s' = (Inr False, s'')"
proof -
  let ?more = "\<lambda>s :: operator. (lastUID s, pendingUID s, initialized s)"
  have more: "off_recovery ?more" by (simp add: off_recovery_def off_world_def)
  obtain s1 where check: "run_state (CheckRestarted oe tc) s = (Inr True, s1)"
    and s1: "?more s1 = (lastUID s, pod_uid p, True)"
    using assms(3,6,7) by (cases "pendingUID s = pod_uid p") (auto simp: CheckRestarted_def newestCSINodePod_def assms(2))
  obtain s2 where ready: "run_state (WaitUntilReady oe tc (of_readyTimeout fl)) s1 = (Inr (), s2)"
    using assms(3,4) by (simp add: WaitUntilReady_def Let_def newestCSINodePod_def assms(2))
  have s2: "?more s2 = ?more s1"
    by (rule keeps_run [OF _ ready]) (rule calm_WaitUntilReady(2), rule off_recovery_world, rule more)
  have "fst (run_state (ReconcileWorkloadPodsAfterCSIRestart oe rc) s2) = Inr ()"
    by (simp add: ReconcileWorkloadPodsAfterCSIRestart_def list_node_pods_def assms(1) split: prod.split)
  then obtain s3 where refresh: "run_state (ReconcileWorkloadPodsAfterCSIRestart oe rc) s2 = (Inr (), s3)"
    by (metis prod.collapse)
  have s3: "?more s3 = ?more s2"
    by (rule keeps_run [OF keeps_reconcilers(2) [OF more] refresh])
  let ?s = "s3\<lparr>lastUID := pod_uid p, pendingUID := ''''\<rparr>"
  have "run_state (onCSI oe rc tc fl) s = ((), ?s)"
    using s1 s2 s3 assms(5) by (simp add: onCSI_def check ready refresh AcknowledgeRestart_def)
  moreover have "\<exists>s''. run_state (CheckRestarted oe tc) ?s = (Inr False, s'')"
    using s1 s2 s3 assms(3) by (simp add: CheckRestarted_def newestCSINodePod_def assms(2))
  ultimately show ?thesis by fastforce
qed

text \<open>Every deletion is refused, and yet the restart is acknowledged.\<close>

definition refusing_op :: op_env where
  "refusing_op = example_op\<lparr>podDelete := (\<lambda>h ns n u. Some (ApiOther ''forbidden''))\<rparr>"

theorem refresh_not_repeated_witness:
  "let s = (operator_start [])\<lparr>lastUID := ''old'', initialized := True\<rparr>
   in \<exists>s' s''. run_state (onCSI refusing_op example_rc example_tc example_flags) s = ((), s') \<and> lastUID s' = ''u1''
        \<and> run_state (CheckRestarted refusing_op example_tc) s' = (Inr False, s'')"
  using refresh_not_repeated [of refusing_op example_rc "[example_pod ''web-1'' ''u1'', example_pod ''web-2'' ''u2'']"
      example_tc "[example_pod ''web-1'' ''u1'', example_pod ''web-2'' ''u2'']" "example_pod ''web-1'' ''u1''"
      "(operator_start [])\<lparr>lastUID := ''old'', initialized := True\<rparr>" example_flags]
  by (simp add: refusing_op_def example_op_def example_pod_def newer_def isPodReady_def operator_start_def)

section \<open>The cooldown across a restart of the operator\<close>

text \<open>
  What is relied on outside: RFC 3339 times have whole seconds, and the API server returns for an
  owner the annotations of its last successful update.
\<close>

definition rfc3339_ok :: "op_env \<Rightarrow> bool" where
  "rfc3339_ok oe \<longleftrightarrow> (\<forall>t. rfc3339_format oe t \<noteq> ''''
     \<and> rfc3339_parse oe (rfc3339_format oe t) = Some (t - t mod 1000000000))"

fun updates_owner :: "string \<Rightarrow> string \<Rightarrow> string \<Rightarrow> ev \<Rightarrow> bool" where
  "updates_owner k ns n (Op (OwnerUpdate k' ns' n' _)) \<longleftrightarrow> k = k' \<and> ns = ns' \<and> n = n'"
| "updates_owner k ns n _ \<longleftrightarrow> False"

definition owner_stored :: "op_env \<Rightarrow> bool" where
  "owner_stored oe \<longleftrightarrow> (\<forall>h k ns n m es. ownerUpdate oe h k ns n m = None \<and> list_all (\<lambda>e. \<not> updates_owner k ns n e) es
     \<longrightarrow> ownerGet oe (h @ Op (OwnerUpdate k ns n m) # es) k ns n = Inr m)"

lemma annotation_blocks:
  assumes "rfc3339_ok oe"
  shows "parseRecoveryAnnotation oe (setRecoveryAnnotation oe m t) now cooldown \<longleftrightarrow> now - (t - t mod 1000000000) < cooldown"
  using assms by (simp add: parseRecoveryAnnotation_def setRecoveryAnnotation_def mget_def rfc3339_ok_def update_conv)

lemma retry_on_conflict_last:
  assumes "run_state (retry_on_conflict n body) s = (None, s')"
  shows "\<exists>s1. run_state body s1 = (None, s')"
  using assms by (induction n arbitrary: s) (auto split: prod.splits if_splits)

text \<open>A successful annotation is the last event.\<close>

lemma annotateOwner_writes:
  assumes "run_state (annotateOwner oe p t) s = (None, s')"
    and "controllerOwnerRef p = Some ow" and "or_kind ow \<in> set annotated_kinds"
  shows "\<exists>h m. trace s' = h @ [Op (OwnerUpdate (or_kind ow) (pod_namespace p) (or_name ow) (setRecoveryAnnotation oe m t))]
           \<and> ownerUpdate oe h (or_kind ow) (pod_namespace p) (or_name ow) (setRecoveryAnnotation oe m t) = None"
proof -
  obtain s1 where "run_state (annotate_owner_once oe (pod_namespace p) ow t) s1 = (None, s')"
    using assms retry_on_conflict_last by (fastforce simp: annotateOwner_def)
  then show ?thesis
    by (auto simp: annotate_owner_once_def owner_get_def split: sum.splits)
qed

text \<open>
  Property C16: the cooldown outlives the operator. Once the controller of a restarted pod has been
  annotated, an operator that starts later, with an empty table, finds every pod of that controller
  limited until the cooldown is over, less the fraction of a second that the annotation drops; and
  from then on it finds them free.
\<close>

theorem cooldown_survives_restart:
  assumes "rfc3339_ok oe" and "owner_stored oe"
    and "run_state (annotateOwner oe p t) s = (None, s')"
    and "controllerOwnerRef p = Some ow" and "or_kind ow \<in> set annotated_kinds"
    and "list_all (\<lambda>e. \<not> updates_owner (or_kind ow) (pod_namespace p) (or_name ow) e) es"
    and "controllerOwnerRef q = Some ow" and "pod_namespace q = pod_namespace p"
  shows "fst (run_state (isRateLimited oe rc q now) (operator_start (trace s' @ es)))
           \<longleftrightarrow> now - t < oc_cooldown rc - t mod 1000000000"
proof -
  obtain h m where last: "trace s' = h @ [Op (OwnerUpdate (or_kind ow) (pod_namespace p) (or_name ow) (setRecoveryAnnotation oe m t))]"
    and stored: "ownerUpdate oe h (or_kind ow) (pod_namespace p) (or_name ow) (setRecoveryAnnotation oe m t) = None"
    using annotateOwner_writes [OF assms(3-5)] by blast
  have "ownerGet oe (trace s' @ es) (or_kind ow) (pod_namespace p) (or_name ow) = Inr (setRecoveryAnnotation oe m t)"
    using assms(2,6) stored unfolding owner_stored_def last by simp
  then show ?thesis
    using assms(5,7,8) annotation_blocks [OF assms(1)]
    by (auto simp: isRateLimited_def ownerAnnotationRateLimited_def owner_get_def operator_start_def pruneExpiredRecoveries_def)
qed

text \<open>
  An API server that looks the annotations up in the history, and times written as a sign and
  one letter for each second.
\<close>

fun last_update :: "string \<Rightarrow> string \<Rightarrow> string \<Rightarrow> history \<Rightarrow> smap" where
  "last_update k ns n [] = []"
| "last_update k ns n (e # es) =
     (if updates_owner k ns n e then (case e of Op (OwnerUpdate _ _ _ m) \<Rightarrow> m | _ \<Rightarrow> []) else last_update k ns n es)"

definition unary_time :: "int \<Rightarrow> string" where
  "unary_time t = (if t < 0 then CHR ''-'' else CHR ''+'') # replicate (nat \<bar>t div 1000000000\<bar>) CHR ''s''"

definition read_unary_time :: "string \<Rightarrow> int option" where
  "read_unary_time s = (case s of [] \<Rightarrow> None
     | c # cs \<Rightarrow> Some ((if c = CHR ''-'' then - int (length cs) else int (length cs)) * 1000000000))"

definition storing_op :: op_env where
  "storing_op = example_op\<lparr>ownerGet := (\<lambda>h k ns n. Inr (last_update k ns n (rev h))),
     rfc3339_format := unary_time, rfc3339_parse := read_unary_time\<rparr>"

lemma last_update_append: "list_all (\<lambda>e. \<not> updates_owner k ns n e) es \<Longrightarrow> last_update k ns n (es @ h) = last_update k ns n h"
  by (induction es) auto

lemma storing_op_ok: "rfc3339_ok storing_op" "owner_stored storing_op"
proof -
  have "read_unary_time (unary_time t) = Some (t - t mod 1000000000)" for t
    by (auto simp: read_unary_time_def unary_time_def minus_mod_eq_mult_div pos_imp_zdiv_neg_iff pos_imp_zdiv_nonneg_iff)
  then show "rfc3339_ok storing_op"
    by (simp add: rfc3339_ok_def storing_op_def unary_time_def)
  show "owner_stored storing_op"
    by (auto simp: owner_stored_def storing_op_def last_update_append list_all_rev)
qed

text \<open>
  The owner of \<open>web-1\<close> is annotated at 2.5 s; a new operator finds \<open>web-2\<close> limited at 3 s and free
  an hour after 2.5 s.
\<close>

theorem cooldown_survives_restart_witness:
  "let s = snd (run_state (annotateOwner storing_op (example_pod ''web-1'' ''u1'') 2500000000) (operator_start []));
       limited = (\<lambda>now. fst (run_state (isRateLimited storing_op example_rc (example_pod ''web-2'' ''u2'') now) (operator_start (trace s))))
   in limited 3000000000 \<and> \<not> limited 3602500000000"
proof -
  obtain s where run: "run_state (annotateOwner storing_op (example_pod ''web-1'' ''u1'') 2500000000) (operator_start []) = (None, s)"
    by (auto simp: annotateOwner_def annotate_owner_once_def owner_get_def controllerOwnerRef_def example_pod_def
        annotated_kinds_def storing_op_def example_op_def Example_Env.example_defs numeral_eq_Suc)
  have ow: "\<exists>ow. controllerOwnerRef (example_pod n u) = Some ow \<and> or_kind ow \<in> set annotated_kinds \<and> pod_namespace (example_pod n u) = ''default''
      \<and> ow = hd (pod_owners (example_pod n u))" for n u
    by (simp add: controllerOwnerRef_def example_pod_def annotated_kinds_def)
  note survives = cooldown_survives_restart [OF storing_op_ok run, of _ "[]" "example_pod ''web-2'' ''u2''" example_rc]
  have "oc_cooldown example_rc = 3600000000000" by (simp add: example_rc_def NewReconciler_def defaultRecoveryCooldown_def)
  then show ?thesis
    using survives [of _ 3000000000] survives [of _ 3602500000000] run
    by (simp add: controllerOwnerRef_def example_pod_def annotated_kinds_def Let_def)
qed

end
