(* ===== verification/Controller.thy ===== *)
theory Controller
  imports Params
begin

text \<open>
  The controller service (pkg/rclone/controllerserver.go) with the template variables of
  rclone.go, and the parsing of the endpoint (utils.go): creating a volume gives it an ID and the
  context that the node server later publishes it with.
\<close>

section \<open>Template variables\<close>

definition pvcNameKey :: string where "pvcNameKey = ''csi.storage.k8s.io/pvc/name''"
definition pvcNamespaceKey :: string where "pvcNamespaceKey = ''csi.storage.k8s.io/pvc/namespace''"
definition pvNameKey :: string where "pvNameKey = ''csi.storage.k8s.io/pv/name''"
definition pvcNameMetadata :: string where "pvcNameMetadata = ''${pvc.metadata.name}''"
definition pvcNamespaceMetadata :: string where "pvcNamespaceMetadata = ''${pvc.metadata.namespace}''"
definition pvNameMetadata :: string where "pvNameMetadata = ''${pv.metadata.name}''"

fun replaceWithMap :: "string \<Rightarrow> smap \<Rightarrow> string" where
  "replaceWithMap str [] = str"
| "replaceWithMap str ((k, v) # m) = replaceWithMap (if k \<noteq> '''' then replaceAll str k v else str) m"

section \<open>Creating a volume\<close>

record create_req =
  cr_name :: string
  cr_capabilities :: "volume_capability list"
  cr_parameters :: smap

definition isValidVolumeCapabilities :: "volume_capability list \<Rightarrow> gerr option" where
  "isValidVolumeCapabilities caps =
     (if caps = [] then Some (Errorf ''volume capabilities missing in request'' [])
      else if list_ex (\<lambda>c. c = BlockCap) caps then Some (Errorf ''block volume capability not supported'' [])
      else None)"

text \<open>What the loop over the parameters collects; the names are compared without case and blanks.\<close>

record create_params =
  cp_remote :: string
  cp_remotePath :: string
  cp_replace :: smap

definition scan_param :: "string \<times> string \<Rightarrow> create_params \<Rightarrow> create_params" where
  "scan_param kv cp =
     (let k = toLower (trimSpace (fst kv)); v = trimSpace (snd kv) in
      if k = toLower paramRemote then cp\<lparr>cp_remote := v\<rparr>
      else if k = toLower paramRemotePath then cp\<lparr>cp_remotePath := v\<rparr>
      else if k = toLower paramConfigData then cp
      else if k = pvcNamespaceKey then cp\<lparr>cp_replace := AList.update pvcNamespaceMetadata v (cp_replace cp)\<rparr>
      else if k = pvcNameKey then cp\<lparr>cp_replace := AList.update pvcNameMetadata v (cp_replace cp)\<rparr>
      else if k = pvNameKey then cp\<lparr>cp_replace := AList.update pvNameMetadata v (cp_replace cp)\<rparr>
      else cp)"

definition scan_params :: "smap \<Rightarrow> create_params" where
  "scan_params ps = fold scan_param ps \<lparr>cp_remote = '''', cp_remotePath = '''', cp_replace = []\<rparr>"

definition separator :: string where "separator = ''#''"

record volume =
  vol_id :: string
  vol_context :: smap

definition created_volume :: "string \<Rightarrow> smap \<Rightarrow> create_params \<Rightarrow> volume" where
  "created_volume name parameters cp =
     (let remotePath = (if cp_remotePath cp \<noteq> '''' then replaceWithMap (cp_remotePath cp) (cp_replace cp) else '''');
          volumeContext = map_copy [] parameters
      in \<lparr>vol_id = (if cp_remote cp \<noteq> '''' then cp_remote cp @ separator @ name else name),
          vol_context = (if remotePath \<noteq> '''' then AList.update paramRemotePath remotePath volumeContext else volumeContext)\<rparr>)"

definition CreateVolume :: "create_req \<Rightarrow> gerr + volume" where
  "CreateVolume req =
     (if cr_name req = '''' then Inl (Status InvalidArgument ''CreateVolume name must be provided'' [])
      else case isValidVolumeCapabilities (cr_capabilities req) of
             Some e \<Rightarrow> Inl (Status InvalidArgument ''%s'' [E e])
           | None \<Rightarrow> Inr (created_volume (cr_name req) (cr_parameters req) (scan_params (cr_parameters req))))"

definition DeleteVolume :: "string \<Rightarrow> gerr + unit" where
  "DeleteVolume volumeID =
     (if volumeID = '''' then Inl (Status InvalidArgument ''volume id is empty'' []) else Inr ())"

definition ValidateVolumeCapabilities :: "string \<Rightarrow> volume_capability list \<Rightarrow> gerr + volume_capability list" where
  "ValidateVolumeCapabilities volumeID caps =
     (if volumeID = '''' then Inl (Status InvalidArgument ''Volume ID missing in request'' [])
      else case isValidVolumeCapabilities caps of
             Some e \<Rightarrow> Inl (Status InvalidArgument ''%s'' [E e])
           | None \<Rightarrow> Inr caps)"

text \<open>The calls the controller does not implement; they do not look at their request.\<close>

definition unimplemented :: "gerr + 'a" where
  "unimplemented = Inl (Status Unimplemented '''' [])"

definition ControllerPublishVolume :: "'q \<Rightarrow> gerr + 'a" where "ControllerPublishVolume req = unimplemented"
definition ControllerUnpublishVolume :: "'q \<Rightarrow> gerr + 'a" where "ControllerUnpublishVolume req = unimplemented"
definition ControllerGetVolume :: "'q \<Rightarrow> gerr + 'a" where "ControllerGetVolume req = unimplemented"
definition ListVolumes :: "'q \<Rightarrow> gerr + 'a" where "ListVolumes req = unimplemented"
definition GetCapacity :: "'q \<Rightarrow> gerr + 'a" where "GetCapacity req = unimplemented"
definition ControllerExpandVolume :: "'q \<Rightarrow> gerr + 'a" where "ControllerExpandVolume req = unimplemented"
definition ControllerModifyVolume :: "'q \<Rightarrow> gerr + 'a" where "ControllerModifyVolume req = unimplemented"

section \<open>The endpoint\<close>

definition ParseEndpoint :: "string \<Rightarrow> gerr + string \<times> string" where
  "ParseEndpoint ep =
     (case (if hasPrefix (toLower ep) ''unix://'' \<or> hasPrefix (toLower ep) ''tcp://'' then cut_str ep ''://'' else None) of
        Some (proto, addr) \<Rightarrow>
          if addr \<noteq> '''' then Inr (proto, addr)
          else if hasPrefix ep ''/'' then Inr (''unix'', ep)
          else Inl (Errorf ''invalid endpoint: %v'' [S ep])
      | None \<Rightarrow>
          if hasPrefix ep ''/'' then Inr (''unix'', ep)
          else Inl (Errorf ''invalid endpoint: %v'' [S ep]))"

text \<open>The address a server listens at.\<close>

definition listen_address :: "string \<Rightarrow> gerr + string \<times> string" where
  "listen_address endpoint =
     (case ParseEndpoint endpoint of
        Inl e \<Rightarrow> Inl e
      | Inr (proto, addr) \<Rightarrow> Inr (proto, if proto = ''unix'' then ''/'' @ addr else addr))"

section \<open>Templates are replaced at once\<close>

text \<open>
  A template variable is \<open>${...}\<close>; a plain value has neither a dollar nor an opening brace, as the
  names of Kubernetes objects have not. The text before the first dollar is \<open>hd\<close> of the split, each
  further part stands behind a dollar.
\<close>

definition template :: "string \<Rightarrow> bool" where
  "template k \<longleftrightarrow> (\<exists>x. k = ''${'' @ x @ ''}'' \<and> CHR ''$'' \<notin> set x \<and> CHR ''}'' \<notin> set x)"

definition plain_value :: "string \<Rightarrow> bool" where
  "plain_value v \<longleftrightarrow> v \<noteq> '''' \<and> CHR ''$'' \<notin> set v \<and> CHR ''{'' \<notin> set v"

definition closed_part :: "string \<Rightarrow> bool" where
  "closed_part p \<longleftrightarrow> CHR ''$'' \<notin> set p \<and> (hasPrefix p ''{'' \<longrightarrow> CHR ''}'' \<in> set p)"

definition closed_templates :: "string \<Rightarrow> bool" where
  "closed_templates s \<longleftrightarrow> list_all closed_part (tl (split_on (CHR ''$'') s))"

text \<open>Parts that stand behind a dollar (\<open>True\<close>) and parts that do not any more.\<close>

type_synonym part = "bool \<times> string"

fun render :: "part list \<Rightarrow> string" where
  "render [] = []"
| "render ((dollar, p) # ps) = (if dollar then [CHR ''$''] else []) @ p @ render ps"

definition part_ok :: "part \<Rightarrow> bool" where
  "part_ok = (\<lambda>(dollar, p). if dollar then closed_part p
     else CHR ''$'' \<notin> set p \<and> p \<noteq> '''' \<and> hd p \<noteq> CHR ''{'')"

definition subst_part :: "string \<times> string \<Rightarrow> part \<Rightarrow> part" where
  "subst_part = (\<lambda>(k, v) (dollar, p).
     if dollar \<and> hasPrefix p (tl k) then (False, v @ drop (length (tl k)) p) else (dollar, p))"

text \<open>The reference: one pass from the left, each variable replaced where it stands.\<close>

function expand :: "smap \<Rightarrow> string \<Rightarrow> string" where
  "expand m [] = []"
| "expand m (c # s) =
     (case find (\<lambda>(k, v). hasPrefix (c # s) k) m of
        None \<Rightarrow> c # expand m s
      | Some (k, v) \<Rightarrow> v @ expand m (drop (length k - 1) s))"
  by pat_completeness auto
termination by (relation "measure (\<lambda>(m, s). length s)") auto

lemma template_tl: "template k \<Longrightarrow> k = CHR ''$'' # tl k \<and> (\<exists>x. tl k = ''{'' @ x @ ''}'' \<and> CHR ''}'' \<notin> set x \<and> CHR ''$'' \<notin> set x)"
  by (auto simp: template_def)

lemma first_brace:
  assumes "a @ c # b = x @ c # z" and "c \<notin> set a" and "c \<notin> set x"
  shows "a = x \<and> b = z"
  using assms by (induction a arbitrary: x) (auto simp: Cons_eq_append_conv)

text \<open>A template is found in a part or not at all: what follows the part cannot complete it.\<close>

lemma prefix_in_part:
  assumes "template k" and "closed_part p" and "list_all part_ok ps"
  shows "hasPrefix (p @ render ps) (tl k) \<longleftrightarrow> hasPrefix p (tl k)"
proof
  assume prefix: "hasPrefix (p @ render ps) (tl k)"
  obtain x where k: "tl k = ''{'' @ x @ ''}''" "CHR ''}'' \<notin> set x" using template_tl [OF assms(1)] by blast
  then obtain z where z: "p @ render ps = CHR ''{'' # x @ CHR ''}'' # z" using prefix by (auto simp: hasPrefix_iff)
  show "hasPrefix p (tl k)"
  proof (cases p)
    case Nil
    then have "render ps \<noteq> []" "hd (render ps) = CHR ''{''" using z by simp_all
    with assms(3) show ?thesis by (cases ps) (auto simp: part_ok_def hd_append split: if_splits)
  next
    case (Cons c p')
    then have "c = CHR ''{''" using z by simp
    then have "hasPrefix p ''{''" using Cons by (simp add: hasPrefix_def)
    then have "CHR ''}'' \<in> set p" using assms(2) by (simp add: closed_part_def)
    then obtain a b where p: "p = a @ CHR ''}'' # b" "CHR ''}'' \<notin> set a" by (meson split_list_first)
    have "a @ CHR ''}'' # (b @ render ps) = (CHR ''{'' # x) @ CHR ''}'' # z" using z p(1) by simp
    moreover have "CHR ''}'' \<notin> set (CHR ''{'' # x)" using k(2) by simp
    ultimately have "a = CHR ''{'' # x" using first_brace [of a "CHR ''}''" "b @ render ps"] p(2) by blast
    then have "p = tl k @ b" using p(1) k(1) by simp
    then show ?thesis by (simp add: hasPrefix_def)
  qed
qed (auto simp: hasPrefix_iff)

lemma hasPrefix_Cons [simp]: "hasPrefix (c # s) (d # t) \<longleftrightarrow> c = d \<and> hasPrefix s t"
  by (auto simp: hasPrefix_def)

lemma replace_literal:
  "CHR ''$'' \<notin> set t \<Longrightarrow> template k \<Longrightarrow> replace_scan (t @ r) k v = t @ replace_scan r k v"
  by (induction t) (auto simp: hasPrefix_def template_def)

lemma replace_parts:
  assumes "template k" and "list_all part_ok ps"
  shows "replace_scan (render ps) k v = render (map (subst_part (k, v)) ps)"
  using assms(2)
proof (induction ps)
  case (Cons q ps)
  obtain dollar p where q: "q = (dollar, p)" by fastforce
  obtain k' where k: "k = CHR ''$'' # k'" using template_tl [OF assms(1)] by blast
  note literal = replace_literal [OF _ assms(1), unfolded k]
  show ?case
  proof (cases dollar)
    case True
    have p: "closed_part p" "CHR ''$'' \<notin> set p" using Cons.prems q True by (auto simp: part_ok_def closed_part_def)
    have prefix: "hasPrefix (p @ render ps) k' \<longleftrightarrow> hasPrefix p k'"
      using prefix_in_part [OF assms(1) p(1), of ps] Cons.prems by (simp add: k)
    show ?thesis
    proof (cases "hasPrefix p k'")
      case hit: True
      then have "drop (length k') (p @ render ps) = drop (length k') p @ render ps"
        by (auto simp: hasPrefix_iff)
      moreover have "CHR ''$'' \<notin> set (drop (length k') p)" using p(2) by (meson in_set_dropD)
      ultimately show ?thesis
        using hit True Cons prefix literal by (simp add: q k subst_part_def)
    next
      case False
      then show ?thesis using True Cons prefix p(2) literal by (simp add: q k subst_part_def)
    qed
  next
    case False
    then show ?thesis
      using Cons literal by (simp add: q k subst_part_def part_ok_def)
  qed
qed simp

lemma subst_part_ok:
  assumes "template k" and "plain_value v" and "part_ok q"
  shows "part_ok (subst_part (k, v) q)"
  using assms
  by (cases q) (auto simp: subst_part_def part_ok_def plain_value_def closed_part_def hd_append dest: in_set_dropD list.set_sel)

text \<open>The passes over the variables, part by part.\<close>

lemma replaceWithMap_parts:
  assumes "list_all (\<lambda>(k, v). template k \<and> plain_value v) m" and "CHR ''$'' \<notin> set t" and "list_all part_ok ps"
  shows "replaceWithMap (t @ render ps) m = t @ render (map (fold subst_part m) ps)"
  using assms(1,3)
proof (induction m arbitrary: ps)
  case (Cons kv m)
  obtain k v where kv: "kv = (k, v)" "template k" "plain_value v" using Cons.prems(1) by (cases kv) auto
  then have "k \<noteq> ''''" by (auto simp: template_def)
  then have "replaceAll (t @ render ps) k v = t @ render (map (subst_part (k, v)) ps)"
    using replace_literal [OF assms(2) kv(2)] replace_parts [OF kv(2) Cons.prems(2)] by (simp add: replaceAll_def)
  moreover have "list_all part_ok (map (subst_part (k, v)) ps)"
    using Cons.prems(2) subst_part_ok [OF kv(2,3)] by (auto simp: list_all_iff)
  ultimately show ?case using Cons \<open>k \<noteq> ''''\<close> by (simp add: kv(1) comp_def)
qed simp

lemma subst_part_simps [simp]:
  "subst_part kv (False, p) = (False, p)"
  "subst_part (k, v) (True, p) = (if hasPrefix p (tl k) then (False, v @ drop (length (tl k)) p) else (True, p))"
  by (auto simp: subst_part_def split: prod.split)

lemma fold_literal [simp]: "fold subst_part m (False, p) = (False, p)"
  by (induction m) auto

lemma fold_dollar:
  "fold subst_part m (True, p) =
     (case find (\<lambda>(k, v). hasPrefix p (tl k)) m of None \<Rightarrow> (True, p) | Some (k, v) \<Rightarrow> (False, v @ drop (length (tl k)) p))"
  by (induction m) auto

lemma expand_literal:
  assumes "list_all (\<lambda>(k, v). template k) m" and "CHR ''$'' \<notin> set t"
  shows "expand m (t @ r) = t @ expand m r"
  using assms(2)
proof (induction t)
  case (Cons c t)
  have "find (\<lambda>(k, v). hasPrefix (c # t @ r) k) m = None"
    using assms(1) Cons.prems by (auto simp: find_None_iff list_all_iff template_def)
  then show ?case using Cons by simp
qed simp

lemma find_cong': "(\<And>x. x \<in> set xs \<Longrightarrow> P x = Q x) \<Longrightarrow> find P xs = find Q xs"
  by (rule find_cong) simp_all

lemma expand_parts:
  assumes "list_all (\<lambda>(k, v). template k) m" and "list_all part_ok ps"
  shows "expand m (render ps) = render (map (fold subst_part m) ps)"
  using assms(2)
proof (induction ps)
  case (Cons q ps)
  obtain dollar p where q: "q = (dollar, p)" by fastforce
  note literal = expand_literal [OF assms(1)]
  show ?case
  proof (cases dollar)
    case True
    have p: "closed_part p" "CHR ''$'' \<notin> set p" using Cons.prems q True by (auto simp: part_ok_def closed_part_def)
    have "hasPrefix (CHR ''$'' # p @ render ps) k \<longleftrightarrow> hasPrefix p (tl k)" if "(k, v) \<in> set m" for k v
    proof -
      have k: "template k" using assms(1) that by (auto simp: list_all_iff)
      then obtain k' where "k = CHR ''$'' # k'" using template_tl by blast
      then show ?thesis using prefix_in_part [OF k p(1), of ps] Cons.prems by simp
    qed
    then have find: "find (\<lambda>(k, v). hasPrefix (CHR ''$'' # p @ render ps) k) m = find (\<lambda>(k, v). hasPrefix p (tl k)) m"
      by (intro find_cong') auto
    show ?thesis
    proof (cases "find (\<lambda>(k, v). hasPrefix p (tl k)) m")
      case None
      then show ?thesis using True Cons p(2) literal by (simp add: q find fold_dollar)
    next
      case (Some kv)
      obtain k v where kv: "kv = (k, v)" by fastforce
      have "hasPrefix p (tl k)" using Some kv by (auto simp: find_Some_iff)
      then have "drop (length k - 1) (p @ render ps) = drop (length k - 1) p @ render ps"
        by (auto simp: hasPrefix_iff)
      moreover have "CHR ''$'' \<notin> set (drop (length k - 1) p)" using p(2) by (meson in_set_dropD)
      ultimately show ?thesis using True Cons Some kv literal by (simp add: q find fold_dollar)
    qed
  next
    case False
    then show ?thesis using Cons literal by (simp add: q part_ok_def)
  qed
qed simp

lemma split_dollar: "s = hd (split_on (CHR ''$'') s) @ render (map (Pair True) (tl (split_on (CHR ''$'') s)))"
proof (induction s)
  case (Cons c s)
  then show ?case by (cases "split_on (CHR ''$'') s") auto
qed simp

text \<open>
  Replacing the template variables one after the other, in whatever order Go visits
  the map, has the effect of replacing them all in one pass, each where it stands in the path, as
  long as the values are plain and no variable of the path is interrupted by another one.
\<close>

lemma replaceWithMap_expands:
  assumes "list_all (\<lambda>(k, v). template k \<and> plain_value v) m" and "closed_templates str"
  shows "replaceWithMap str m = expand m str"
proof -
  let ?t = "hd (split_on (CHR ''$'') str)" and ?ps = "map (Pair True) (tl (split_on (CHR ''$'') str))"
  have t: "CHR ''$'' \<notin> set ?t" by (rule set_split_on [of _ "CHR ''$''" str]) simp
  have ps: "list_all part_ok ?ps"
    using assms(2) by (auto simp: closed_templates_def part_ok_def list_all_iff)
  have m: "list_all (\<lambda>(k, v). template k) m" using assms(1) by (auto simp: list_all_iff)
  have "replaceWithMap (?t @ render ?ps) m = ?t @ render (map (fold subst_part m) ?ps)"
    by (rule replaceWithMap_parts [OF assms(1) t ps])
  also have "\<dots> = expand m (?t @ render ?ps)"
    using expand_literal [OF m t] expand_parts [OF m ps] by simp
  finally show ?thesis using split_dollar [of str] by simp
qed

text \<open>Without the second condition the order of the map shows in the result.\<close>

lemma replaceWithMap_order_matters:
  "replaceWithMap ''${pvc.metadata.${pv.metadata.name}}'' [(pvNameMetadata, ''name''), (pvcNameMetadata, ''data'')] = ''data''"
  "replaceWithMap ''${pvc.metadata.${pv.metadata.name}}'' [(pvcNameMetadata, ''data''), (pvNameMetadata, ''name'')] = ''${pvc.metadata.name}''"
  by code_simp+

lemma templates [simp]: "template pvcNameMetadata" "template pvcNamespaceMetadata" "template pvNameMetadata"
proof -
  have "template (''${'' @ x @ ''}'')" if "CHR ''$'' \<notin> set x" "CHR ''}'' \<notin> set x" for x
    using that by (auto simp: template_def)
  from this [of "''pvc.metadata.name''"] this [of "''pvc.metadata.namespace''"] this [of "''pv.metadata.name''"]
  show "template pvcNameMetadata" "template pvcNamespaceMetadata" "template pvNameMetadata"
    by (simp_all add: pvcNameMetadata_def pvcNamespaceMetadata_def pvNameMetadata_def)
qed

lemma replaceWithMap_example:
  "replaceWithMap ''backup/${pvc.metadata.namespace}/${pvc.metadata.name}''
     [(pvcNamespaceMetadata, ''prod''), (pvcNameMetadata, ''data'')] = ''backup/prod/data''"
proof -
  have "closed_templates ''backup/${pvc.metadata.namespace}/${pvc.metadata.name}''" by code_simp
  then have "replaceWithMap ''backup/${pvc.metadata.namespace}/${pvc.metadata.name}''
      [(pvcNamespaceMetadata, ''prod''), (pvcNameMetadata, ''data'')]
    = expand [(pvcNamespaceMetadata, ''prod''), (pvcNameMetadata, ''data'')] ''backup/${pvc.metadata.namespace}/${pvc.metadata.name}''"
    by (intro replaceWithMap_expands) (simp_all add: plain_value_def)
  also have "\<dots> = ''backup/prod/data''" by code_simp
  finally show ?thesis .
qed

section \<open>From creation to publish\<close>

lemma scan_replace_templates:
  assumes "list_all (\<lambda>(k, v). template k) (cp_replace cp)"
  shows "list_all (\<lambda>(k, v). template k) (cp_replace (fold scan_param ps cp))"
proof -
  have update: "list_all (\<lambda>(k, v). template k) m \<Longrightarrow> template k \<Longrightarrow> list_all (\<lambda>(k, v). template k) (AList.update k v m)" for k v m
    by (induction m) auto
  have step: "list_all (\<lambda>(k, v). template k) (cp_replace (scan_param kv cp))"
    if "list_all (\<lambda>(k, v). template k) (cp_replace cp)" for kv cp
    using that by (simp add: scan_param_def Let_def update)
  show ?thesis
    using assms by (induction ps arbitrary: cp) (simp_all add: step)
qed

lemma expand_nonempty: "list_all (plain_value \<circ> snd) m \<Longrightarrow> s \<noteq> '''' \<Longrightarrow> expand m s \<noteq> ''''"
  by (cases s) (auto simp: list_all_iff find_Some_iff plain_value_def split: option.split dest!: nth_mem)

definition resolved_path :: "smap \<Rightarrow> string" where
  "resolved_path parameters = expand (cp_replace (scan_params parameters)) (cp_remotePath (scan_params parameters))"

definition resolvable :: "smap \<Rightarrow> bool" where
  "resolvable parameters \<longleftrightarrow> cp_remotePath (scan_params parameters) \<noteq> ''''
     \<and> closed_templates (cp_remotePath (scan_params parameters))
     \<and> list_all (plain_value \<circ> snd) (cp_replace (scan_params parameters))"

lemma CreateVolume_context:
  assumes "CreateVolume req = Inr vol" and "distinct (keys (cr_parameters req))"
  shows "distinct (keys (vol_context vol))"
    and "k \<noteq> paramRemotePath \<Longrightarrow> map_of (vol_context vol) k = map_of (cr_parameters req) k"
    and "resolvable (cr_parameters req) \<Longrightarrow> map_of (vol_context vol) paramRemotePath = Some (resolved_path (cr_parameters req))"
proof -
  let ?ps = "cr_parameters req" and ?cp = "scan_params (cr_parameters req)"
  have vol: "vol = created_volume (cr_name req) ?ps ?cp"
    using assms(1) by (auto simp: CreateVolume_def split: if_splits option.splits)
  show "distinct (keys (vol_context vol))"
    unfolding vol created_volume_def Let_def by (simp add: distinct_update distinct_keys_map_copy)
  show "map_of (vol_context vol) k = map_of ?ps k" if "k \<noteq> paramRemotePath"
    using that assms(2) unfolding vol created_volume_def Let_def by (simp add: map_of_map_copy)
  show "map_of (vol_context vol) paramRemotePath = Some (resolved_path ?ps)" if res: "resolvable ?ps"
  proof -
    have "list_all (\<lambda>(k, v). template k) (cp_replace ?cp)"
      unfolding scan_params_def by (rule scan_replace_templates) simp
    then have "list_all (\<lambda>(k, v). template k \<and> plain_value v) (cp_replace ?cp)"
      using res by (auto simp: resolvable_def list_all_iff)
    then have "replaceWithMap (cp_remotePath ?cp) (cp_replace ?cp) = resolved_path ?ps"
      using res unfolding resolved_path_def resolvable_def by (intro replaceWithMap_expands) simp_all
    then show ?thesis
      using res expand_nonempty unfolding vol created_volume_def Let_def resolvable_def resolved_path_def by simp
  qed
qed


text \<open>
  A created volume that no publish accepts. Creation compares parameter names without
  case, a publish does not: when the storage class names its remote in another case, as
  \<open>Remote\<close>, the volume is created, with that remote in its ID, and every publish of it whose
  secrets give no remote is rejected.
\<close>

theorem publish_rejects_other_case:
  assumes "CreateVolume req = Inr vol" and "distinct (keys (cr_parameters req))"
    and "volumeContext preq = vol_context vol" and "distinct (keys (secrets preq))"
    and "map_of (cr_parameters req) paramRemote = None" and "map_of (secrets preq) paramRemote = None"
  shows "extractPublishParams (mergeVolumeParameters preq)
    = Inl (Status InvalidArgument ''remote is required (provide via volumeAttributes or secrets)'' [])"
proof -
  note ctx = CreateVolume_context [OF assms(1,2)]
  have "map_of (mergeVolumeParameters preq) paramRemote = None"
    using assms(3-6) ctx(1,2) by (simp add: mergeVolumeParameters_def map_of_map_copy map_add_def param_names)
  then show ?thesis by (simp add: extractPublishParams_def Let_def)
qed

section \<open>Volume IDs\<close>

lemma append_hash_eq:
  assumes "a @ CHR ''#'' # n = b @ CHR ''#'' # n'" and "CHR ''#'' \<notin> set n" and "CHR ''#'' \<notin> set n'"
  shows "n = n'"
proof -
  have "rev n @ CHR ''#'' # rev a = rev n' @ CHR ''#'' # rev b" using arg_cong [OF assms(1), of rev] by simp
  from first_brace [OF this] have "rev n = rev n'" using assms(2,3) by simp
  then show ?thesis by simp
qed

lemma append_hash_neq: "CHR ''#'' \<notin> set n \<Longrightarrow> n \<noteq> a @ CHR ''#'' # n'"
  by auto

text \<open>
  Volumes of different names have different IDs, with or without a remote in the
  storage class, for names without the separator.
\<close>

theorem volume_ids_distinct:
  assumes "CreateVolume req = Inr vol" and "CreateVolume req' = Inr vol'" and "vol_id vol = vol_id vol'"
    and "CHR ''#'' \<notin> set (cr_name req)" and "CHR ''#'' \<notin> set (cr_name req')"
  shows "cr_name req = cr_name req'"
proof -
  have vol: "vol = created_volume (cr_name req) (cr_parameters req) (scan_params (cr_parameters req))"
    "vol' = created_volume (cr_name req') (cr_parameters req') (scan_params (cr_parameters req'))"
    using assms(1,2) by (auto simp: CreateVolume_def split: if_splits option.splits)
  show ?thesis
    using assms(3) append_hash_eq [OF _ assms(4,5)] append_hash_neq [OF assms(4)] append_hash_neq [OF assms(5)]
    unfolding vol created_volume_def Let_def separator_def
    by (simp split: if_splits) metis+
qed

section \<open>An example\<close>

definition example_class :: smap where
  "example_class = [(''remote'', ''s3''), (''remotePath'', ''bucket/${pvc.metadata.name}''), (''configData'', ''[s3]''),
     (''csi.storage.k8s.io/pvc/name'', ''data'')]"

definition other_case_class :: smap where
  "other_case_class = [(''Remote'', ''s3''), (''configData'', ''[s3]'')]"

definition example_create :: "smap \<Rightarrow> create_req" where
  "example_create ps = \<lparr>cr_name = ''pvc-1'', cr_capabilities = [MountCap [] ''''], cr_parameters = ps\<rparr>"

definition example_publish :: "volume \<Rightarrow> publish_req" where
  "example_publish vol = \<lparr>volumeId = vol_id vol, targetPath = ''/t'', stagingTargetPath = '''',
     volumeCapability = None, readonly = False, secrets = [], volumeContext = vol_context vol\<rparr>"


theorem publish_rejects_other_case_witness:
  "\<exists>vol. CreateVolume (example_create other_case_class) = Inr vol \<and> vol_id vol = ''s3#pvc-1''
     \<and> extractPublishParams (mergeVolumeParameters (example_publish vol))
         = Inl (Status InvalidArgument ''remote is required (provide via volumeAttributes or secrets)'' [])"
proof -
  obtain vol where vol: "CreateVolume (example_create other_case_class) = Inr vol"
    by (simp add: CreateVolume_def example_create_def isValidVolumeCapabilities_def)
  have "(case CreateVolume (example_create other_case_class) of Inl _ \<Rightarrow> False | Inr vol \<Rightarrow> vol_id vol = ''s3#pvc-1'')"
    by code_simp
  then have "vol_id vol = ''s3#pvc-1''" using vol by simp
  moreover have "distinct (keys other_case_class)" "map_of other_case_class paramRemote = None" by code_simp+
  ultimately show ?thesis
    using vol publish_rejects_other_case [OF vol, of "example_publish vol"]
    by (simp add: example_create_def example_publish_def)
qed

theorem volume_ids_distinct_witness:
  "\<not> (\<exists>vol vol'. CreateVolume (example_create example_class) = Inr vol
     \<and> CreateVolume ((example_create other_case_class)\<lparr>cr_name := ''pvc-2''\<rparr>) = Inr vol' \<and> vol_id vol = vol_id vol')"
  using volume_ids_distinct [of "example_create example_class" _ "(example_create other_case_class)\<lparr>cr_name := ''pvc-2''\<rparr>"]
  by (auto simp: example_create_def)

end
