(* ===== verification/Metrics.thy ===== *)
theory Metrics
  imports Complex_Main Node_Publish Go_Paths
begin

text \<open>
  The Prometheus collector of the driver (pkg/rclone/metrics_collector.go): the metrics it
  describes, the VFS statistics it adds up per volume, and what one collection emits. Prometheus
  itself is outside; a channel of metrics is the list of what is sent on it.
\<close>

section \<open>Metrics\<close>

record desc =
  fqName :: string
  labelNames :: "string list"

datatype value_type = GaugeValue | CounterValue

text \<open>A float64: a converted integer, or a value that rclone's accounting holds.\<close>

datatype float64 = OfInt int | OfStats real

record metric =
  m_desc :: desc
  m_type :: value_type
  m_value :: float64
  m_labels :: "string list"

text \<open>\<open>MustNewConstMetric\<close> panics when the labels of the description and the values do not match.\<close>

definition const_metric :: "desc \<Rightarrow> value_type \<Rightarrow> float64 \<Rightarrow> string list \<Rightarrow> metric" where
  "const_metric d t v ls = \<lparr>m_desc = d, m_type = t, m_value = v, m_labels = ls\<rparr>"

definition valid_metric :: "metric \<Rightarrow> bool" where
  "valid_metric m \<longleftrightarrow> length (m_labels m) = length (labelNames (m_desc m))"

definition unknownValue :: string where "unknownValue = ''unknown''"
definition falseValue :: string where "falseValue = ''false''"
definition labelVolumeID :: string where "labelVolumeID = ''volume_id''"
definition labelRemoteName :: string where "labelRemoteName = ''remote_name''"

text \<open>\<open>VersionInfo\<close> of version.go; the metrics show two of its fields.\<close>

record version_info =
  vi_driverName :: string
  vi_driverVersion :: string
  vi_rcloneVersion :: string
  vi_gitCommit :: string
  vi_buildDate :: string
  vi_goVersion :: string
  vi_compiler :: string
  vi_platform :: string

record collector =
  c_nodeID :: string
  c_driverName :: string
  c_endpoint :: string
  c_versionInfo :: version_info
  c_hasNodeServer :: bool
  nodeInfo :: desc
  vfsInUse :: desc
  vfsMetadataCacheDirs :: desc
  vfsMetadataCacheFiles :: desc
  vfsDiskCacheBytesUsed :: desc
  vfsDiskCacheFiles :: desc
  vfsDiskCacheErrors :: desc
  vfsUploadsInProgress :: desc
  vfsUploadsQueued :: desc
  vfsDiskCacheOutOfSpace :: desc
  mountHealthy :: desc
  remoteTransferSpeed :: desc
  remoteTransferEta :: desc
  remoteChecksTotal :: desc
  remoteDeletesTotal :: desc
  remoteServerSideCopies :: desc
  remoteServerSideMoves :: desc
  remoteTransferring :: desc
  remoteChecking :: desc

definition new_desc :: "string \<Rightarrow> string list \<Rightarrow> desc" where
  "new_desc name labels = \<lparr>fqName = ''csi_driver_'' @ name, labelNames = labels\<rparr>"

definition newMetricsCollector :: "string \<Rightarrow> string \<Rightarrow> string \<Rightarrow> version_info \<Rightarrow> bool \<Rightarrow> collector" where
  "newMetricsCollector nodeID driverName endpoint version hasNodeServer =
     (let volume = [labelVolumeID, labelRemoteName] in
      \<lparr>c_nodeID = nodeID, c_driverName = driverName, c_endpoint = endpoint, c_versionInfo = version,
       c_hasNodeServer = hasNodeServer,
       nodeInfo = new_desc ''info'' [''node_id'', ''driver_name'', ''endpoint'', ''rclone_version'', ''driver_version''],
       vfsInUse = new_desc ''vfs_file_handles_in_use'' volume,
       vfsMetadataCacheDirs = new_desc ''vfs_metadata_cache_dirs_total'' volume,
       vfsMetadataCacheFiles = new_desc ''vfs_metadata_cache_files_total'' volume,
       vfsDiskCacheBytesUsed = new_desc ''vfs_disk_cache_bytes_used'' volume,
       vfsDiskCacheFiles = new_desc ''vfs_disk_cache_files_total'' volume,
       vfsDiskCacheErrors = new_desc ''vfs_disk_cache_errored_files_total'' volume,
       vfsUploadsInProgress = new_desc ''vfs_uploads_in_progress_total'' volume,
       vfsUploadsQueued = new_desc ''vfs_uploads_queued_total'' volume,
       vfsDiskCacheOutOfSpace = new_desc ''vfs_disk_cache_out_of_space'' volume,
       mountHealthy = new_desc ''mount_healthy''
         [labelVolumeID, ''pod_id'', ''target_path'', labelRemoteName, ''mount_type'',
          ''device_name'', ''volume_name'', ''read_only'', ''mount_duration_seconds''],
       remoteTransferSpeed = new_desc ''remote_transfer_speed_bytes_per_second'' [],
       remoteTransferEta = new_desc ''remote_transfer_eta_seconds'' [],
       remoteChecksTotal = new_desc ''remote_checks_total'' [],
       remoteDeletesTotal = new_desc ''remote_deletes_total'' [],
       remoteServerSideCopies = new_desc ''remote_server_side_copies_total'' [],
       remoteServerSideMoves = new_desc ''remote_server_side_moves_total'' [],
       remoteTransferring = new_desc ''remote_transferring_files'' [],
       remoteChecking = new_desc ''remote_checking_files'' []\<rparr>)"

definition Describe :: "collector \<Rightarrow> desc list" where
  "Describe c =
     [nodeInfo c, vfsInUse c, vfsMetadataCacheDirs c, vfsMetadataCacheFiles c, vfsDiskCacheBytesUsed c,
      vfsDiskCacheFiles c, vfsDiskCacheErrors c, vfsUploadsInProgress c, vfsUploadsQueued c,
      vfsDiskCacheOutOfSpace c, mountHealthy c, remoteTransferSpeed c, remoteTransferEta c,
      remoteChecksTotal c, remoteDeletesTotal c, remoteServerSideCopies c, remoteServerSideMoves c,
      remoteTransferring c, remoteChecking c]"

section \<open>Labels of a mount\<close>

fun volume_of_parts :: "string list \<Rightarrow> string option" where
  "volume_of_parts [] = None"
| "volume_of_parts (part # parts) =
     (if part = ''kubernetes.io~csi'' \<and> parts \<noteq> [] then Some (hd parts)
      else if part = ''pv'' \<and> 2 \<le> length parts \<and> parts ! 1 = ''globalmount'' then Some (hd parts)
      else volume_of_parts parts)"

text \<open>\<open>strings.Split\<close> never returns the empty slice, so the last component is the fallback.\<close>

definition extractVolumeID :: "string \<Rightarrow> string" where
  "extractVolumeID target =
     (let parts = split_on (CHR ''/'') target in
      case volume_of_parts parts of
        Some v \<Rightarrow> v
      | None \<Rightarrow> if parts \<noteq> [] then last parts else unknownValue)"

fun pod_of_parts :: "string list \<Rightarrow> string option" where
  "pod_of_parts [] = None"
| "pod_of_parts (part # parts) = (if part = ''pods'' \<and> parts \<noteq> [] then Some (hd parts) else pod_of_parts parts)"

definition extractPodID :: "string \<Rightarrow> string" where
  "extractPodID target = (case pod_of_parts (split_on (CHR ''/'') target) of Some v \<Rightarrow> v | None \<Rightarrow> unknownValue)"

definition extractMountType :: "mount_context \<Rightarrow> string" where
  "extractMountType mc = (if mc_mountPoint mc = None then unknownValue else ''mount'')"

definition or_unknown :: "string \<Rightarrow> string" where
  "or_unknown s = (if s = '''' then unknownValue else s)"

definition getDeviceName :: "mount_context \<Rightarrow> string" where
  "getDeviceName mc = (case mc_mountPoint mc of None \<Rightarrow> unknownValue | Some mp \<Rightarrow> or_unknown (mp_deviceName mp))"

definition getVolumeName :: "mount_context \<Rightarrow> string" where
  "getVolumeName mc = (case mc_mountPoint mc of None \<Rightarrow> unknownValue | Some mp \<Rightarrow> or_unknown (mp_volumeName mp))"

definition isReadOnly :: "mount_context \<Rightarrow> string" where
  "isReadOnly mc =
     (case mc_mountPoint mc of None \<Rightarrow> falseValue | Some mp \<Rightarrow> if mp_vfsReadOnly mp then trueValue else falseValue)"

text \<open>\<open>%.0f\<close> of a duration in seconds: rounded to the nearest integer, ties to the even one.\<close>

definition seconds_text :: "int \<Rightarrow> string" where
  "seconds_text ns =
     (let q = ns div 1000000000; r = ns mod 1000000000 in
      int_text (if 2 * r < 1000000000 \<or> (2 * r = 1000000000 \<and> even q) then q else q + 1))"

definition getMountDuration :: "env \<Rightarrow> mount_context \<Rightarrow> (node, string) state" where
  "getMountDuration env mc =
     (case mc_mountPoint mc of
        None \<Rightarrow> State_Monad.return ''0''
      | Some mp \<Rightarrow> do {
          now \<leftarrow> call Now (time_now env);
          State_Monad.return (seconds_text (now - mp_mountedOn mp)) })"

section \<open>Statistics per volume\<close>

record volume_metrics =
  vm_volumeID :: string
  vm_remoteName :: string
  vm_inUse :: int
  vm_metadataCacheDirs :: int
  vm_metadataCacheFiles :: int
  vm_diskCacheBytesUsed :: int
  vm_diskCacheFiles :: int
  vm_diskCacheErrors :: int
  vm_uploadsInProgress :: int
  vm_uploadsQueued :: int
  vm_diskCacheOutOfSpace :: bool

definition no_stats :: "string \<Rightarrow> string \<Rightarrow> volume_metrics" where
  "no_stats volumeID remoteName =
     \<lparr>vm_volumeID = volumeID, vm_remoteName = remoteName, vm_inUse = 0, vm_metadataCacheDirs = 0,
      vm_metadataCacheFiles = 0, vm_diskCacheBytesUsed = 0, vm_diskCacheFiles = 0, vm_diskCacheErrors = 0,
      vm_uploadsInProgress = 0, vm_uploadsQueued = 0, vm_diskCacheOutOfSpace = False\<rparr>"

text \<open>A failed type assertion leaves the sum alone.\<close>

definition or_zero :: "int option \<Rightarrow> int" where
  "or_zero x = (case x of None \<Rightarrow> 0 | Some n \<Rightarrow> n)"

definition aggregateDiskCacheStats :: "vfs_stats \<Rightarrow> volume_metrics \<Rightarrow> volume_metrics" where
  "aggregateDiskCacheStats stats vm =
     (case vs_diskCache stats of
        None \<Rightarrow> vm
      | Some dc \<Rightarrow>
          vm\<lparr>vm_diskCacheBytesUsed := vm_diskCacheBytesUsed vm + or_zero (dc_bytesUsed dc),
             vm_diskCacheFiles := vm_diskCacheFiles vm + or_zero (dc_files dc),
             vm_diskCacheErrors := vm_diskCacheErrors vm + or_zero (dc_erroredFiles dc),
             vm_uploadsInProgress := vm_uploadsInProgress vm + or_zero (dc_uploadsInProgress dc),
             vm_uploadsQueued := vm_uploadsQueued vm + or_zero (dc_uploadsQueued dc),
             vm_diskCacheOutOfSpace := vm_diskCacheOutOfSpace vm \<or> dc_outOfSpace dc = Some True\<rparr>)"

definition aggregateVFSStats :: "vfs_stats \<Rightarrow> volume_metrics \<Rightarrow> volume_metrics" where
  "aggregateVFSStats stats vm =
     aggregateDiskCacheStats stats
       (let vm = vm\<lparr>vm_inUse := vm_inUse vm + or_zero (vs_inUse stats)\<rparr> in
        case vs_metadataCache stats of
          None \<Rightarrow> vm
        | Some (dirs, files) \<Rightarrow>
            vm\<lparr>vm_metadataCacheDirs := vm_metadataCacheDirs vm + or_zero dirs,
               vm_metadataCacheFiles := vm_metadataCacheFiles vm + or_zero files\<rparr>)"

text \<open>One mount; a mount without a VFS is passed over.\<close>

definition aggregate_mount ::
    "env \<Rightarrow> string \<times> mount_context \<Rightarrow> (string \<times> volume_metrics) list \<Rightarrow> (node, (string \<times> volume_metrics) list) state" where
  "aggregate_mount env pm volumeStats =
     (case pm of (target, mc) \<Rightarrow>
        (case mc_mountPoint mc of
           None \<Rightarrow> State_Monad.return volumeStats
         | Some mp \<Rightarrow>
             if \<not> mp_vfs mp then State_Monad.return volumeStats
             else do {
               let volumeID = extractVolumeID target;
               let vm = (case map_of volumeStats volumeID of None \<Rightarrow> no_stats volumeID (mc_remoteName mc) | Some vm \<Rightarrow> vm);
               stats \<leftarrow> call (Rc (VFSStats (mp_id mp))) (\<lambda>h. vfsStats (rc_of env) h (mp_id mp));
               State_Monad.return (AList.update volumeID (aggregateVFSStats stats vm) volumeStats) }))"

fun aggregate_mounts ::
    "env \<Rightarrow> (string \<times> mount_context) list \<Rightarrow> (string \<times> volume_metrics) list \<Rightarrow> (node, (string \<times> volume_metrics) list) state" where
  "aggregate_mounts env [] volumeStats = State_Monad.return volumeStats"
| "aggregate_mounts env (pm # pms) volumeStats = do {
     volumeStats' \<leftarrow> aggregate_mount env pm volumeStats;
     aggregate_mounts env pms volumeStats' }"

definition aggregateVolumeStats :: "env \<Rightarrow> (string \<times> mount_context) list \<Rightarrow> (node, (string \<times> volume_metrics) list) state" where
  "aggregateVolumeStats env mountContexts = aggregate_mounts env mountContexts []"

section \<open>A collection\<close>

definition collectNodeInfo :: "collector \<Rightarrow> metric list" where
  "collectNodeInfo c =
     [const_metric (nodeInfo c) GaugeValue (OfInt 1)
        [c_nodeID c, c_driverName c, c_endpoint c, vi_rcloneVersion (c_versionInfo c), vi_driverVersion (c_versionInfo c)]]"

definition emitSingleVolumeMetrics :: "collector \<Rightarrow> volume_metrics \<Rightarrow> metric list" where
  "emitSingleVolumeMetrics c vs =
     (let labels = [vm_volumeID vs, vm_remoteName vs] in
      [const_metric (vfsInUse c) GaugeValue (OfInt (vm_inUse vs)) labels,
       const_metric (vfsMetadataCacheDirs c) GaugeValue (OfInt (vm_metadataCacheDirs vs)) labels,
       const_metric (vfsMetadataCacheFiles c) GaugeValue (OfInt (vm_metadataCacheFiles vs)) labels,
       const_metric (vfsDiskCacheBytesUsed c) GaugeValue (OfInt (vm_diskCacheBytesUsed vs)) labels,
       const_metric (vfsDiskCacheFiles c) GaugeValue (OfInt (vm_diskCacheFiles vs)) labels,
       const_metric (vfsDiskCacheErrors c) CounterValue (OfInt (vm_diskCacheErrors vs)) labels,
       const_metric (vfsUploadsInProgress c) GaugeValue (OfInt (vm_uploadsInProgress vs)) labels,
       const_metric (vfsUploadsQueued c) GaugeValue (OfInt (vm_uploadsQueued vs)) labels,
       const_metric (vfsDiskCacheOutOfSpace c) GaugeValue (OfInt (if vm_diskCacheOutOfSpace vs then 1 else 0)) labels])"

definition emitVolumeMetrics :: "collector \<Rightarrow> (string \<times> volume_metrics) list \<Rightarrow> metric list" where
  "emitVolumeMetrics c volumeStats = concat (map (\<lambda>(_, vs). emitSingleVolumeMetrics c vs) volumeStats)"

definition mount_health_metric :: "env \<Rightarrow> collector \<Rightarrow> string \<times> mount_context \<Rightarrow> (node, metric list) state" where
  "mount_health_metric env c pm =
     (case pm of (target, mc) \<Rightarrow>
        if mc_mountPoint mc = None then State_Monad.return []
        else do {
          (healthy, msg) \<leftarrow> isMountHealthy env target;
          duration \<leftarrow> getMountDuration env mc;
          State_Monad.return
            [const_metric (mountHealthy c) GaugeValue (OfInt (if healthy then 1 else 0))
               [extractVolumeID target, extractPodID target, target, mc_remoteName mc, extractMountType mc,
                getDeviceName mc, getVolumeName mc, isReadOnly mc, duration]] })"

fun collectMountHealthMetrics :: "env \<Rightarrow> collector \<Rightarrow> (string \<times> mount_context) list \<Rightarrow> (node, metric list) state" where
  "collectMountHealthMetrics env c [] = State_Monad.return []"
| "collectMountHealthMetrics env c (pm # pms) = do {
     ms \<leftarrow> mount_health_metric env c pm;
     more \<leftarrow> collectMountHealthMetrics env c pms;
     State_Monad.return (ms @ more) }"

definition collectVFSMetrics :: "env \<Rightarrow> collector \<Rightarrow> (node, metric list) state" where
  "collectVFSMetrics env c =
     (if \<not> c_hasNodeServer c then State_Monad.return []
      else do {
        mountContexts \<leftarrow> gets mountContext;
        volumeStats \<leftarrow> aggregateVolumeStats env mountContexts;
        health \<leftarrow> collectMountHealthMetrics env c mountContexts;
        State_Monad.return (emitVolumeMetrics c volumeStats @ health) })"

text \<open>
  \<open>accounting.GlobalStats().RemoteStats\<close>: an entry is \<open>None\<close> when it is missing or of another type;
  for the two lists their length.
\<close>

record remote_stats =
  rs_speed :: "real option"
  rs_eta :: "real option"
  rs_checks :: "int option"
  rs_deletes :: "int option"
  rs_serverSideCopies :: "int option"
  rs_serverSideMoves :: "int option"
  rs_transferring :: "nat option"
  rs_checking :: "nat option"

definition emit_if :: "desc \<Rightarrow> value_type \<Rightarrow> float64 option \<Rightarrow> metric list" where
  "emit_if d t v = (case v of None \<Rightarrow> [] | Some x \<Rightarrow> [const_metric d t x []])"

definition emitTransferMetrics :: "collector \<Rightarrow> remote_stats \<Rightarrow> metric list" where
  "emitTransferMetrics c rs =
     emit_if (remoteTransferSpeed c) GaugeValue (map_option OfStats (rs_speed rs))
     @ emit_if (remoteTransferEta c) GaugeValue (map_option OfStats (rs_eta rs))"

definition emitOperationMetrics :: "collector \<Rightarrow> remote_stats \<Rightarrow> metric list" where
  "emitOperationMetrics c rs =
     emit_if (remoteChecksTotal c) CounterValue (map_option OfInt (rs_checks rs))
     @ emit_if (remoteDeletesTotal c) CounterValue (map_option OfInt (rs_deletes rs))
     @ emit_if (remoteServerSideCopies c) CounterValue (map_option OfInt (rs_serverSideCopies rs))
     @ emit_if (remoteServerSideMoves c) CounterValue (map_option OfInt (rs_serverSideMoves rs))
     @ emit_if (remoteTransferring c) GaugeValue (map_option (OfInt \<circ> int) (rs_transferring rs))
     @ emit_if (remoteChecking c) GaugeValue (map_option (OfInt \<circ> int) (rs_checking rs))"

definition collectRemoteStats :: "collector \<Rightarrow> remote_stats option \<Rightarrow> metric list" where
  "collectRemoteStats c stats = (case stats of None \<Rightarrow> [] | Some rs \<Rightarrow> emitTransferMetrics c rs @ emitOperationMetrics c rs)"

definition Collect :: "env \<Rightarrow> collector \<Rightarrow> (history \<Rightarrow> remote_stats option) \<Rightarrow> (node, metric list) state" where
  "Collect env c remoteStats = do {
     vfs \<leftarrow> collectVFSMetrics env c;
     h \<leftarrow> gets trace;
     State_Monad.return (collectNodeInfo c @ vfs @ collectRemoteStats c (remoteStats h)) }"

section \<open>What a collection emits\<close>

text \<open>The keys of the aggregated statistics are their volume IDs.\<close>

definition keyed :: "(string \<times> volume_metrics) list \<Rightarrow> bool" where
  "keyed volumeStats \<longleftrightarrow> distinct (keys volumeStats) \<and> list_all (\<lambda>(v, vm). vm_volumeID vm = v) volumeStats"

lemma aggregate_volumeID [simp]: "vm_volumeID (aggregateVFSStats stats vm) = vm_volumeID vm"
  by (auto simp: aggregateVFSStats_def aggregateDiskCacheStats_def Let_def split: option.split prod.split)

lemma keyed_update:
  assumes "keyed volumeStats" and "vm_volumeID vm = v"
  shows "keyed (AList.update v vm volumeStats)"
proof -
  have "list_all (\<lambda>(v, vm). vm_volumeID vm = v) (AList.update v vm volumeStats)"
    if "list_all (\<lambda>(v, vm). vm_volumeID vm = v) volumeStats"
    using that assms(2) by (induction volumeStats) auto
  then show ?thesis using assms(1) by (simp add: keyed_def distinct_update)
qed

lemma keyed_at: "keyed volumeStats \<Longrightarrow> map_of volumeStats v = Some vm \<Longrightarrow> vm_volumeID vm = v"
  by (auto simp: keyed_def list_all_iff dest: map_of_SomeD)

lemma wp_aggregate_keyed: "keyed volumeStats \<Longrightarrow> wp (aggregate_mount env pm volumeStats) (\<lambda>r _. keyed r) s"
  by (auto simp: aggregate_mount_def wp Let_def no_stats_def intro!: keyed_update dest: keyed_at
      split: prod.split option.split)

lemma wp_aggregate_mounts_keyed: "keyed volumeStats \<Longrightarrow> wp (aggregate_mounts env pms volumeStats) (\<lambda>r _. keyed r) s"
proof (induction pms arbitrary: volumeStats s)
  case (Cons pm pms)
  show ?case
    unfolding aggregate_mounts.simps wp_bind
    by (rule wp_mono [OF wp_aggregate_keyed [OF Cons.prems] Cons.IH])
qed (simp add: wp)

lemma keeps_aggregate [frame]: "off_world p \<Longrightarrow> keeps p (aggregateVolumeStats env pms)"
proof -
  assume p: "off_world p"
  have "keeps p (aggregate_mounts env pms vs)" for vs
    using p by (induction pms arbitrary: vs) (auto simp: aggregate_mount_def Let_def intro!: frame)
  then show ?thesis by (simp add: aggregateVolumeStats_def)
qed

text \<open>A series is a description with its label values.\<close>

definition series :: "metric \<Rightarrow> desc \<times> string list" where
  "series m = (m_desc m, m_labels m)"

definition described :: "collector \<Rightarrow> metric \<Rightarrow> bool" where
  "described c m \<longleftrightarrow> m_desc m \<in> set (Describe c) \<and> valid_metric m"

abbreviation volume_descs :: "collector \<Rightarrow> desc list" where
  "volume_descs c \<equiv> take 9 (tl (Describe c))"

abbreviation remote_descs :: "collector \<Rightarrow> desc list" where
  "remote_descs c \<equiv> drop 11 (Describe c)"

lemma series_volume:
  "map series (emitSingleVolumeMetrics c vs) = map (\<lambda>d. (d, [vm_volumeID vs, vm_remoteName vs])) (volume_descs c)"
  by (simp add: emitSingleVolumeMetrics_def Describe_def series_def const_metric_def Let_def)

lemma wp_collectMountHealthMetrics:
  "wp (collectMountHealthMetrics env c pms)
     (\<lambda>ms _. list_all (\<lambda>m. m_desc m = mountHealthy c \<and> length (m_labels m) = 9) ms
        \<and> subseq (map (\<lambda>m. m_labels m ! 2) ms) (keys pms)) s"
proof (induction pms arbitrary: s)
  case (Cons pm pms)
  have one: "wp (mount_health_metric env c pm) (\<lambda>ms _. ms = [] \<or> (\<exists>m. ms = [m] \<and> m_desc m = mountHealthy c
      \<and> length (m_labels m) = 9 \<and> m_labels m ! 2 = fst pm)) s"
    by (auto simp: mount_health_metric_def wp const_metric_def wp_fst split: prod.split intro!: wpI)
  show ?case
    unfolding collectMountHealthMetrics.simps wp_bind
    by (rule wp_mono [OF one], rule wp_mono [OF Cons.IH]) (auto simp: wp)
qed (simp add: wp)

lemma series_remote:
  "subseq (map series (collectRemoteStats c stats)) (map (\<lambda>d. (d, [])) (remote_descs c))"
proof (cases stats)
  case (Some rs)
  have one: "subseq (map series (emit_if d t v)) [(d, [])]" for d t v
    by (cases v) (simp_all add: emit_if_def series_def const_metric_def)
  have "subseq (map series (collectRemoteStats c stats))
      ([(remoteTransferSpeed c, [])] @ [(remoteTransferEta c, [])] @ [(remoteChecksTotal c, [])] @ [(remoteDeletesTotal c, [])]
       @ [(remoteServerSideCopies c, [])] @ [(remoteServerSideMoves c, [])] @ [(remoteTransferring c, [])] @ [(remoteChecking c, [])])"
    unfolding Some collectRemoteStats_def emitTransferMetrics_def emitOperationMetrics_def option.case map_append append_assoc
    by (intro list_emb_append_mono one)
  then show ?thesis by (simp add: Describe_def)
qed (simp add: collectRemoteStats_def)

lemma single_series:
  assumes "m \<in> set (emitSingleVolumeMetrics c vs)"
  shows "\<exists>d. series m = (d, [vm_volumeID vs, vm_remoteName vs]) \<and> d \<in> set (volume_descs c)"
proof -
  have "series m \<in> set (map series (emitSingleVolumeMetrics c vs))" using assms by simp
  then show ?thesis unfolding series_volume set_map by blast
qed

lemma emitVolumeMetrics_series:
  assumes "keyed volumeStats"
  shows "m \<in> set (emitVolumeMetrics c volumeStats) \<Longrightarrow>
      \<exists>d v r. series m = (d, [v, r]) \<and> d \<in> set (volume_descs c)"
    and "distinct (volume_descs c) \<Longrightarrow> distinct (map series (emitVolumeMetrics c volumeStats))"
proof -
  assume "m \<in> set (emitVolumeMetrics c volumeStats)"
  then obtain v vs where "m \<in> set (emitSingleVolumeMetrics c vs)" by (auto simp: emitVolumeMetrics_def)
  then show "\<exists>d v r. series m = (d, [v, r]) \<and> d \<in> set (volume_descs c)" using single_series by blast
next
  show "distinct (map series (emitVolumeMetrics c volumeStats))" if descs: "distinct (volume_descs c)"
    using assms
  proof (induction volumeStats)
    case (Cons kv volumeStats)
    obtain v vs where kv: "kv = (v, vs)" by fastforce
    have "keyed volumeStats" "vm_volumeID vs = v" using Cons.prems by (auto simp: keyed_def kv)
    have "v \<notin> set (keys volumeStats)" using Cons.prems by (auto simp: keyed_def kv)
    then have "v \<noteq> vm_volumeID vs'" if "(v', vs') \<in> set volumeStats" for v' vs'
      using Cons.prems that by (force simp: keyed_def list_all_iff)
    then have "set (map series (emitSingleVolumeMetrics c vs)) \<inter> set (map series (emitVolumeMetrics c volumeStats)) = {}"
      using \<open>vm_volumeID vs = v\<close> by (force simp: emitVolumeMetrics_def dest!: single_series)
    moreover have "distinct (map series (emitSingleVolumeMetrics c vs))"
      using descs unfolding series_volume by (simp add: distinct_map inj_on_def)
    ultimately show ?case
      using Cons.IH \<open>keyed volumeStats\<close> by (simp add: emitVolumeMetrics_def kv)
  qed (simp add: emitVolumeMetrics_def)
qed

lemma subseq_set: "subseq xs ys \<Longrightarrow> set xs \<subseteq> set ys"
  by (induction rule: list_emb.induct) auto

lemma subseq_distinct: "subseq xs ys \<Longrightarrow> distinct ys \<Longrightarrow> distinct xs"
  by (induction rule: list_emb.induct) (auto dest: subseq_set)

lemma distinct_map_by: "distinct (map (\<lambda>m. g (f m)) xs) \<Longrightarrow> distinct (map f xs)"
  by (metis (mono_tags, lifting) distinct_map inj_on_def)

definition new_collector :: "collector \<Rightarrow> bool" where
  "new_collector c \<longleftrightarrow> (\<exists>nodeID name ep version has. c = newMetricsCollector nodeID name ep version has)"

lemma new_descs:
  assumes "new_collector c"
  shows "distinct (Describe c)" and "list_all (\<lambda>d. length (labelNames d) = 2) (volume_descs c)"
    and "length (labelNames (nodeInfo c)) = 5" and "length (labelNames (mountHealthy c)) = 9"
    and "list_all (\<lambda>d. labelNames d = []) (remote_descs c)"
proof -
  obtain nodeID name ep version has where c: "c = newMetricsCollector nodeID name ep version has"
    using assms by (auto simp: new_collector_def)
  have "map fqName (Describe c) = map ((@) ''csi_driver_'') [''info'', ''vfs_file_handles_in_use'',
    ''vfs_metadata_cache_dirs_total'', ''vfs_metadata_cache_files_total'', ''vfs_disk_cache_bytes_used'',
    ''vfs_disk_cache_files_total'', ''vfs_disk_cache_errored_files_total'', ''vfs_uploads_in_progress_total'',
    ''vfs_uploads_queued_total'', ''vfs_disk_cache_out_of_space'', ''mount_healthy'', ''remote_transfer_speed_bytes_per_second'',
    ''remote_transfer_eta_seconds'', ''remote_checks_total'', ''remote_deletes_total'', ''remote_server_side_copies_total'',
    ''remote_server_side_moves_total'', ''remote_transferring_files'', ''remote_checking_files'']"
    by (simp add: c Describe_def newMetricsCollector_def new_desc_def Let_def)
  moreover have "distinct \<dots>" by code_simp
  ultimately show "distinct (Describe c)" by (metis distinct_map)
  show "list_all (\<lambda>d. length (labelNames d) = 2) (volume_descs c)"
    "length (labelNames (nodeInfo c)) = 5" "length (labelNames (mountHealthy c)) = 9"
    "list_all (\<lambda>d. labelNames d = []) (remote_descs c)"
    by (simp_all add: c Describe_def newMetricsCollector_def new_desc_def Let_def)
qed

lemma Describe_split: "Describe c = [nodeInfo c] @ volume_descs c @ [mountHealthy c] @ remote_descs c"
  by (simp add: Describe_def)

lemma Describe_parts: "d \<in> set (volume_descs c) \<Longrightarrow> d \<in> set (Describe c)" "d \<in> set (remote_descs c) \<Longrightarrow> d \<in> set (Describe c)"
  by (subst Describe_split, simp)+

text \<open>The metrics of one collection: the node, the volumes, the mounts, the remotes.\<close>

definition collected :: "collector \<Rightarrow> string list \<Rightarrow> metric list \<Rightarrow> bool" where
  "collected c targets ms \<longleftrightarrow> (\<exists>volumeStats health stats.
     ms = collectNodeInfo c @ emitVolumeMetrics c volumeStats @ health @ collectRemoteStats c stats
     \<and> keyed volumeStats \<and> list_all (\<lambda>m. m_desc m = mountHealthy c \<and> length (m_labels m) = 9) health
     \<and> subseq (map (\<lambda>m. m_labels m ! 2) health) targets)"

lemma wp_Collect: "wp (Collect env c stats) (\<lambda>ms _. collected c (keys (mountContext s)) ms) s"
proof -
  have none: "collected c targets (collectNodeInfo c @ collectRemoteStats c st)" for targets st
    unfolding collected_def
    by (intro exI [of _ "[]"] exI [of _ st]) (simp add: keyed_def emitVolumeMetrics_def)
  have some: "collected c targets (collectNodeInfo c @ (emitVolumeMetrics c vs @ health) @ collectRemoteStats c st)"
    if "keyed vs" "list_all (\<lambda>m. m_desc m = mountHealthy c \<and> length (m_labels m) = 9) health
        \<and> subseq (map (\<lambda>m. m_labels m ! 2) health) targets" for vs health targets st
    unfolding collected_def
    using that by (intro exI [of _ vs] exI [of _ health] exI [of _ st]) simp
  show ?thesis
  proof (cases "c_hasNodeServer c")
    case True
    show ?thesis
      unfolding Collect_def collectVFSMetrics_def wp aggregateVolumeStats_def using True
      by (simp add: wp)
        (rule wp_mono [OF wp_aggregate_mounts_keyed], simp add: keyed_def,
         rule wp_mono [OF wp_collectMountHealthMetrics], simp add: wp some [simplified])
  next
    case False
    then show ?thesis using none by (simp add: Collect_def collectVFSMetrics_def wp)
  qed
qed

lemma collected_described:
  assumes "new_collector c" and "collected c targets ms"
  shows "list_all (described c) ms"
proof -
  note descs = new_descs [OF assms(1)]
  have series: "described c m" if "series m = (d, ls)" "d \<in> set (Describe c)" "length ls = length (labelNames d)" for m d ls
    using that by (auto simp: described_def series_def valid_metric_def)
  obtain volumeStats health stats where ms:
    "ms = collectNodeInfo c @ emitVolumeMetrics c volumeStats @ health @ collectRemoteStats c stats"
    and keyed: "keyed volumeStats"
    and health: "list_all (\<lambda>m. m_desc m = mountHealthy c \<and> length (m_labels m) = 9) health"
    using assms(2) by (auto simp: collected_def)
  have "list_all (described c) (collectNodeInfo c)"
    using descs(3) by (simp add: collectNodeInfo_def described_def const_metric_def valid_metric_def Describe_def)
  moreover have "described c m" if m: "m \<in> set (emitVolumeMetrics c volumeStats)" for m
  proof -
    obtain d v r where sv: "series m = (d, [v, r])" and d: "d \<in> set (volume_descs c)"
      using emitVolumeMetrics_series(1) [OF keyed m] by blast
    show ?thesis
      by (rule series [OF sv Describe_parts(1) [OF d]]) (use descs(2) d in \<open>auto simp: list_all_iff\<close>)
  qed
  moreover have "list_all (described c) health"
    using health descs(4) by (auto simp: list_all_iff described_def valid_metric_def Describe_def)
  moreover have "described c m" if m: "m \<in> set (collectRemoteStats c stats)" for m
  proof -
    obtain d where sv: "series m = (d, [])" and d: "d \<in> set (remote_descs c)"
      using subseq_set [OF series_remote [of c stats]] imageI [OF m, of series] unfolding set_map by blast
    show ?thesis
      by (rule series [OF sv Describe_parts(2) [OF d]]) (use descs(5) d in \<open>auto simp: list_all_iff\<close>)
  qed
  ultimately show ?thesis by (auto simp: ms list_all_iff)
qed

lemma collected_distinct:
  assumes "new_collector c" and "collected c targets ms" and "distinct targets"
  shows "distinct (map series ms)"
proof -
  note descs = new_descs [OF assms(1)]
  obtain volumeStats health stats where ms:
    "ms = collectNodeInfo c @ emitVolumeMetrics c volumeStats @ health @ collectRemoteStats c stats"
    and keyed: "keyed volumeStats"
    and health: "list_all (\<lambda>m. m_desc m = mountHealthy c \<and> length (m_labels m) = 9) health"
      "subseq (map (\<lambda>m. m_labels m ! 2) health) targets"
    using assms(2) by (auto simp: collected_def)
  let ?d = "\<lambda>ms. fst ` set (map series ms)"
  have d: "?d (collectNodeInfo c) = {nodeInfo c}" "?d (emitVolumeMetrics c volumeStats) \<subseteq> set (volume_descs c)"
    "?d health \<subseteq> {mountHealthy c}" "?d (collectRemoteStats c stats) \<subseteq> set (remote_descs c)"
  proof -
    show "?d (collectNodeInfo c) = {nodeInfo c}" by (simp add: collectNodeInfo_def series_def const_metric_def)
    show "?d (emitVolumeMetrics c volumeStats) \<subseteq> set (volume_descs c)"
      using emitVolumeMetrics_series(1) [OF keyed] by fastforce
    show "?d health \<subseteq> {mountHealthy c}" using health(1) by (auto simp: list_all_iff series_def)
    show "?d (collectRemoteStats c stats) \<subseteq> set (remote_descs c)"
      using subseq_set [OF series_remote [of c stats]] by fastforce
  qed
  have apart: "distinct ([nodeInfo c] @ volume_descs c @ [mountHealthy c] @ remote_descs c)"
    using descs(1) by (simp only: Describe_split [of c, symmetric])
  have "distinct (map (\<lambda>m. snd (series m) ! 2) health)"
    using subseq_distinct [OF health(2) assms(3)] by (simp add: series_def)
  then have "distinct (map series health)" by (rule distinct_map_by)
  moreover have "distinct (map series (emitVolumeMetrics c volumeStats))"
    using apart by (intro emitVolumeMetrics_series(2) [OF keyed]) simp
  moreover have "distinct (map series (collectRemoteStats c stats))"
    using apart by (intro subseq_distinct [OF series_remote]) (simp add: distinct_map inj_on_def)
  moreover have "distinct (map series (collectNodeInfo c))" by (simp add: collectNodeInfo_def)
  moreover have ap: "nodeInfo c \<notin> set (volume_descs c)" "nodeInfo c \<noteq> mountHealthy c" "nodeInfo c \<notin> set (remote_descs c)"
    "mountHealthy c \<notin> set (volume_descs c)" "set (volume_descs c) \<inter> set (remote_descs c) = {}" "mountHealthy c \<notin> set (remote_descs c)"
    using apart by auto
  have disjoint: "set (map series a) \<inter> set (map series b) = {}" if "?d a \<subseteq> A" "?d b \<subseteq> B" "A \<inter> B = {}" for a b A B
    using that by blast
  have "set (map series (collectNodeInfo c)) \<inter> set (map series (emitVolumeMetrics c volumeStats)) = {}"
    "set (map series (collectNodeInfo c)) \<inter> set (map series health) = {}"
    "set (map series (collectNodeInfo c)) \<inter> set (map series (collectRemoteStats c stats)) = {}"
    "set (map series (emitVolumeMetrics c volumeStats)) \<inter> set (map series health) = {}"
    "set (map series (emitVolumeMetrics c volumeStats)) \<inter> set (map series (collectRemoteStats c stats)) = {}"
    "set (map series health) \<inter> set (map series (collectRemoteStats c stats)) = {}"
    using disjoint [OF equalityD1 [OF d(1)] d(2)] disjoint [OF equalityD1 [OF d(1)] d(3)] disjoint [OF equalityD1 [OF d(1)] d(4)]
      disjoint [OF d(2,3)] disjoint [OF d(2,4)] disjoint [OF d(3,4)] ap by (simp_all del: set_map)
  ultimately show ?thesis
    unfolding ms map_append distinct_append set_append by blast
qed

text \<open>
  Property C40: a collection of the driver's own collector never panics and never sends Prometheus a
  metric it has not described: every metric has as many label values as its description has
  labels, and its description is one of \<open>Describe\<close>.
\<close>

theorem Collect_described:
  "list_all (described (newMetricsCollector nodeID name ep version has))
     (fst (run_state (Collect env (newMetricsCollector nodeID name ep version has) stats) s))"
proof -
  let ?c = "newMetricsCollector nodeID name ep version has"
  have "new_collector ?c" unfolding new_collector_def by blast
  from collected_described [OF this] show ?thesis
    using wp_Collect [of env ?c stats s] unfolding wp_fst by blast
qed

text \<open>
  Property C35: one collection sends no series twice, which Prometheus would reject together with
  everything else: no two of its metrics have the same name and label values.
\<close>

theorem Collect_no_duplicates:
  assumes "distinct (keys (mountContext s))"
  shows "distinct (map series (fst (run_state (Collect env (newMetricsCollector nodeID name ep version has) stats) s)))"
proof -
  let ?c = "newMetricsCollector nodeID name ep version has"
  have "new_collector ?c" unfolding new_collector_def by blast
  from collected_distinct [OF this _ assms] show ?thesis
    using wp_Collect [of env ?c stats s] unfolding wp_fst by blast
qed

definition example_mount :: "nat \<Rightarrow> mount_context" where
  "example_mount i = \<lparr>mc_mountPoint = Some \<lparr>mp_id = i, mp_vfs = True, mp_deviceName = ''s3:b'', mp_volumeName = '''',
     mp_vfsReadOnly = False, mp_mountedOn = 0\<rparr>, mc_remoteName = ''s3'', mc_remotes = [], mc_cancel = [], mc_ctx = None\<rparr>"

definition example_mounts :: "(string \<times> mount_context) list" where
  "example_mounts = [(''/k/pods/u1/volumes/kubernetes.io~csi/v/mount'', example_mount 1),
     (''/k/pods/u1/volumes/kubernetes.io~csi/w/mount'', example_mount 5), (''/k/pods/u2/volumes/kubernetes.io~csi/v/mount'', example_mount 2)]"

definition example_version :: version_info where
  "example_version = \<lparr>vi_driverName = ''d'', vi_driverVersion = ''1'', vi_rcloneVersion = ''2'', vi_gitCommit = ''c'',
     vi_buildDate = ''today'', vi_goVersion = ''go1.25'', vi_compiler = ''gc'', vi_platform = ''linux/amd64''\<rparr>"

theorem Collect_no_duplicates_witness:
  "let s = initial_node\<lparr>mountContext := example_mounts\<rparr>
   in distinct (map series (fst (run_state (Collect example_env
        (newMetricsCollector ''n'' ''d'' ''e'' example_version True) (\<lambda>h. None)) s)))"
  unfolding Let_def by (rule Collect_no_duplicates) (simp add: example_mounts_def)

section \<open>The sums per volume\<close>

text \<open>The statistics of the mounts of a volume, when each VFS answers with its own.\<close>

fun vfs_of :: "(nat \<Rightarrow> vfs_stats) \<Rightarrow> string \<Rightarrow> (string \<times> mount_context) list \<Rightarrow> vfs_stats list" where
  "vfs_of f v [] = []"
| "vfs_of f v ((target, mc) # pms) =
     (case mc_mountPoint mc of
        Some mp \<Rightarrow> if mp_vfs mp \<and> extractVolumeID target = v then f (mp_id mp) # vfs_of f v pms else vfs_of f v pms
      | None \<Rightarrow> vfs_of f v pms)"

definition sum_of :: "(vfs_stats \<Rightarrow> int option) \<Rightarrow> vfs_stats list \<Rightarrow> int" where
  "sum_of g ss = sum_list (map (or_zero \<circ> g) ss)"

abbreviation cache_field :: "(disk_cache \<Rightarrow> int option) \<Rightarrow> vfs_stats \<Rightarrow> int option" where
  "cache_field g st \<equiv> Option.bind (vs_diskCache st) g"

definition totals :: "string \<Rightarrow> string \<Rightarrow> vfs_stats list \<Rightarrow> volume_metrics" where
  "totals v name ss =
     \<lparr>vm_volumeID = v, vm_remoteName = name, vm_inUse = sum_of vs_inUse ss,
      vm_metadataCacheDirs = sum_of (\<lambda>st. Option.bind (vs_metadataCache st) fst) ss,
      vm_metadataCacheFiles = sum_of (\<lambda>st. Option.bind (vs_metadataCache st) snd) ss,
      vm_diskCacheBytesUsed = sum_of (cache_field dc_bytesUsed) ss, vm_diskCacheFiles = sum_of (cache_field dc_files) ss,
      vm_diskCacheErrors = sum_of (cache_field dc_erroredFiles) ss,
      vm_uploadsInProgress = sum_of (cache_field dc_uploadsInProgress) ss,
      vm_uploadsQueued = sum_of (cache_field dc_uploadsQueued) ss,
      vm_diskCacheOutOfSpace = list_ex (\<lambda>st. \<exists>dc. vs_diskCache st = Some dc \<and> dc_outOfSpace dc = Some True) ss\<rparr>"

lemma sum_of_simps [simp]: "sum_of g [] = 0" "sum_of g (ss @ [st]) = sum_of g ss + or_zero (g st)"
  by (simp_all add: sum_of_def)

lemma or_zero_simps [simp]: "or_zero None = 0" "or_zero (Some n) = n"
  by (simp_all add: or_zero_def)

lemma aggregate_totals: "aggregateVFSStats st (totals v name ss) = totals v name (ss @ [st])"
  by (cases "vs_metadataCache st"; cases "vs_diskCache st")
    (auto simp: aggregateVFSStats_def aggregateDiskCacheStats_def totals_def Let_def)

lemma totals_Nil: "no_stats v name = totals v name []"
  by (simp add: no_stats_def totals_def)

text \<open>The loop extends the totals of what it has passed over.\<close>

definition totalled :: "(nat \<Rightarrow> vfs_stats) \<Rightarrow> (string \<times> mount_context) list \<Rightarrow> (string \<times> volume_metrics) list \<Rightarrow> bool" where
  "totalled f pms volumeStats \<longleftrightarrow>
     (\<forall>v. case map_of volumeStats v of
            None \<Rightarrow> vfs_of f v pms = []
          | Some vm \<Rightarrow> vfs_of f v pms \<noteq> [] \<and> (\<exists>name \<in> mc_remoteName ` snd ` set pms. vm = totals v name (vfs_of f v pms)))"

lemma vfs_of_append: "vfs_of f v (pms @ qms) = vfs_of f v pms @ vfs_of f v qms"
  by (induction pms) (auto split: option.split)

lemma wp_aggregate_totalled:
  assumes "\<And>h i. vfsStats (rc_of env) h i = f i" and "totalled f pms volumeStats"
  shows "wp (aggregate_mount env pm volumeStats) (\<lambda>r _. totalled f (pms @ [pm]) r) s"
proof -
  obtain target mc where pm: "pm = (target, mc)" by fastforce
  show ?thesis
  proof (cases "\<exists>mp. mc_mountPoint mc = Some mp \<and> mp_vfs mp")
    case True
    then obtain mp where mp: "mc_mountPoint mc = Some mp" "mp_vfs mp" by blast
    let ?v = "extractVolumeID target"
    let ?vm = "case map_of volumeStats ?v of None \<Rightarrow> no_stats ?v (mc_remoteName mc) | Some vm \<Rightarrow> vm"
    obtain name where vm: "?vm = totals ?v name (vfs_of f ?v pms)" "name \<in> mc_remoteName ` snd ` set (pms @ [pm])"
    proof (cases "map_of volumeStats ?v")
      case None
      then have "vfs_of f ?v pms = []" using spec [OF assms(2) [unfolded totalled_def], of ?v] by simp
      then show thesis using that [of "mc_remoteName mc"] None by (simp add: totals_Nil pm)
    next
      case (Some vm)
      then obtain name where "name \<in> mc_remoteName ` snd ` set pms" "vm = totals ?v name (vfs_of f ?v pms)"
        using spec [OF assms(2) [unfolded totalled_def], of ?v] by auto
      then show thesis using that [of name] Some by simp
    qed
    have "totalled f (pms @ [pm]) (AList.update ?v (aggregateVFSStats (f (mp_id mp)) ?vm) volumeStats)"
      unfolding vm(1) aggregate_totals totalled_def
    proof (intro allI)
      fix v
      show "case map_of (AList.update ?v (totals ?v name (vfs_of f ?v pms @ [f (mp_id mp)])) volumeStats) v of
          None \<Rightarrow> vfs_of f v (pms @ [pm]) = []
        | Some vm \<Rightarrow> vfs_of f v (pms @ [pm]) \<noteq> []
            \<and> (\<exists>name \<in> mc_remoteName ` snd ` set (pms @ [pm]). vm = totals v name (vfs_of f v (pms @ [pm])))"
      proof (cases "v = ?v")
        case True
        then show ?thesis using vm(2) mp by (auto simp: vfs_of_append pm)
      next
        case False
        then show ?thesis
          using spec [OF assms(2) [unfolded totalled_def], of v] mp by (auto simp: vfs_of_append pm split: option.splits)
      qed
    qed
    then show ?thesis by (simp add: aggregate_mount_def pm mp wp Let_def assms(1))
  next
    case False
    then have none: "vfs_of f v (pms @ [pm]) = vfs_of f v pms" for v by (auto simp: vfs_of_append pm split: option.split)
    have "totalled f (pms @ [pm]) volumeStats"
      unfolding totalled_def none
    proof (intro allI)
      fix v
      show "case map_of volumeStats v of None \<Rightarrow> vfs_of f v pms = []
        | Some vm \<Rightarrow> vfs_of f v pms \<noteq> [] \<and> (\<exists>name \<in> mc_remoteName ` snd ` set (pms @ [pm]). vm = totals v name (vfs_of f v pms))"
        using spec [OF assms(2) [unfolded totalled_def], of v] by (auto split: option.splits)
    qed
    then show ?thesis using False by (auto simp: aggregate_mount_def pm wp split: option.split)
  qed
qed

lemma wp_aggregate_mounts_totalled:
  assumes "\<And>h i. vfsStats (rc_of env) h i = f i" and "totalled f pms volumeStats"
  shows "wp (aggregate_mounts env qms volumeStats) (\<lambda>r _. totalled f (pms @ qms) r) s"
  using assms(2)
proof (induction qms arbitrary: pms volumeStats s)
  case (Cons pm qms)
  show ?case
    unfolding aggregate_mounts.simps wp_bind
    by (rule wp_mono [OF wp_aggregate_totalled [OF assms(1) Cons.prems]]) (use Cons.IH in fastforce)
qed (simp add: wp)

text \<open>
  The statistics of a volume are the sums over its mounts, in whatever order the
  mounts are visited: a volume has statistics exactly when one of its mounts has a VFS, every
  counter is the sum of what the VFSs of its mounts report, and its cache is out of space when
  that of one of them is. The remote is that of one of the mounts.
\<close>

theorem aggregateVolumeStats_sums:
  assumes "\<And>h i. vfsStats (rc_of env) h i = f i"
  shows "\<exists>volumeStats s'. run_state (aggregateVolumeStats env mounts) s = (volumeStats, s') \<and>
     (\<forall>v. if vfs_of f v mounts = [] then map_of volumeStats v = None
          else (\<exists>name \<in> mc_remoteName ` snd ` set mounts. map_of volumeStats v = Some (totals v name (vfs_of f v mounts))))"
proof -
  obtain r s' where run: "run_state (aggregateVolumeStats env mounts) s = (r, s')" by fastforce
  have "totalled f [] []" by (simp add: totalled_def)
  from wp_aggregate_mounts_totalled [OF assms this, of mounts s] have "totalled f mounts r"
    using run by (simp add: aggregateVolumeStats_def wp_run)
  then have "if vfs_of f v mounts = [] then map_of r v = None
      else (\<exists>name \<in> mc_remoteName ` snd ` set mounts. map_of r v = Some (totals v name (vfs_of f v mounts)))" for v
    by (cases "map_of r v") (auto simp: totalled_def dest: spec [of _ v])
  with run show ?thesis by blast
qed

definition example_stats :: "nat \<Rightarrow> vfs_stats" where
  "example_stats i = \<lparr>vs_inUse = Some (int i), vs_metadataCache = None, vs_diskCache = None, vs_errors = None\<rparr>"

theorem aggregateVolumeStats_sums_witness:
  "\<exists>volumeStats s' vm. run_state (aggregateVolumeStats (example_env\<lparr>rc_of := example_rclone\<lparr>vfsStats := (\<lambda>h. example_stats)\<rparr>\<rparr>) example_mounts) initial_node
     = (volumeStats, s') \<and> map_of volumeStats ''v'' = Some vm \<and> vm_inUse vm = 3"
proof -
  let ?env = "example_env\<lparr>rc_of := example_rclone\<lparr>vfsStats := (\<lambda>h. example_stats)\<rparr>\<rparr>"
  have "vfsStats (rc_of ?env) h i = example_stats i" for h i by simp
  from aggregateVolumeStats_sums [OF this] obtain volumeStats s' where
    run: "run_state (aggregateVolumeStats ?env example_mounts) initial_node = (volumeStats, s')" and
    sums: "\<And>v. if vfs_of example_stats v example_mounts = [] then map_of volumeStats v = None
      else (\<exists>name \<in> mc_remoteName ` snd ` set example_mounts. map_of volumeStats v = Some (totals v name (vfs_of example_stats v example_mounts)))"
    by blast
  have "vfs_of example_stats ''v'' example_mounts = [example_stats 1, example_stats 2]" by code_simp
  then obtain name where "map_of volumeStats ''v'' = Some (totals ''v'' name [example_stats 1, example_stats 2])"
    using sums [of "''v''"] by auto
  with run show ?thesis by (auto simp: totals_def sum_of_def example_stats_def)
qed

end
