(* ===== verification/Publish_Binds.thy ===== *)
theory Publish_Binds
  imports Node_Stage Op_Scan Metrics
begin

text \<open>
  Refreshing the binds of a staged volume (pkg/rclone/staging.go, refreshPublishBindsForVolume and
  what it calls): the walk over kubelet's publish paths that rebinds those which still point at a
  staging mount, without ever looking into a mount of its own.
\<close>

section \<open>Paths and the mount table\<close>

definition kubeletPodsDir :: string where "kubeletPodsDir = ''/var/lib/kubelet/pods''"
definition csiPublishMountDir :: string where "csiPublishMountDir = ''mount''"

text \<open>\<open>op_env\<close> gives the walk; the links of a directory are resolved by \<open>links\<close>.\<close>

type_synonym links = "string \<Rightarrow> os_err + string"

definition canonicalMountPath :: "links \<Rightarrow> string \<Rightarrow> string" where
  "canonicalMountPath links path =
     (let clean = path_Clean path; dir = path_Dir clean; name = path_Base clean in
      if dir = ''.'' \<or> dir = ''/'' then clean
      else case links dir of Inl _ \<Rightarrow> clean | Inr realDir \<Rightarrow> path_Join [realDir, name])"

definition parseCSIPublishMountPath :: "string \<Rightarrow> (string \<times> string) option" where
  "parseCSIPublishMountPath path =
     (let parts = split_on (CHR ''/'') (path_Clean path) in
      case (last_index ''pods'' 0 parts None, last_index ''kubernetes.io~csi'' 0 parts None) of
        (Some podsIdx, Some csiIdx) \<Rightarrow>
          if length parts \<le> podsIdx + 1 \<or> length parts \<le> csiIdx + 1 then None
          else if last parts \<noteq> csiPublishMountDir then None
          else if parts ! (podsIdx + 1) \<noteq> '''' \<and> parts ! (csiIdx + 1) \<noteq> ''''
          then Some (parts ! (podsIdx + 1), parts ! (csiIdx + 1)) else None
      | _ \<Rightarrow> None)"

definition mountOptionsReadOnly :: "string list \<Rightarrow> bool" where
  "mountOptionsReadOnly opts \<longleftrightarrow>
     list_ex (\<lambda>opt. opt = ''ro'' \<or> hasPrefix opt ''ro,'' \<or> hasSuffix opt '',ro'' \<or> contains_str opt '',ro,'') opts"

text \<open>The part of a volume ID behind its last separator.\<close>

definition vol_suffix :: "string \<Rightarrow> string" where
  "vol_suffix volumeID = trimPrefix (rev (takeWhile (\<lambda>c. c \<noteq> CHR ''#'') (rev volumeID))) ''#''"

definition stagingVolumeNameSet :: "string \<Rightarrow> string \<Rightarrow> string list" where
  "stagingVolumeNameSet stagingPath volumeID =
     filter (\<lambda>name. name \<noteq> '''' \<and> name \<noteq> unknownValue) [extractVolumeID stagingPath, volumeID, vol_suffix volumeID]"

record mount_table_entry =
  mt_source :: string
  mt_options :: "string list"

type_synonym mount_table = "(string \<times> mount_table_entry) list"

definition table_entry :: "links \<Rightarrow> mount_entry \<Rightarrow> mount_table \<Rightarrow> mount_table" where
  "table_entry links mp table =
     AList.update (canonicalMountPath links (me_path mp))
       \<lparr>mt_source = canonicalMountPath links (me_device mp), mt_options = me_opts mp\<rparr> table"

definition mountTableByPath :: "op_env \<Rightarrow> links \<Rightarrow> (node, gerr + mount_table) state" where
  "mountTableByPath oe links = do {
     mounts \<leftarrow> call (Os ListMounts) (\<lambda>h. listMounts (os_of (base oe)) h);
     case mounts of
       Inl e \<Rightarrow> fail (Wrapf ''list mounts: %w'' [] e)
     | Inr ms \<Rightarrow> ok (fold (table_entry links) ms []) }"

definition publishBindRefTargets :: "mount_table \<Rightarrow> string \<Rightarrow> mount_table_entry option \<Rightarrow> string list" where
  "publishBindRefTargets table stagingComparePath stagingMount =
     keys (filter (\<lambda>(path, mp). path \<noteq> stagingComparePath
       \<and> (case stagingMount of Some st \<Rightarrow> mt_source mp = mt_source st | None \<Rightarrow> False)) table)
     @ keys (filter (\<lambda>(path, mp). path \<noteq> stagingComparePath \<and> mt_source mp = stagingComparePath) table)"

section \<open>One path of the walk\<close>

text \<open>\<open>(corruptedByWalk, skip)\<close>.\<close>

definition classifyPublishWalkErr :: "string \<Rightarrow> bool \<Rightarrow> os_err option \<Rightarrow> bool \<times> bool" where
  "classifyPublishWalkErr path isDir walkErr =
     (case walkErr of
        Some e \<Rightarrow>
          if oe_not_exist e then (False, True)
          else if path_Base path \<noteq> csiPublishMountDir then (False, True)
          else if \<not> oe_corrupted e then (False, True)
          else (True, False)
      | None \<Rightarrow> (False, \<not> isDir \<or> path_Base path \<noteq> csiPublishMountDir))"

definition rebindPublishFromStaging :: "env \<Rightarrow> string \<Rightarrow> string \<Rightarrow> bool \<Rightarrow> (node, gerr + unit) state" where
  "rebindPublishFromStaging env stagingPath target ro = do {
     uerr \<leftarrow> unbindPublish env target;
     case uerr of
       Some e \<Rightarrow> fail (Wrapf ''unbind publish %s: %w'' [S target] e)
     | None \<Rightarrow> do {
         merr \<leftarrow> mkdir_all env target;
         case merr of
           Some e \<Rightarrow> fail (Wrapf ''recreate publish target %s: %w'' [S target] (OsError e))
         | None \<Rightarrow> do {
             r \<leftarrow> bindPublish env stagingPath target ro;
             case r of
               Inl e \<Rightarrow> fail (Wrapf ''bind publish %s from %s: %w'' [S target, S stagingPath] e)
             | Inr _ \<Rightarrow> ok () } } }"

text \<open>What the walk is given besides the path.\<close>

record refresh_args =
  ra_stagingPath :: string
  ra_comparePath :: string
  ra_volumeNames :: "string list"
  ra_table :: mount_table
  ra_refTargets :: "string list"
  ra_stagingMount :: "mount_table_entry option"

definition source_matches :: "refresh_args \<Rightarrow> string \<Rightarrow> mount_table_entry option \<Rightarrow> string \<Rightarrow> bool" where
  "source_matches ra comparePath mp volumeName \<longleftrightarrow>
     comparePath \<in> set (ra_refTargets ra)
     \<or> (case mp of None \<Rightarrow> False | Some m \<Rightarrow> mt_source m = ra_comparePath ra)
     \<or> (volumeName \<in> set (ra_volumeNames ra)
        \<and> (case (mp, ra_stagingMount ra) of (Some m, Some st) \<Rightarrow> mt_source m = mt_source st | _ \<Rightarrow> False))"

definition needs_refresh :: "refresh_args \<Rightarrow> bool \<Rightarrow> string \<Rightarrow> mount_table_entry option \<Rightarrow> string \<Rightarrow> bool" where
  "needs_refresh ra corruptedByWalk comparePath mp volumeName \<longleftrightarrow>
     (let sameVolume = volumeName \<in> set (ra_volumeNames ra); matches = source_matches ra comparePath mp volumeName in
      matches \<or> (corruptedByWalk \<and> sameVolume)
      \<or> (sameVolume \<and> mp \<noteq> None \<and> ra_stagingMount ra \<noteq> None \<and> \<not> matches))"

text \<open>What the callback answers to \<open>filepath.WalkDir\<close>.\<close>

datatype walk_answer = GoOn | SkipDir | StopWalk gerr

definition walkPublishBindRefresh ::
    "env \<Rightarrow> links \<Rightarrow> refresh_args \<Rightarrow> string \<Rightarrow> bool \<Rightarrow> os_err option \<Rightarrow> (node, walk_answer) state" where
  "walkPublishBindRefresh env links ra path isDir walkErr =
     (case classifyPublishWalkErr path isDir walkErr of (corruptedByWalk, skip) \<Rightarrow>
        if skip then State_Monad.return GoOn
        else case parseCSIPublishMountPath path of
          None \<Rightarrow> State_Monad.return (if path_Base path = csiPublishMountDir then SkipDir else GoOn)
        | Some (podUID, volumeName) \<Rightarrow>
            let target = path_Clean path; comparePath = canonicalMountPath links target;
                mp = map_of (ra_table ra) comparePath in
            if \<not> needs_refresh ra corruptedByWalk comparePath mp volumeName then State_Monad.return SkipDir
            else do {
              r \<leftarrow> rebindPublishFromStaging env (ra_stagingPath ra) target
                     (case mp of None \<Rightarrow> False | Some m \<Rightarrow> mountOptionsReadOnly (mt_options m));
              State_Monad.return (case r of Inl e \<Rightarrow> StopWalk e | Inr _ \<Rightarrow> SkipDir) })"

section \<open>The walk\<close>

text \<open>
  \<open>filepath.WalkDir\<close>: the callback sees a directory before it is listed, and again with the error
  when it cannot be listed; its answer skips a directory or stops the walk. \<open>None\<close>: no error. For a
  file, skipping skips the rest of its directory; the callback never answers that for a file.
\<close>

fun refresh_dir :: "env \<Rightarrow> links \<Rightarrow> refresh_args \<Rightarrow> string \<Rightarrow> dtree \<Rightarrow> (node, gerr option) state"
and refresh_entries :: "env \<Rightarrow> links \<Rightarrow> refresh_args \<Rightarrow> string \<Rightarrow> dtree list \<Rightarrow> (node, gerr option) state" where
  "refresh_dir env links ra path (NonDir n) = do {
     r \<leftarrow> walkPublishBindRefresh env links ra path False None;
     State_Monad.return (case r of StopWalk e \<Rightarrow> Some e | _ \<Rightarrow> None) }"
| "refresh_dir env links ra path (Dir n err ts) = do {
     r \<leftarrow> walkPublishBindRefresh env links ra path True None;
     case r of
       StopWalk e \<Rightarrow> State_Monad.return (Some e)
     | SkipDir \<Rightarrow> State_Monad.return None
     | GoOn \<Rightarrow> do {
         emit (Op (WalkRead path));
         r2 \<leftarrow> (if err = None then State_Monad.return GoOn else walkPublishBindRefresh env links ra path True err);
         case r2 of
           StopWalk e \<Rightarrow> State_Monad.return (Some e)
         | SkipDir \<Rightarrow> State_Monad.return None
         | GoOn \<Rightarrow> refresh_entries env links ra path ts } }"
| "refresh_entries env links ra path [] = State_Monad.return None"
| "refresh_entries env links ra path (t # ts) = do {
     r \<leftarrow> refresh_dir env links ra (path_Join [path, entry_name t]) t;
     case r of Some e \<Rightarrow> State_Monad.return (Some e) | None \<Rightarrow> refresh_entries env links ra path ts }"

definition refresh_walk :: "op_env \<Rightarrow> links \<Rightarrow> refresh_args \<Rightarrow> (node, gerr option) state" where
  "refresh_walk oe links ra = do {
     root \<leftarrow> call (Op (WalkRoot kubeletPodsDir)) (\<lambda>h. walkTree oe h kubeletPodsDir);
     case root of
       Inl e \<Rightarrow> do {
         r \<leftarrow> walkPublishBindRefresh (base oe) links ra kubeletPodsDir False (Some e);
         State_Monad.return (case r of StopWalk e' \<Rightarrow> Some e' | _ \<Rightarrow> None) }
     | Inr t \<Rightarrow> refresh_dir (base oe) links ra kubeletPodsDir t }"

definition refresh_args_of :: "links \<Rightarrow> string \<Rightarrow> string \<Rightarrow> mount_table \<Rightarrow> refresh_args" where
  "refresh_args_of links stagingPath volumeID table =
     (let comparePath = canonicalMountPath links stagingPath; st = map_of table comparePath in
      \<lparr>ra_stagingPath = stagingPath, ra_comparePath = comparePath,
       ra_volumeNames = stagingVolumeNameSet stagingPath volumeID, ra_table = table,
       ra_refTargets = publishBindRefTargets table comparePath st, ra_stagingMount = st\<rparr>)"

definition refreshPublishBindsForVolume :: "op_env \<Rightarrow> links \<Rightarrow> string \<Rightarrow> string \<Rightarrow> (node, gerr + unit) state" where
  "refreshPublishBindsForVolume oe links stagingPath volumeID = do {
     t \<leftarrow> mountTableByPath oe links;
     case t of
       Inl e \<Rightarrow> fail e
     | Inr table \<Rightarrow> do {
         r \<leftarrow> refresh_walk oe links (refresh_args_of links (path_Clean stagingPath) volumeID table);
         case r of
           Some e \<Rightarrow> fail (Wrapf ''walk kubelet publish paths: %w'' [] e)
         | None \<Rightarrow> ok () } }"

definition refreshPublishBinds :: "op_env \<Rightarrow> links \<Rightarrow> string \<Rightarrow> (node, gerr + unit) state" where
  "refreshPublishBinds oe links stagingPath = refreshPublishBindsForVolume oe links stagingPath ''''"

section \<open>Never looking into a mount\<close>

text \<open>The calls that would look into a directory named \<open>mount\<close>, or into any mount.\<close>

fun looks_into :: "ev \<Rightarrow> bool" where
  "looks_into (Op (WalkRead p)) = (path_Base p = csiPublishMountDir)"
| "looks_into (Op (DirList p)) = True"
| "looks_into (Op (PathStat p)) = True"
| "looks_into (Os (ReadDir p)) = True"
| "looks_into (Os (Statfs p)) = True"
| "looks_into (Os (IsLikelyNotMountPoint p)) = True"
| "looks_into _ = False"

text \<open>For a \<open>mount\<close> directory the callback never lets the walk go on below.\<close>

lemma classify_dir [simp]:
  "classifyPublishWalkErr path True None = (False, path_Base path \<noteq> csiPublishMountDir)"
  "classifyPublishWalkErr path False None = (False, True)"
  "path_Base path \<noteq> csiPublishMountDir \<Longrightarrow> classifyPublishWalkErr path d (Some e) = (False, True)"
  by (auto simp: classifyPublishWalkErr_def)

lemma walk_skips [simp]:
  "path_Base path \<noteq> csiPublishMountDir \<Longrightarrow> walkPublishBindRefresh env links ra path d e = State_Monad.return GoOn"
  "walkPublishBindRefresh env links ra path False None = State_Monad.return GoOn"
  by (cases e; cases d) (simp_all add: walkPublishBindRefresh_def)

lemma adds_rebind: "adds (\<lambda>e. \<not> looks_into e) (rebindPublishFromStaging env stagingPath target ro)"
  unfolding rebindPublishFromStaging_def unbindPublish_def forceCleanupMount_def mkdir_all_def bindPublish_def Let_def
  by (intro frame) simp_all

lemma adds_callback [frame]: "adds (\<lambda>e. \<not> looks_into e) (walkPublishBindRefresh env links ra path d e)"
  by (auto simp: walkPublishBindRefresh_def Let_def intro!: frame adds_rebind)

text \<open>The answer for a directory named \<open>mount\<close>.\<close>

lemma callback_stops:
  assumes "path_Base path = csiPublishMountDir"
  shows "wp (walkPublishBindRefresh env links ra path True None) (\<lambda>r _. r \<noteq> GoOn) s"
  using assms by (auto simp: walkPublishBindRefresh_def Let_def wp wp_fst split: option.split sum.split)

text \<open>The walk of a directory named \<open>mount\<close> is its callback, that of any other one goes through its entries.\<close>

lemma dir_of_mount:
  assumes "path_Base path = csiPublishMountDir"
  shows "run_state (refresh_dir env links ra path (Dir n err ts)) s
    = (let (r, s') = run_state (walkPublishBindRefresh env links ra path True None) s in
       (case r of StopWalk e \<Rightarrow> Some e | _ \<Rightarrow> None, s'))"
  using wp_runD [OF callback_stops [OF assms]]
  by (cases "run_state (walkPublishBindRefresh env links ra path True None) s") (auto split: walk_answer.split)

lemma dir_of_other:
  assumes "path_Base path \<noteq> csiPublishMountDir"
  shows "refresh_dir env links ra path (Dir n err ts)
    = do { emit (Op (WalkRead path)); refresh_entries env links ra path ts }"
  using assms by (simp add: state.expand fun_eq_iff del: run_call)

lemma adds_refresh_walk:
  "adds (\<lambda>e. \<not> looks_into e) (refresh_dir env links ra path t)"
  "adds (\<lambda>e. \<not> looks_into e) (refresh_entries env links ra path ts)"
proof (induction path t and path ts rule: mounts_below_mounts_among.induct)
  case (2 path n err ts)
  let ?P = "\<lambda>e. \<not> looks_into e" and ?cb = "walkPublishBindRefresh env links ra path True None"
  show ?case
  proof (cases "path_Base path = csiPublishMountDir")
    case True
    have "trace (snd (run_state (refresh_dir env links ra path (Dir n err ts)) s)) = trace (snd (run_state ?cb s))" for s
      unfolding dir_of_mount [OF True] by (simp add: Let_def split: prod.split)
    then show ?thesis using adds_callback [of env links ra path True None] by (simp add: adds_def)
  next
    case False
    then show ?thesis
      using 2 by (auto simp: dir_of_other mountDirName_def csiPublishMountDir_def intro!: frame)
  qed
qed (auto intro!: frame)

text \<open>
  Refreshing the publish binds of a volume never looks into a mount: whatever the node
  and the mount table answer, no directory named \<open>mount\<close> is listed, and no path is listed, stat-ed or
  probed at all outside the walk, so the refresh cannot hang on a file system of the driver itself.
\<close>

theorem refresh_never_enters_mounts:
  "adds (\<lambda>e. \<not> looks_into e) (refreshPublishBindsForVolume oe links stagingPath volumeID)"
  unfolding refreshPublishBindsForVolume_def mountTableByPath_def refresh_walk_def
  by (auto intro!: frame adds_refresh_walk)

section \<open>An example\<close>

text \<open>
  The volume \<open>v1\<close>, staged at \<open>/g\<close> and published read-only for one pod; the volume \<open>v2\<close>
  of the same device and \<open>v3\<close> of another one.
\<close>

definition publish_at :: "string \<Rightarrow> string" where
  "publish_at v = ''/var/lib/kubelet/pods/u1/volumes/kubernetes.io~csi/'' @ v @ ''/mount''"

definition example_entry :: "string \<Rightarrow> string \<Rightarrow> string list \<Rightarrow> mount_entry" where
  "example_entry path device opts = \<lparr>me_device = device, me_path = path, me_type = ''fuse.rclone'', me_opts = opts\<rparr>"

definition example_table :: "mount_entry list" where
  "example_table = [example_entry ''/g'' ''s3:data'' [''rw''], example_entry (publish_at ''v1'') ''s3:data'' [''ro''],
     example_entry (publish_at ''v2'') ''s3:data'' [''rw''], example_entry (publish_at ''v3'') ''b2:data'' [''rw'']]"

definition example_pods :: dtree where
  "example_pods = Dir ''pods'' None [Dir ''u1'' None [Dir ''volumes'' None [Dir ''kubernetes.io~csi'' None
     (map (\<lambda>v. Dir v None [NonDir ''vol_data.json'', Dir ''mount'' None [NonDir ''x'']]) [''v1'', ''v2'', ''v3''])]]]"

definition refresh_env :: op_env where
  "refresh_env = example_op\<lparr>base := example_base\<lparr>os_of := example_os\<lparr>listMounts := (\<lambda>h. Inr example_table)\<rparr>\<rparr>,
     walkTree := (\<lambda>h p. Inr example_pods)\<rparr>"

definition example_args :: refresh_args where
  "example_args = refresh_args_of Inr ''/g'' ''v1'' (fold (table_entry Inr) example_table [])"

section \<open>What is bound again\<close>

text \<open>The decision for a path, and what is done to it.\<close>

definition refreshed :: "links \<Rightarrow> refresh_args \<Rightarrow> string \<Rightarrow> bool" where
  "refreshed links ra path \<longleftrightarrow>
     (case parseCSIPublishMountPath path of
        None \<Rightarrow> False
      | Some (podUID, volumeName) \<Rightarrow>
          let comparePath = canonicalMountPath links (path_Clean path) in
          needs_refresh ra False comparePath (map_of (ra_table ra) comparePath) volumeName)"

definition mounted_ro :: "links \<Rightarrow> refresh_args \<Rightarrow> string \<Rightarrow> bool" where
  "mounted_ro links ra path \<longleftrightarrow>
     (case map_of (ra_table ra) (canonicalMountPath links path) of
        None \<Rightarrow> False | Some m \<Rightarrow> mountOptionsReadOnly (mt_options m))"

definition rebind_calls :: "env \<Rightarrow> links \<Rightarrow> refresh_args \<Rightarrow> string \<Rightarrow> ev list" where
  "rebind_calls env links ra path =
     (let target = path_Clean path in
      [Os (CleanupMount target (forceUnmounter (os_of env))), Os (MkdirAll target),
       Os (BindMount (ra_stagingPath ra) target
            (if mounted_ro links ra target then [''bind'', ''ro''] else [''bind'']))])"

fun walking :: "ev \<Rightarrow> bool" where
  "walking (Op (WalkRead p)) = True"
| "walking _ = False"

fun failed_call :: "env \<Rightarrow> history \<Rightarrow> ev \<Rightarrow> bool" where
  "failed_call env h (Os (CleanupMount p f)) = (cleanupMount (os_of env) h p \<noteq> None)"
| "failed_call env h (Os (MkdirAll p)) = (mkdirAll (os_of env) h p \<noteq> None)"
| "failed_call env h (Os (BindMount a b opts)) = (bindMount (os_of env) h a b opts \<noteq> None)"
| "failed_call env h _ = False"

definition broken_off :: "env \<Rightarrow> history \<Rightarrow> bool" where
  "broken_off env h \<longleftrightarrow> h \<noteq> [] \<and> failed_call env (butlast h) (List.last h)"

text \<open>
  The calls of a walk, apart from its listings: those for the paths, all of them unless it stopped,
  and then the last one is one that failed.
\<close>

definition rebound :: "env \<Rightarrow> links \<Rightarrow> refresh_args \<Rightarrow> string list \<Rightarrow> node \<Rightarrow> gerr option \<Rightarrow> node \<Rightarrow> bool" where
  "rebound env links ra paths s r s' \<longleftrightarrow>
     (\<exists>es rest. trace s' = trace s @ es
        \<and> concat (map (rebind_calls env links ra) paths) = filter (\<lambda>e. \<not> walking e) es @ rest
        \<and> (if r = None then rest = [] else broken_off env (trace s')))"

lemma rebound_trace: "rebound env links ra ps s r s' \<Longrightarrow> \<exists>es. trace s' = trace s @ es"
  by (auto simp: rebound_def)

lemma rebound_nothing: "rebound env links ra [] s None s"
  by (simp add: rebound_def)

lemma rebound_append:
  assumes "rebound env links ra ps s None s1" and "rebound env links ra qs s1 r s2"
  shows "rebound env links ra (ps @ qs) s r s2"
proof -
  obtain es1 where 1: "trace s1 = trace s @ es1"
      "concat (map (rebind_calls env links ra) ps) = filter (\<lambda>e. \<not> walking e) es1"
    using assms(1) by (auto simp: rebound_def)
  obtain es2 rest where 2: "trace s2 = trace s1 @ es2"
      "if r = None then rest = [] else broken_off env (trace s2)"
      "concat (map (rebind_calls env links ra) qs) = filter (\<lambda>e. \<not> walking e) es2 @ rest"
    using assms(2) by (auto simp: rebound_def)
  show ?thesis unfolding rebound_def
    by (rule exI [of _ "es1 @ es2"], rule exI [of _ rest]) (use 1 2 in simp)
qed

lemma rebound_stopped: "rebound env links ra ps s (Some e) s' \<Longrightarrow> rebound env links ra (ps @ qs) s (Some e) s'"
  unfolding rebound_def by (elim exE) (auto intro!: exI)

lemma rebound_listing: "rebound env links ra ps (s\<lparr>trace := trace s @ [Op (WalkRead p)]\<rparr>) r s' \<Longrightarrow> rebound env links ra ps s r s'"
  unfolding rebound_def by (elim exE conjE, rule_tac x = "Op (WalkRead p) # es" in exI, rule_tac x = rest in exI, cases r) simp_all

definition stopped_with :: "walk_answer \<Rightarrow> gerr option" where
  "stopped_with r = (case r of StopWalk e \<Rightarrow> Some e | _ \<Rightarrow> None)"

lemma stopped_with_simps [simp]:
  "stopped_with GoOn = None" "stopped_with SkipDir = None" "stopped_with (StopWalk e) = Some e"
  by (simp_all add: stopped_with_def)

lemma wp_rebind:
  "wp (rebindPublishFromStaging env (ra_stagingPath ra) (path_Clean path) (mounted_ro links ra (path_Clean path)))
     (\<lambda>r s'. rebound env links ra [path] s (case r of Inl e \<Rightarrow> Some e | Inr _ \<Rightarrow> None) s') s"
  by (auto simp: rebindPublishFromStaging_def unbindPublish_def forceCleanupMount_def mkdir_all_def bindPublish_def
      rebound_def rebind_calls_def broken_off_def butlast_append Let_def wp split: option.split)

lemma wp_callback:
  assumes "path_Base path = csiPublishMountDir"
  shows "wp (walkPublishBindRefresh env links ra path True None)
    (\<lambda>r s'. rebound env links ra (filter (refreshed links ra) [path]) s (stopped_with r) s') s"
proof (cases "parseCSIPublishMountPath path")
  case None
  with assms show ?thesis by (simp add: walkPublishBindRefresh_def refreshed_def wp rebound_nothing)
next
  case (Some v)
  obtain podUID volumeName where v: "v = (podUID, volumeName)" by fastforce
  let ?cmp = "canonicalMountPath links (path_Clean path)"
  show ?thesis
  proof (cases "refreshed links ra path")
    case False
    with assms Some v show ?thesis
      by (simp add: walkPublishBindRefresh_def refreshed_def Let_def wp rebound_nothing)
  next
    case True
    with assms Some v show ?thesis
      by (auto simp: walkPublishBindRefresh_def refreshed_def Let_def wp simp flip: mounted_ro_def
          intro!: wp_mono [OF wp_rebind] split: sum.splits)
  qed
qed

lemma wp_refresh_walk:
  "wp (refresh_dir env links ra path t)
     (rebound env links ra (filter (refreshed links ra) (mounts_below path t)) s) s"
  "wp (refresh_entries env links ra path ts)
     (rebound env links ra (filter (refreshed links ra) (mounts_among path ts)) s) s"
proof (induction path t and path ts arbitrary: s and s rule: mounts_below_mounts_among.induct)
  case (2 path n err ts)
  show ?case
  proof (cases "path_Base path = csiPublishMountDir")
    case True
    obtain r s' where run: "run_state (walkPublishBindRefresh env links ra path True None) s = (r, s')" by fastforce
    show ?thesis
      using wp_runD [OF wp_callback [OF True] run] True
      unfolding wp_def dir_of_mount [OF True] run
      by (simp add: mountDirName_def csiPublishMountDir_def stopped_with_def del: refresh_dir.simps)
  next
    case False
    then have other: "path_Base path \<noteq> mountDirName" by (simp add: mountDirName_def csiPublishMountDir_def)
    show ?thesis
      unfolding dir_of_other [OF False] wp_bind wp_emit
      by (rule wp_mono [OF 2 [OF other]]) (simp add: other rebound_listing)
  qed
next
  case (4 path t ts)
  show ?case
    unfolding refresh_entries.simps wp_bind
  proof (rule wp_mono [OF 4(1)])
    fix r s'
    assume first: "rebound env links ra (filter (refreshed links ra) (mounts_below (path_Join [path, entry_name t]) t)) s r s'"
    show "wp (case r of None \<Rightarrow> refresh_entries env links ra path ts | Some e \<Rightarrow> State_Monad.return (Some e))
       (rebound env links ra (filter (refreshed links ra) (mounts_among path (t # ts))) s) s'"
    proof (cases r)
      case None
      with first show ?thesis by (auto intro!: wp_mono [OF 4(2)] rebound_append)
    next
      case (Some e)
      with first show ?thesis by (simp add: wp rebound_stopped)
    qed
  qed
qed (simp_all add: wp rebound_nothing)

text \<open>The directories named \<open>mount\<close> among kubelet's pods; none when there is nothing to walk.\<close>

definition pod_mounts :: "op_env \<Rightarrow> history \<Rightarrow> string list" where
  "pod_mounts oe h = (case walkTree oe h kubeletPodsDir of Inl _ \<Rightarrow> [] | Inr t \<Rightarrow> mounts_below kubeletPodsDir t)"

lemma pods_dir_no_mount [simp]: "path_Base kubeletPodsDir \<noteq> csiPublishMountDir"
  by code_simp

lemma wp_refresh_walk_root:
  "wp (refresh_walk oe links ra) (\<lambda>r s'. \<exists>es. trace s' = trace s @ Op (WalkRoot kubeletPodsDir) # es
     \<and> rebound (base oe) links ra (filter (refreshed links ra) (pod_mounts oe (trace s)))
         (s\<lparr>trace := trace s @ [Op (WalkRoot kubeletPodsDir)]\<rparr>) r s') s"
proof (cases "walkTree oe (trace s) kubeletPodsDir")
  case (Inl e)
  then show ?thesis by (simp add: refresh_walk_def pod_mounts_def wp rebound_nothing)
next
  case (Inr t)
  then show ?thesis
    by (auto simp: refresh_walk_def pod_mounts_def wp intro!: wp_mono [OF wp_refresh_walk(1)] dest: rebound_trace)
qed


lemma refresh_env_never_fails: "\<not> broken_off (base refresh_env) h"
proof -
  have "\<not> failed_call (base refresh_env) h e" for h e
    by (induction "base refresh_env" h e rule: failed_call.induct) (simp_all add: refresh_env_def example_os_def)
  then show ?thesis by (simp add: broken_off_def)
qed


section \<open>Which paths are refreshed\<close>

text \<open>The two parsers of a publish path, in pkg/rclone and in pkg/operator, are the same function.\<close>

lemma parseCSIPublishMountPath_is_ParseCSIMountPath: "parseCSIPublishMountPath = ParseCSIMountPath"
  by (auto simp: fun_eq_iff parseCSIPublishMountPath_def ParseCSIMountPath_def csiPublishMountDir_def mountDirName_def
      csiVolumeDirSegment_def Let_def split: option.split)

lemma table_names_no_duplicates: "distinct (keys ms) \<Longrightarrow> distinct (keys (fold (table_entry links) es ms))"
  by (induction es arbitrary: ms) (auto simp: table_entry_def distinct_update)

lemma ref_target:
  assumes "distinct (keys table)" and "map_of table p = Some m" and "p \<noteq> cmp"
  shows "p \<in> set (publishBindRefTargets table cmp st)
    \<longleftrightarrow> mt_source m = cmp \<or> (case st of Some m' \<Rightarrow> mt_source m = mt_source m' | None \<Rightarrow> False)"
proof -
  have "(p, m') \<in> set table \<longleftrightarrow> m' = m" for m' using assms by (metis map_of_eq_Some_iff option.inject)
  then show ?thesis using assms(3) by (force simp: publishBindRefTargets_def split: option.split)
qed

text \<open>
  The refresh of a volume takes the publish path of a pod's volume exactly when that path is
  mounted, by whatever volume, from the staging path or from the device the staging path is mounted
  from, or when it belongs to the volume itself and both are mounted. Two volumes with the same
  remote and path share the device, so the refresh of one binds the publish paths of the other
  from its own staging path.
\<close>

theorem refreshed_iff:
  assumes "ra = refresh_args_of links stagingPath volumeID (fold (table_entry links) ms [])"
    and "parseCSIPublishMountPath path = Some (podUID, volumeName)"
    and "canonicalMountPath links (path_Clean path) = target" and "target \<noteq> ra_comparePath ra"
  shows "refreshed links ra path \<longleftrightarrow>
    (case (map_of (ra_table ra) target, ra_stagingMount ra) of
       (None, _) \<Rightarrow> False
     | (Some m, None) \<Rightarrow> mt_source m = ra_comparePath ra
     | (Some m, Some st) \<Rightarrow> mt_source m = ra_comparePath ra \<or> mt_source m = mt_source st
         \<or> volumeName \<in> set (ra_volumeNames ra))"
proof -
  let ?table = "ra_table ra"
  have table: "?table = fold (table_entry links) ms []" "ra_refTargets ra = publishBindRefTargets ?table (ra_comparePath ra) (ra_stagingMount ra)"
    by (simp_all add: assms(1) refresh_args_of_def Let_def)
  have dist: "distinct (keys ?table)" unfolding table by (rule table_names_no_duplicates) simp
  have out: "map_of ?table target = None \<Longrightarrow> target \<notin> set (ra_refTargets ra)"
    by (force simp: table(2) publishBindRefTargets_def map_of_eq_None_iff split: option.splits)
  show ?thesis
    using assms(2,3) ref_target [OF dist _ assms(4)] out
    by (auto simp: refreshed_def needs_refresh_def source_matches_def Let_def table(2) split: option.splits)
qed

theorem refreshed_iff_witness:
  "refreshed Inr example_args (publish_at ''v2'') \<and> ''v2'' \<notin> set (ra_volumeNames example_args)
   \<and> \<not> refreshed Inr example_args (publish_at ''v3'')"
proof -
  have parse: "parseCSIPublishMountPath (publish_at ''v2'') = Some (''u1'', ''v2'')"
    "parseCSIPublishMountPath (publish_at ''v3'') = Some (''u1'', ''v3'')" by code_simp+
  have cmp: "canonicalMountPath Inr (path_Clean (publish_at v)) = publish_at v \<and> publish_at v \<noteq> ra_comparePath example_args"
    if "v \<in> {''v2'', ''v3''}" for v using that by (elim insertE emptyE) (simp, code_simp)+
  have table: "map_of (ra_table example_args) (publish_at ''v2'') = Some \<lparr>mt_source = ''s3:data'', mt_options = [''rw'']\<rparr>"
    "map_of (ra_table example_args) (publish_at ''v3'') = Some \<lparr>mt_source = ''b2:data'', mt_options = [''rw'']\<rparr>"
    "ra_stagingMount example_args = Some \<lparr>mt_source = ''s3:data'', mt_options = [''rw'']\<rparr>"
    "ra_volumeNames example_args = [''g'', ''v1'', ''v1'']" "ra_comparePath example_args = ''/g''" by code_simp+
  show ?thesis
    using refreshed_iff [OF example_args_def parse(1), of "publish_at ''v2''"]
      refreshed_iff [OF example_args_def parse(2), of "publish_at ''v3''"] cmp by (simp add: table)
qed

end
