(* ===== verification/Logging.thy ===== *)
theory Logging
  imports Prelude
begin

text \<open>
  The bridge from rclone's structured log to klog (pkg/rclone/logging.go): the handler with its
  attributes and groups, and the message and severity of a record.
\<close>

section \<open>The handler\<close>

text \<open>An attribute is its key and the text \<open>fmt.Fprint\<close> gives its value.\<close>

type_synonym attr = "string \<times> string"

record klog_handler =
  kh_attrs :: "attr list"
  kh_groups :: "string list"

record log_record =
  lr_level :: int
  lr_message :: string
  lr_attrs :: "attr list"

datatype severity = LogError | LogWarning | LogInfo nat \<comment> \<open>with its verbosity\<close>

definition LevelInfo :: int where "LevelInfo = 0"
definition LevelWarn :: int where "LevelWarn = 4"
definition LevelError :: int where "LevelError = 8"

definition Enabled :: "klog_handler \<Rightarrow> int \<Rightarrow> bool" where
  "Enabled h level = True"

fun handler_attrs :: "nat \<Rightarrow> attr list \<Rightarrow> string" where
  "handler_attrs i [] = []"
| "handler_attrs i ((key, val) # as) = (if i > 0 then '', '' else []) @ key @ ''='' @ val @ handler_attrs (i + 1) as"

fun record_attrs :: "bool \<Rightarrow> attr list \<Rightarrow> string" where
  "record_attrs first [] = []"
| "record_attrs first ((key, val) # as) = (if \<not> first then '', '' else []) @ key @ ''='' @ val @ record_attrs False as"

definition log_message :: "klog_handler \<Rightarrow> log_record \<Rightarrow> string" where
  "log_message h r = lr_message r
     @ (if length (kh_attrs h) > 0 \<or> length (lr_attrs r) > 0
        then '' {'' @ handler_attrs 0 (kh_attrs h) @ record_attrs (length (kh_attrs h) = 0) (lr_attrs r) @ ''}''
        else [])"

definition log_severity :: "int \<Rightarrow> severity" where
  "log_severity level =
     (if level \<ge> LevelError then LogError
      else if level \<ge> LevelWarn then LogWarning
      else if level \<ge> LevelInfo then LogInfo 2
      else LogInfo 4)"

definition Handle :: "klog_handler \<Rightarrow> log_record \<Rightarrow> severity \<times> string" where
  "Handle h r = (log_severity (lr_level r), log_message h r)"

definition WithAttrs :: "klog_handler \<Rightarrow> attr list \<Rightarrow> klog_handler" where
  "WithAttrs h as = \<lparr>kh_attrs = kh_attrs h @ as, kh_groups = kh_groups h\<rparr>"

definition WithGroup :: "klog_handler \<Rightarrow> string \<Rightarrow> klog_handler" where
  "WithGroup h name = \<lparr>kh_attrs = kh_attrs h, kh_groups = kh_groups h @ [name]\<rparr>"

text \<open>The handler that becomes the default; rclone's own level is set to info.\<close>

definition InitRcloneLogging :: klog_handler where
  "InitRcloneLogging = \<lparr>kh_attrs = [], kh_groups = []\<rparr>"

section \<open>What is logged\<close>

text \<open>A logger is derived from the default one by \<open>With\<close> and \<open>WithGroup\<close>.\<close>

datatype derivation = With "attr list" | Group string

fun derive :: "derivation \<Rightarrow> klog_handler \<Rightarrow> klog_handler" where
  "derive (With as) h = WithAttrs h as"
| "derive (Group name) h = WithGroup h name"

fun given_attrs :: "derivation \<Rightarrow> attr list" where
  "given_attrs (With as) = as"
| "given_attrs (Group name) = []"

text \<open>The reference: the attributes in the order they were given, separated by commas.\<close>

fun comma_list :: "attr list \<Rightarrow> string" where
  "comma_list [] = []"
| "comma_list [(key, val)] = key @ ''='' @ val"
| "comma_list ((key, val) # as) = key @ ''='' @ val @ '', '' @ comma_list as"

lemma comma_list_Cons: "comma_list ((key, val) # as) = key @ ''='' @ val @ (if as = [] then [] else '', '' @ comma_list as)"
  by (cases as) auto

lemma record_attrs_comma: "record_attrs first as = (if as = [] then [] else (if first then [] else '', '') @ comma_list as)"
  by (induction first as rule: record_attrs.induct) (auto simp: comma_list_Cons simp del: comma_list.simps(3))

lemma handler_attrs_comma: "handler_attrs i as = (if as = [] then [] else (if i = 0 then [] else '', '') @ comma_list as)"
  by (induction i as rule: handler_attrs.induct) (auto simp: comma_list_Cons simp del: comma_list.simps(3))

lemma comma_list_append:
  "as \<noteq> [] \<Longrightarrow> bs \<noteq> [] \<Longrightarrow> comma_list (as @ bs) = comma_list as @ '', '' @ comma_list bs"
  by (induction as rule: comma_list.induct) (auto simp: comma_list_Cons simp del: comma_list.simps(3))

lemma log_message_comma:
  "log_message h r = lr_message r @ (let as = kh_attrs h @ lr_attrs r in if as = [] then [] else '' {'' @ comma_list as @ ''}'')"
  by (auto simp: log_message_def Let_def handler_attrs_comma record_attrs_comma comma_list_append)

lemma derived_attrs: "kh_attrs (fold derive ds h) = kh_attrs h @ concat (map given_attrs ds)"
proof (induction ds arbitrary: h)
  case (Cons d ds)
  then show ?case by (cases d) (simp_all add: WithAttrs_def WithGroup_def)
qed simp

text \<open>
  Whatever loggers were derived from the default one, a record is logged with all
  attributes of its logger and its own, in the order they were given and separated by commas, and
  with the severity of its level. The groups of the logger do not show: two attributes of the same
  name in different groups are logged alike.
\<close>

theorem Handle_derived:
  "Handle (fold derive ds InitRcloneLogging) r =
     (log_severity (lr_level r),
      lr_message r @ (let as = concat (map given_attrs ds) @ lr_attrs r in
                      if as = [] then [] else '' {'' @ comma_list as @ ''}''))"
  by (simp add: Handle_def log_message_comma derived_attrs InitRcloneLogging_def)

text \<open>A more severe record is never logged less severely.\<close>

fun rank :: "severity \<Rightarrow> int" where
  "rank LogError = 2"
| "rank LogWarning = 1"
| "rank (LogInfo v) = - int v"

lemma log_severity_mono: "l \<le> l' \<Longrightarrow> rank (log_severity l) \<le> rank (log_severity l')"
  by (auto simp: log_severity_def LevelInfo_def LevelWarn_def LevelError_def)

end
