(* ===== verification/Servers.thy ===== *)
theory Servers
  imports Metrics
begin

text \<open>
  What the driver process starts beside the driver: the metrics server (internal/metrics/server.go)
  and the rclone RC server (internal/rc/server.go) with the validation of their options, the
  Kubernetes client (pkg/rclone/k8s_client.go) and the version (pkg/rclone/version.go). Listening,
  rclone's server and the client libraries are parameters.
\<close>

section \<open>The metrics server\<close>

record metrics_options =
  mo_metricsPath :: string
  mo_readTimeout :: int
  mo_writeTimeout :: int
  mo_idleTimeout :: int
  mo_metricsAddr :: string

text \<open>\<open>None\<close>: a nil pointer.\<close>

definition validate_metrics :: "metrics_options option \<Rightarrow> gerr option" where
  "validate_metrics opts =
     (case opts of
        None \<Rightarrow> Some (Errorf ''options cannot be nil'' [])
      | Some opt \<Rightarrow>
          if mo_metricsAddr opt = '''' then Some (Errorf ''metrics address cannot be empty'' [])
          else if \<not> hasPrefix (mo_metricsPath opt) ''/''
          then Some (Errorf ''metrics path must start with '/', got %q'' [S (mo_metricsPath opt)])
          else if mo_readTimeout opt < 0 then Some (Errorf ''metrics read timeout cannot be negative'' [])
          else if mo_writeTimeout opt < 0 then Some (Errorf ''metrics write timeout cannot be negative'' [])
          else if mo_idleTimeout opt < 0 then Some (Errorf ''metrics idle timeout cannot be negative'' [])
          else None)"

definition new_metrics_options :: metrics_options where
  "new_metrics_options = \<lparr>mo_metricsPath = ''/metrics'', mo_readTimeout = 10 * 10 ^ 9, mo_writeTimeout = 10 * 10 ^ 9,
     mo_idleTimeout = 60 * 10 ^ 9, mo_metricsAddr = ''''\<rparr>"

text \<open>The pattern the handler is registered for, the timeouts and the address listened at.\<close>

record metrics_server =
  ms_pattern :: string
  ms_timeouts :: "int \<times> int \<times> int"
  ms_addr :: string

text \<open>\<open>listen\<close> answers \<open>net.Listen\<close> with the address of the listener.\<close>

definition start_metrics ::
    "(string \<Rightarrow> string \<Rightarrow> gerr + string) \<Rightarrow> metrics_options option \<Rightarrow> gerr + metrics_server" where
  "start_metrics listen opts =
     (case opts of
        None \<Rightarrow> Inl (Errorf ''options cannot be nil'' [])
      | Some opt \<Rightarrow>
         (case validate_metrics opts of
            Some e \<Rightarrow> Inl e
          | None \<Rightarrow>
             (case listen ''tcp'' (mo_metricsAddr opt) of
                Inl e \<Rightarrow> Inl (Wrapf ''failed to listen on %s: %w'' [S (mo_metricsAddr opt)] e)
              | Inr addr \<Rightarrow> Inr \<lparr>ms_pattern = ''GET '' @ mo_metricsPath opt,
                  ms_timeouts = (mo_readTimeout opt, mo_writeTimeout opt, mo_idleTimeout opt), ms_addr = addr\<rparr>)))"

text \<open>
  The goroutine that serves puts an error of \<open>Serve\<close> into the channel \<open>done\<close>, unless it is the one of a shut down
  server, and closes it. \<open>Wait\<close> takes the next value of the closed channel, nil when there is none.
\<close>

definition ErrServerClosed :: gerr where
  "ErrServerClosed = ExtError ''http: Server closed''"

definition serve_done :: "gerr option \<Rightarrow> gerr list" where
  "serve_done err = (case err of None \<Rightarrow> [] | Some e \<Rightarrow> if e = ErrServerClosed then [] else [e])"

fun metrics_Wait :: "gerr list \<Rightarrow> gerr option \<times> gerr list" where
  "metrics_Wait [] = (None, [])"
| "metrics_Wait (e # es) = (Some e, es)"

definition metrics_Addr :: "metrics_server \<Rightarrow> string" where
  "metrics_Addr s = ms_addr s"

text \<open>A nil context is an error; \<open>shutdown\<close> is the answer of \<open>http.Server.Shutdown\<close>.\<close>

definition metrics_Shutdown :: "('c \<Rightarrow> gerr option) \<Rightarrow> 'c option \<Rightarrow> gerr option" where
  "metrics_Shutdown shutdown ctx =
     (case ctx of None \<Rightarrow> Some (Errorf ''context cannot be nil'' []) | Some c \<Rightarrow> shutdown c)"

lemma metrics_Wait_once: "fst (metrics_Wait (snd (metrics_Wait (serve_done err)))) = None"
  by (auto simp: serve_done_def split: option.split)

section \<open>The RC server\<close>

record rc_options =
  ro_enabled :: bool
  ro_address :: string
  ro_noAuth :: bool
  ro_username :: string
  ro_password :: string

definition validate_rc :: "rc_options option \<Rightarrow> gerr option" where
  "validate_rc opts =
     (case opts of
        None \<Rightarrow> Some (Errorf ''options cannot be nil'' [])
      | Some opt \<Rightarrow>
          if ro_address opt = '''' then Some (Errorf ''address cannot be empty'' [])
          else if ro_noAuth opt \<and> (ro_username opt \<noteq> '''' \<or> ro_password opt \<noteq> '''')
          then Some (Errorf ''basic auth credentials must be provided unless rc.noAuth=true'' [])
          else if \<not> ro_noAuth opt \<and> (ro_username opt = '''' \<or> ro_password opt = '''')
          then Some (Errorf ''rc basic auth credentials must be provided unless rc.noAuth=true'' [])
          else None)"

definition new_rc_options :: rc_options where
  "new_rc_options = \<lparr>ro_enabled = False, ro_address = '':5573'', ro_noAuth = False, ro_username = '''', ro_password = ''''\<rparr>"

text \<open>The options of rclone's server that are set; the others are a copy of \<open>rc.Opt\<close>.\<close>

record rclone_rc =
  rr_enabled :: bool
  rr_noAuth :: bool
  rr_listenAddr :: "string list"
  rr_basicUser :: string
  rr_basicPass :: string

text \<open>\<open>None\<close>: the nil server. \<open>rcserver_Start\<close> is rclone's \<open>rcserver.Start\<close>.\<close>

definition start_rc ::
    "rclone_rc \<Rightarrow> (rclone_rc \<Rightarrow> gerr + 'srv) \<Rightarrow> rc_options option \<Rightarrow> gerr + 'srv option" where
  "start_rc rc_Opt rcserver_Start opts =
     (case opts of
        None \<Rightarrow> Inr None
      | Some opt \<Rightarrow>
          if \<not> ro_enabled opt then Inr None
          else case validate_rc opts of
            Some e \<Rightarrow> Inl e
          | None \<Rightarrow>
              let r1 = rc_Opt\<lparr>rr_enabled := True, rr_noAuth := ro_noAuth opt\<rparr>;
                  r2 = (if ro_address opt \<noteq> '''' then r1\<lparr>rr_listenAddr := [ro_address opt]\<rparr> else r1);
                  r3 = (if \<not> ro_noAuth opt then r2\<lparr>rr_basicUser := ro_username opt, rr_basicPass := ro_password opt\<rparr> else r2)
              in (case rcserver_Start r3 of Inl e \<Rightarrow> Inl e | Inr srv \<Rightarrow> Inr (Some srv)))"

section \<open>The Kubernetes client\<close>

datatype in_cluster = ClusterConfig string | ErrNotInCluster | ClusterError gerr

text \<open>
  \<open>inClusterConfig\<close>, \<open>clientConfig\<close> and \<open>newForConfig\<close> are functions of client-go; a configuration
  and a client are names.
\<close>

record k8s_env =
  inClusterConfig :: in_cluster
  clientConfig :: "gerr + string"
  newForConfig :: "string \<Rightarrow> gerr + string"
  csi_namespace :: string \<comment> \<open>the environment variable\<close>

definition loadKubeConfig :: "k8s_env \<Rightarrow> gerr + string" where
  "loadKubeConfig ke =
     (case inClusterConfig ke of
        ClusterConfig config \<Rightarrow> Inr config
      | ClusterError e \<Rightarrow> Inl e
      | ErrNotInCluster \<Rightarrow> clientConfig ke)"

text \<open>The client is kept in a global variable.\<close>

definition getK8sClient :: "k8s_env \<Rightarrow> string option \<Rightarrow> (gerr + string) \<times> string option" where
  "getK8sClient ke clientset =
     (case clientset of
        Some c \<Rightarrow> (Inr c, clientset)
      | None \<Rightarrow>
         (case loadKubeConfig ke of
            Inl e \<Rightarrow> (Inl e, None)
          | Inr config \<Rightarrow>
             (case newForConfig ke config of Inl e \<Rightarrow> (Inl e, None) | Inr c \<Rightarrow> (Inr c, Some c))))"

definition GetCSIDriverNamespace :: "k8s_env \<Rightarrow> gerr + string" where
  "GetCSIDriverNamespace ke = Inr (if csi_namespace ke \<noteq> '''' then csi_namespace ke else ''default'')"

definition NewMountStateManager :: "k8s_env \<Rightarrow> string \<Rightarrow> string option \<Rightarrow> (gerr + state_manager) \<times> string option" where
  "NewMountStateManager ke nodeID clientset =
     (case GetCSIDriverNamespace ke of
        Inl e \<Rightarrow> (Inl (Wrapf ''failed to get CSI driver namespace: %w'' [] e), clientset)
      | Inr namespace \<Rightarrow>
         (case getK8sClient ke clientset of
            (Inl e, cl) \<Rightarrow> (Inl (Wrapf ''failed to initialize k8s client: %w'' [] e), cl)
          | (Inr c, cl) \<Rightarrow> (Inr \<lparr>sm_namespace = namespace, sm_nodeID = nodeID\<rparr>, cl)))"

section \<open>The version\<close>

text \<open>\<open>built\<close> holds what the linker and the runtime set.\<close>

definition GetVersion :: "version_info \<Rightarrow> string \<Rightarrow> version_info" where
  "GetVersion built name = built\<lparr>vi_driverName := name\<rparr>"

definition GetVersionYAML :: "(version_info \<Rightarrow> gerr + string) \<Rightarrow> version_info \<Rightarrow> string \<Rightarrow> gerr + string" where
  "GetVersionYAML marshal built name = map_sum id trimSpace (marshal (GetVersion built name))"

definition GetVersionString :: "version_info \<Rightarrow> string \<Rightarrow> string" where
  "GetVersionString built name =
     name @ '' version '' @ vi_driverVersion built @ '' (rclone: '' @ vi_rcloneVersion built @ '', commit: ''
       @ vi_gitCommit built @ '', built: '' @ vi_buildDate built @ '')''"

section \<open>What is started\<close>

text \<open>
  The RC server is never started open by accident. When a server is started the options were
  given and enabled, it listens at the address of the options only, and it either asks for a user and a
  password, both not empty and those of the options, or its authentication was switched off explicitly,
  with no credentials given that would then be ignored.
\<close>

theorem rc_server_protected:
  assumes "start_rc rc_Opt rcserver_Start opts = Inr (Some srv)"
  shows "\<exists>opt r. opts = Some opt \<and> ro_enabled opt \<and> rcserver_Start r = Inr srv \<and> rr_enabled r
    \<and> rr_listenAddr r = [ro_address opt] \<and> rr_noAuth r = ro_noAuth opt
    \<and> (if ro_noAuth opt then ro_username opt = '''' \<and> ro_password opt = ''''
       else rr_basicUser r = ro_username opt \<and> rr_basicPass r = ro_password opt
         \<and> ro_username opt \<noteq> '''' \<and> ro_password opt \<noteq> '''')"
proof -
  obtain opt where opt: "opts = Some opt" "ro_enabled opt" "validate_rc opts = None"
    using assms by (auto simp: start_rc_def split: option.splits if_splits)
  then show ?thesis
    using assms by (auto simp: start_rc_def validate_rc_def Let_def split: if_splits sum.splits)
qed

theorem rc_server_protected_witness:
  "\<exists>r::rclone_rc. rr_basicUser r = ''u'' \<and> rr_basicPass r = ''p'' \<and> rr_listenAddr r = ['':5573''] \<and> \<not> rr_noAuth r"
proof -
  let ?opt = "new_rc_options\<lparr>ro_enabled := True, ro_username := ''u'', ro_password := ''p''\<rparr>"
  let ?rc = "\<lparr>rr_enabled = False, rr_noAuth = False, rr_listenAddr = [], rr_basicUser = '''', rr_basicPass = ''''\<rparr>"
  have "start_rc ?rc (\<lambda>r. Inr ()) (Some ?opt) = Inr (Some ())"
    by (simp add: start_rc_def validate_rc_def new_rc_options_def)
  from rc_server_protected [OF this] show ?thesis
    by (elim exE) (auto simp: new_rc_options_def)
qed

text \<open>The client is made once: after the first success the configuration is not asked for again.\<close>

lemma getK8sClient_once:
  assumes "getK8sClient ke clientset = (Inr c, cl)"
  shows "getK8sClient ke' cl = (Inr c, cl)"
  using assms by (auto simp: getK8sClient_def split: option.splits sum.splits)

text \<open>
  The defaults are valid once an address is given; without one the start fails (the comment on
  \<open>Start\<close> says it returns nil).
\<close>

lemma default_metrics_options: "addr \<noteq> '''' \<Longrightarrow> validate_metrics (Some (new_metrics_options\<lparr>mo_metricsAddr := addr\<rparr>)) = None"
  by (simp add: validate_metrics_def new_metrics_options_def hasPrefix_def)

lemma start_metrics_without_address: "start_metrics listen (Some new_metrics_options) = Inl (Errorf ''metrics address cannot be empty'' [])"
  by (simp add: start_metrics_def validate_metrics_def new_metrics_options_def)

end
