(* ===== verification/Driver.thy ===== *)
theory Driver
  imports Node_System Controller Servers Logging
begin

text \<open>
  The driver process (pkg/rclone/rclone.go, identityserver.go, the capabilities in utils.go, server.go,
  cmd/rcloneplugin/main.go): what a driver advertises, how it boots, what it does on a signal and how
  it shuts down. The node server runs inside with its own state.
\<close>

section \<open>Capabilities\<close>

text \<open>The capability types of the CSI specification that the code names.\<close>

datatype controller_cap = CREATE_DELETE_VOLUME | PUBLISH_UNPUBLISH_VOLUME
datatype node_cap = UNKNOWN_NODE_CAP | STAGE_UNSTAGE_VOLUME | GET_VOLUME_STATS | VOLUME_CONDITION | VOLUME_MOUNT_GROUP
datatype plugin_cap = CONTROLLER_SERVICE

datatype 'c service_cap = Rpc 'c

definition NewControllerServiceCapability :: "controller_cap \<Rightarrow> controller_cap service_cap" where
  "NewControllerServiceCapability c = Rpc c"

definition NewNodeServiceCapability :: "node_cap \<Rightarrow> node_cap service_cap" where
  "NewNodeServiceCapability c = Rpc c"

section \<open>The driver\<close>

record driver_options =
  do_nodeID :: string
  do_driverName :: string
  do_endpoint :: string
  do_remount :: bool
  do_staging :: bool
  do_mountTimeout :: int

record driver =
  dr_name :: string
  dr_remount :: bool
  dr_staging :: bool
  dr_nodeID :: string
  dr_version :: string
  dr_endpoint :: string
  dr_mountTimeout :: int
  dr_cscap :: "controller_cap service_cap list"
  dr_nscap :: "node_cap service_cap list"

definition AddControllerServiceCapabilities :: "controller_cap list \<Rightarrow> driver \<Rightarrow> driver" where
  "AddControllerServiceCapabilities cl d = d\<lparr>dr_cscap := map NewControllerServiceCapability cl\<rparr>"

definition AddNodeServiceCapabilities :: "node_cap list \<Rightarrow> driver \<Rightarrow> driver" where
  "AddNodeServiceCapabilities caps d = d\<lparr>dr_nscap := map NewNodeServiceCapability caps\<rparr>"

definition NewDriver :: "string \<Rightarrow> driver_options \<Rightarrow> driver" where
  "NewDriver version opts =
     (let d = \<lparr>dr_name = do_driverName opts, dr_remount = do_remount opts, dr_staging = do_staging opts,
            dr_nodeID = do_nodeID opts, dr_version = version, dr_endpoint = do_endpoint opts,
            dr_mountTimeout = do_mountTimeout opts, dr_cscap = [], dr_nscap = []\<rparr>;
          nodeCaps = [UNKNOWN_NODE_CAP, VOLUME_CONDITION, VOLUME_MOUNT_GROUP]
            @ (if do_staging opts then [STAGE_UNSTAGE_VOLUME] else [])
      in AddNodeServiceCapabilities nodeCaps (AddControllerServiceCapabilities [CREATE_DELETE_VOLUME] d))"

text \<open>What the node server reads of its driver; its caches and locks start empty (\<open>initial_node\<close>).\<close>

definition NewNodeServer :: "driver \<Rightarrow> state_manager option \<Rightarrow> node_config" where
  "NewNodeServer d stateManager =
     \<lparr>cf_nodeID = dr_nodeID d, cf_name = dr_name d, cf_staging = dr_staging d, cf_mountTimeout = dr_mountTimeout d,
      cf_stateManager = stateManager\<rparr>"

definition ControllerGetCapabilities :: "driver \<Rightarrow> controller_cap service_cap list" where
  "ControllerGetCapabilities d = dr_cscap d"

definition NodeGetCapabilities :: "driver \<Rightarrow> node_cap service_cap list" where
  "NodeGetCapabilities d = dr_nscap d"

section \<open>The identity service\<close>

definition GetPluginInfo :: "driver \<Rightarrow> gerr + string \<times> string" where
  "GetPluginInfo d =
     (if dr_name d = '''' then Inl (Status Unavailable ''Driver name not configured'' [])
      else if dr_version d = '''' then Inl (Status Unavailable ''Driver is missing version'' [])
      else Inr (dr_name d, dr_version d))"

definition Probe :: "driver option \<Rightarrow> bool" where
  "Probe dr = (case dr of None \<Rightarrow> False | Some d \<Rightarrow> if dr_name d = '''' then False else if dr_version d = '''' then False else True)"

definition GetPluginCapabilities :: "plugin_cap list" where
  "GetPluginCapabilities = [CONTROLLER_SERVICE]"

section \<open>The log of gRPC calls\<close>

definition getLogLevel :: "string \<Rightarrow> nat" where
  "getLogLevel method =
     (if method = ''/csi.v1.Identity/Probe'' \<or> method = ''/csi.v1.Node/NodeGetCapabilities''
       \<or> method = ''/csi.v1.Node/NodeGetVolumeStats'' then 8 else 2)"

text \<open>
  \<open>logGRPC\<close> around a handler: the lines it logs, with their verbosity and the message or error in it,
  and the answer. \<open>strip\<close> is \<open>protosanitizer.StripSecrets\<close>.
\<close>

datatype ('q, 'p) grpc_line = CallLine nat string | RequestLine nat 'q | ErrorLine gerr | ResponseLine nat 'p

definition logGRPC ::
    "('q \<Rightarrow> 'q) \<Rightarrow> ('p \<Rightarrow> 'p) \<Rightarrow> string \<Rightarrow> 'q \<Rightarrow> ('q \<Rightarrow> ('s, gerr + 'p) state)
     \<Rightarrow> ('s, (gerr + 'p) \<times> ('q, 'p) grpc_line list) state" where
  "logGRPC strip strip' method req handler = do {
     let level = getLogLevel method;
     r \<leftarrow> handler req;
     State_Monad.return (r, [CallLine level method, RequestLine level (strip req)]
       @ [case r of Inl e \<Rightarrow> ErrorLine e | Inr resp \<Rightarrow> ResponseLine level (strip' resp)]) }"

section \<open>The process\<close>

text \<open>What the process does beside the node server, in order.\<close>

datatype proc_ev =
    GlobalOptionsInit
  | AccountingStart
  | RemountStates
  | RegisterRcloneCollector
  | RegisterCSICollector
  | RemoveSocket string
  | Listen string string
  | StopServer \<comment> \<open>graceful\<close>
  | ForceStopServer
  | UnmountVolumes
  | StopMetricsServer
  | StopRcServer
  | DumpMounts
  | SyncCaches

text \<open>
  \<open>d.ns\<close> is \<open>pr_ns\<close> with the state \<open>pr_node\<close>; \<open>pr_server\<close> whether \<open>d.server\<close> is set; \<open>pr_collector\<close> and
  \<open>pr_clientset\<close> are the global variables.
\<close>

record process =
  pr_node :: node
  pr_ns :: "node_config option"
  pr_server :: bool
  pr_collector :: "collector option"
  pr_clientset :: "string option"
  pr_log :: "proc_ev list"

datatype registration = Registered | AlreadyRegistered | NotRegistered gerr

record proc_env =
  pe_env :: env
  pe_k8s :: k8s_env
  pe_built :: version_info
  pe_marshal :: "version_info \<Rightarrow> gerr + string"
  pe_globalOptions :: "gerr option"
  pe_registerCSI :: registration
  pe_removeSocket :: "string \<Rightarrow> os_err option"
  pe_listen :: "string \<Rightarrow> string \<Rightarrow> gerr option"
  pe_stopInTime :: bool \<comment> \<open>the graceful stop ends before its 30 seconds are over\<close>

definition note_ev :: "proc_ev \<Rightarrow> (process, unit) state" where
  "note_ev e = modify (\<lambda>p. p\<lparr>pr_log := pr_log p @ [e]\<rparr>)"

text \<open>An operation of the node server, run inside the process.\<close>

definition on_node :: "(node, 'a) state \<Rightarrow> (process, 'a) state" where
  "on_node m = State (\<lambda>p. let (r, n) = run_state m (pr_node p) in (r, p\<lparr>pr_node := n\<rparr>))"

section \<open>Boot\<close>

text \<open>
  An error of a boot step is fatal (\<open>klog.Fatalf\<close>): the process ends. A failed registration of rclone's
  own collector is only logged.
\<close>

definition initMetricsCollector :: "proc_env \<Rightarrow> driver \<Rightarrow> (process, gerr + unit) state" where
  "initMetricsCollector pe d = do {
     c \<leftarrow> gets pr_collector;
     if c \<noteq> None then ok ()
     else do {
       note_ev RegisterRcloneCollector;
       ns \<leftarrow> gets pr_ns;
       modify (\<lambda>p. p\<lparr>pr_collector := Some (newMetricsCollector (dr_nodeID d) (dr_name d) (dr_endpoint d)
          (GetVersion (pe_built pe) (dr_name d)) (ns \<noteq> None))\<rparr>);
       note_ev RegisterCSICollector;
       case pe_registerCSI pe of
         NotRegistered e \<Rightarrow> fail (Wrapf ''failed to register CSI Prometheus collector: %w'' [] e)
       | _ \<Rightarrow> ok () } }"

definition serve :: "proc_env \<Rightarrow> string \<Rightarrow> (process, gerr + unit) state" where
  "serve pe endpoint =
     (case listen_address endpoint of
        Inl e \<Rightarrow> fail e
      | Inr (proto, addr) \<Rightarrow> do {
          removed \<leftarrow> (if proto = ''unix'' then do {
              note_ev (RemoveSocket addr);
              State_Monad.return (case pe_removeSocket pe addr of
                  Some e \<Rightarrow> if oe_not_exist e then None else Some (Errorf ''Failed to remove %s, error: %v'' [S addr, E (OsError e)])
                | None \<Rightarrow> None) }
            else State_Monad.return None);
          case removed of
            Some e \<Rightarrow> fail e
          | None \<Rightarrow>
             (case pe_listen pe proto addr of
                Some e \<Rightarrow> fail (Errorf ''Failed to listen: %v'' [E e])
              | None \<Rightarrow> do { note_ev (Listen proto addr); ok () }) })"

text \<open>The state manager, for a driver that remounts.\<close>

definition boot_state_manager :: "proc_env \<Rightarrow> driver \<Rightarrow> (process, gerr + state_manager option) state" where
  "boot_state_manager pe d =
     (if \<not> dr_remount d then ok None
      else do {
        cl \<leftarrow> gets pr_clientset;
        let (r, cl') = NewMountStateManager (pe_k8s pe) (dr_nodeID d) cl;
        modify (\<lambda>p. p\<lparr>pr_clientset := cl'\<rparr>);
        case r of
          Inl e \<Rightarrow> fail (Errorf ''Failed to initialize mount state manager: %v'' [E e])
        | Inr sm \<Rightarrow> ok (Some sm) })"

definition boot_node_server :: "proc_env \<Rightarrow> driver \<Rightarrow> state_manager option \<Rightarrow> (process, unit) state" where
  "boot_node_server pe d sm = do {
     let cf = NewNodeServer d sm;
     modify (\<lambda>p. p\<lparr>pr_ns := Some cf, pr_node := (pr_node p)\<lparr>locks := NewVolumeLocks, mountContext := [],
        stagedVolumes := [], orphans := []\<rparr>\<rparr>);
     if sm \<noteq> None then do { note_ev RemountStates; on_node (RemountAllStates (pe_env pe) cf); State_Monad.return () }
     else State_Monad.return () }"

text \<open>\<open>Run\<close>, up to the point where the server accepts calls; from the node server on first.\<close>

definition boot_services :: "proc_env \<Rightarrow> driver \<Rightarrow> state_manager option \<Rightarrow> (process, gerr + unit) state" where
  "boot_services pe d sm = do {
     boot_node_server pe d sm;
     m \<leftarrow> initMetricsCollector pe d;
     case m of
       Inl e \<Rightarrow> fail (Errorf ''Failed to initialize CSI metrics collector: %v'' [E e])
     | Inr _ \<Rightarrow> do { modify (\<lambda>p. p\<lparr>pr_server := True\<rparr>); serve pe (dr_endpoint d) } }"

definition Run :: "proc_env \<Rightarrow> driver \<Rightarrow> (process, gerr + unit) state" where
  "Run pe d =
     (case GetVersionYAML (pe_marshal pe) (pe_built pe) (dr_name d) of
        Inl e \<Rightarrow> fail e
      | Inr yaml \<Rightarrow> do {
          note_ev GlobalOptionsInit;
          case pe_globalOptions pe of
            Some e \<Rightarrow> fail (Errorf ''Failed to initialize rclone global options: %v'' [E e])
          | None \<Rightarrow> do {
              note_ev AccountingStart;
              r \<leftarrow> boot_state_manager pe d;
              case r of
                Inl e \<Rightarrow> fail e
              | Inr sm \<Rightarrow> boot_services pe d sm } })"

section \<open>Signals and shutdown\<close>

text \<open>The errors that \<open>errors.Join\<close> joins are kept as a list.\<close>

definition Shutdown :: "proc_env \<Rightarrow> (process, gerr option) state" where
  "Shutdown pe = do {
     server \<leftarrow> gets pr_server;
     (if server then do {
        note_ev StopServer;
        (if pe_stopInTime pe then State_Monad.return () else note_ev ForceStopServer) }
      else State_Monad.return ());
     ns \<leftarrow> gets pr_ns;
     if ns = None then State_Monad.return None
     else do {
       note_ev UnmountVolumes;
       errs \<leftarrow> on_node (UnmountAll (pe_env pe));
       State_Monad.return (if errs = [] then None
         else Some (Errorf ''failed to unmount volumes: %w'' (map E errs))) } }"

text \<open>
  A line of \<open>DumpMountInfo\<close>: the target, the remote, the health, the state of the VFS and the number
  of loaded remotes. The disk cache statistics are an \<open>rc.Params\<close>, so the assertion that they are a
  \<open>map[string]interface{}\<close> fails and the state of the VFS is never filled in.
\<close>

record mount_line =
  ml_target :: string
  ml_remote :: string
  ml_health :: string
  ml_vfs :: string
  ml_remotes :: nat

definition vfs_health :: "vfs_stats \<Rightarrow> string" where
  "vfs_health stats =
     (case vs_errors stats of
        None \<Rightarrow> ''unknown''
      | Some n \<Rightarrow> if n = 0 then ''healthy'' else ''unhealthy (errors: '' @ int_text n @ '')'')"

fun dump_mounts :: "env \<Rightarrow> (string \<times> mount_context) list \<Rightarrow> (node, mount_line list) state" where
  "dump_mounts env [] = State_Monad.return []"
| "dump_mounts env ((target, mc) # ms) = do {
     health \<leftarrow> (case mc_mountPoint mc of
         Some mp \<Rightarrow> if mp_vfs mp then do {
             stats \<leftarrow> call (Rc (VFSStats (mp_id mp))) (\<lambda>h. vfsStats (rc_of env) h (mp_id mp));
             State_Monad.return (vfs_health stats) }
           else State_Monad.return ''unknown''
       | None \<Rightarrow> State_Monad.return ''unknown'');
     more \<leftarrow> dump_mounts env ms;
     State_Monad.return (\<lparr>ml_target = target, ml_remote = mc_remoteName mc, ml_health = health,
       ml_vfs = ''unavailable'', ml_remotes = length (mc_remotes mc)\<rparr> # more) }"

definition DumpMountInfo :: "proc_env \<Rightarrow> (process, mount_line list) state" where
  "DumpMountInfo pe = do {
     ns \<leftarrow> gets pr_ns;
     if ns = None then State_Monad.return []
     else on_node (do { ms \<leftarrow> gets mountContext; dump_mounts (pe_env pe) ms }) }"

definition ForceCacheSync :: "proc_env \<Rightarrow> (process, gerr + unit) state" where
  "ForceCacheSync pe = do {
     ns \<leftarrow> gets pr_ns;
     if ns = None then fail (Errorf ''NodeServer not initialized'' [])
     else do {
       on_node (do { ms \<leftarrow> gets mountContext; for_each (map snd ms) (\<lambda>mc. waitForVFSCacheSync (pe_env pe) (Some mc)) });
       ok () } }"

text \<open>
  \<open>main\<close> after the boot: the signals in the order they arrive; whether the process ended. The
  metrics and the RC server run when they were started.
\<close>

datatype sig = SIGTERM | SIGINT | SIGUSR1 | SIGUSR2

definition terminate :: "proc_env \<Rightarrow> bool \<Rightarrow> bool \<Rightarrow> (process, gerr option) state" where
  "terminate pe metricsSrv rcSrv = do {
     (if metricsSrv then note_ev StopMetricsServer else State_Monad.return ());
     (if rcSrv then note_ev StopRcServer else State_Monad.return ());
     Shutdown pe }"

fun handle_signals :: "proc_env \<Rightarrow> bool \<Rightarrow> bool \<Rightarrow> sig list \<Rightarrow> (process, bool) state" where
  "handle_signals pe metricsSrv rcSrv [] = State_Monad.return False"
| "handle_signals pe metricsSrv rcSrv (sig # sigs) =
     (case sig of
        SIGTERM \<Rightarrow> do { terminate pe metricsSrv rcSrv; State_Monad.return True }
      | SIGINT \<Rightarrow> do { terminate pe metricsSrv rcSrv; State_Monad.return True }
      | SIGUSR1 \<Rightarrow> do { note_ev DumpMounts; DumpMountInfo pe; handle_signals pe metricsSrv rcSrv sigs }
      | SIGUSR2 \<Rightarrow> do { note_ev SyncCaches; ForceCacheSync pe; handle_signals pe metricsSrv rcSrv sigs })"

text \<open>
  The flags of the plugin and what \<open>main\<close> starts from them, before the signals: the metrics server when
  it has an address, the RC server when it is enabled, and the driver.
\<close>

record plugin_flags =
  pf_endpoint :: string
  pf_nodeID :: string
  pf_driverName :: string
  pf_remount :: bool
  pf_staging :: bool
  pf_mountTimeout :: int
  pf_metrics :: metrics_options
  pf_rc :: rc_options

definition DefaultDriverName :: string where "DefaultDriverName = ''rclone.csi.veloxpack.io''"

definition default_flags :: plugin_flags where
  "default_flags = \<lparr>pf_endpoint = ''unix://tmp/csi.sock'', pf_nodeID = '''', pf_driverName = DefaultDriverName,
     pf_remount = False, pf_staging = False, pf_mountTimeout = 90 * 10 ^ 9,
     pf_metrics = new_metrics_options, pf_rc = new_rc_options\<rparr>"

definition plugin_driver :: "string \<Rightarrow> plugin_flags \<Rightarrow> driver" where
  "plugin_driver version fl = NewDriver version
     \<lparr>do_nodeID = pf_nodeID fl, do_driverName = pf_driverName fl, do_endpoint = pf_endpoint fl,
      do_remount = pf_remount fl, do_staging = pf_staging fl, do_mountTimeout = pf_mountTimeout fl\<rparr>"

definition plugin_servers ::
    "(string \<Rightarrow> string \<Rightarrow> gerr + string) \<Rightarrow> rclone_rc \<Rightarrow> (rclone_rc \<Rightarrow> gerr + 'srv) \<Rightarrow> plugin_flags
     \<Rightarrow> gerr + metrics_server option \<times> 'srv option" where
  "plugin_servers listen rc_Opt rcserver_Start fl =
     (case (if mo_metricsAddr (pf_metrics fl) \<noteq> ''''
            then case start_metrics listen (Some (pf_metrics fl)) of Inl e \<Rightarrow> Inl e | Inr srv \<Rightarrow> Inr (Some srv)
            else Inr None) of
        Inl e \<Rightarrow> Inl (Errorf ''Failed to start metrics server: %v'' [E e])
      | Inr metricsSrv \<Rightarrow>
         (if \<not> ro_enabled (pf_rc fl) then Inr (metricsSrv, None)
          else case start_rc rc_Opt rcserver_Start (Some (pf_rc fl)) of
            Inl e \<Rightarrow> Inl (Errorf ''Failed to start RC server: %v'' [E e])
          | Inr rcSrv \<Rightarrow> Inr (metricsSrv, rcSrv)))"

lemma default_flags_servers: "plugin_servers listen rc_Opt rcserver_Start default_flags = Inr (None, None)"
  by (simp add: plugin_servers_def default_flags_def new_metrics_options_def new_rc_options_def)

section \<open>What a driver advertises\<close>

text \<open>The controller calls that are implemented.\<close>

fun controller_implements :: "controller_cap \<Rightarrow> bool" where
  "controller_implements CREATE_DELETE_VOLUME = True"
| "controller_implements PUBLISH_UNPUBLISH_VOLUME = False"

lemma NewDriver_simps [simp]:
  "dr_name (NewDriver version opts) = do_driverName opts" "dr_version (NewDriver version opts) = version"
  "dr_nodeID (NewDriver version opts) = do_nodeID opts" "dr_staging (NewDriver version opts) = do_staging opts"
  "dr_remount (NewDriver version opts) = do_remount opts" "dr_endpoint (NewDriver version opts) = do_endpoint opts"
  by (simp_all add: NewDriver_def AddNodeServiceCapabilities_def AddControllerServiceCapabilities_def)

text \<open>
  A driver advertises what it does. kubelet stages volumes exactly for a driver whose
  publish takes staged volumes; the controller advertises only calls it implements. The
  statistics of a volume are not advertised, although they are implemented and the condition of a
  volume, which is part of them, is; kubelet then never asks for either.
\<close>

theorem NewDriver_advertises:
  "(Rpc STAGE_UNSTAGE_VOLUME \<in> set (NodeGetCapabilities (NewDriver version opts))
      \<longleftrightarrow> cf_staging (NewNodeServer (NewDriver version opts) sm))
   \<and> (\<forall>c. Rpc c \<in> set (ControllerGetCapabilities (NewDriver version opts)) \<longleftrightarrow> controller_implements c)
   \<and> Rpc GET_VOLUME_STATS \<notin> set (NodeGetCapabilities (NewDriver version opts))
   \<and> Rpc VOLUME_CONDITION \<in> set (NodeGetCapabilities (NewDriver version opts))"
proof -
  have "Rpc c \<in> set (ControllerGetCapabilities (NewDriver version opts)) \<longleftrightarrow> controller_implements c" for c
    by (cases c) (simp_all add: ControllerGetCapabilities_def NewDriver_def AddNodeServiceCapabilities_def
        AddControllerServiceCapabilities_def NewControllerServiceCapability_def)
  then show ?thesis
    by (auto simp: NodeGetCapabilities_def NewNodeServer_def NewDriver_def AddNodeServiceCapabilities_def
        AddControllerServiceCapabilities_def NewNodeServiceCapability_def)
qed

lemma Probe_iff_info: "Probe (Some d) \<longleftrightarrow> GetPluginInfo d = Inr (dr_name d, dr_version d)"
  by (simp add: Probe_def GetPluginInfo_def)

section \<open>Running inside the process\<close>

lemma wp_on_node [wp]: "wp (on_node m) Q = (\<lambda>p. wp m (\<lambda>r n. Q r (p\<lparr>pr_node := n\<rparr>)) (pr_node p))"
  by (simp add: wp_def on_node_def fun_eq_iff split: prod.split)

lemma wp_note_ev [wp]: "wp (note_ev e) Q = (\<lambda>p. Q () (p\<lparr>pr_log := pr_log p @ [e]\<rparr>))"
  by (simp add: note_ev_def wp)

section \<open>Boot\<close>

definition fresh_node :: "node \<Rightarrow> node" where
  "fresh_node s = s\<lparr>locks := NewVolumeLocks, mountContext := [], stagedVolumes := [], orphans := []\<rparr>"

text \<open>What a boot needs from the outside; that every volume can be remounted is not among it.\<close>

definition socket_removable :: "proc_env \<Rightarrow> string \<Rightarrow> bool" where
  "socket_removable pe addr = (case pe_removeSocket pe addr of None \<Rightarrow> True | Some e \<Rightarrow> oe_not_exist e)"

definition can_listen :: "proc_env \<Rightarrow> string \<Rightarrow> bool" where
  "can_listen pe endpoint =
     (case listen_address endpoint of
        Inl _ \<Rightarrow> False
      | Inr (proto, addr) \<Rightarrow> (proto = ''unix'' \<longrightarrow> socket_removable pe addr) \<and> pe_listen pe proto addr = None)"

definition manager_of :: "proc_env \<Rightarrow> driver \<Rightarrow> string option \<Rightarrow> gerr + state_manager option" where
  "manager_of pe d cl =
     (if dr_remount d
      then case fst (NewMountStateManager (pe_k8s pe) (dr_nodeID d) cl) of Inl e \<Rightarrow> Inl e | Inr sm \<Rightarrow> Inr (Some sm)
      else Inr None)"

definition bootable :: "proc_env \<Rightarrow> driver \<Rightarrow> string option \<Rightarrow> bool" where
  "bootable pe d cl \<longleftrightarrow>
     (case GetVersionYAML (pe_marshal pe) (pe_built pe) (dr_name d) of Inl _ \<Rightarrow> False | Inr _ \<Rightarrow> True)
     \<and> pe_globalOptions pe = None \<and> (case manager_of pe d cl of Inl _ \<Rightarrow> False | Inr _ \<Rightarrow> True)
     \<and> (case pe_registerCSI pe of NotRegistered _ \<Rightarrow> False | _ \<Rightarrow> True) \<and> can_listen pe (dr_endpoint d)"

text \<open>The log of a boot and the node server it leaves.\<close>

definition boot_log :: "driver \<Rightarrow> string \<Rightarrow> string \<Rightarrow> proc_ev list" where
  "boot_log d proto addr =
     [GlobalOptionsInit, AccountingStart] @ (if dr_remount d then [RemountStates] else [])
       @ [RegisterRcloneCollector, RegisterCSICollector] @ (if proto = ''unix'' then [RemoveSocket addr] else [])
       @ [Listen proto addr]"

definition booted_node :: "proc_env \<Rightarrow> driver \<Rightarrow> state_manager option \<Rightarrow> node \<Rightarrow> node" where
  "booted_node pe d sm s =
     (if sm = None then fresh_node s
      else snd (run_state (RemountAllStates (pe_env pe) (NewNodeServer d sm)) (fresh_node s)))"

lemma wp_serve:
  "wp (serve pe endpoint) (\<lambda>r p'. (r = Inr () \<longleftrightarrow> can_listen pe endpoint)
     \<and> pr_ns p' = pr_ns p \<and> pr_node p' = pr_node p \<and> pr_server p' = pr_server p
     \<and> (r = Inr () \<longrightarrow> (\<exists>proto addr. listen_address endpoint = Inr (proto, addr)
          \<and> pr_log p' = pr_log p @ (if proto = ''unix'' then [RemoveSocket addr] else []) @ [Listen proto addr]))) p"
  by (auto simp: serve_def can_listen_def socket_removable_def wp split: sum.split option.split)

lemma wp_boot_state_manager:
  "wp (boot_state_manager pe d) (\<lambda>r p'. pr_collector p' = pr_collector p \<and> pr_node p' = pr_node p \<and> pr_log p' = pr_log p
     \<and> (case manager_of pe d (pr_clientset p) of Inl e \<Rightarrow> \<exists>e'. r = Inl e' | Inr sm \<Rightarrow> r = Inr sm)) p"
  by (auto simp: boot_state_manager_def manager_of_def wp split: prod.split sum.split)

lemma wp_boot_node_server:
  "wp (boot_node_server pe d sm) (\<lambda>_ p'. p' = p\<lparr>pr_ns := Some (NewNodeServer d sm), pr_node := booted_node pe d sm (pr_node p),
     pr_log := pr_log p @ (if sm = None then [] else [RemountStates])\<rparr>) p"
  by (auto simp: boot_node_server_def booted_node_def fresh_node_def wp wp_def Let_def split: prod.split)

lemma wp_initMetricsCollector:
  assumes "pr_collector p = None"
  shows "wp (initMetricsCollector pe d) (\<lambda>r p'. (r = Inr () \<longleftrightarrow> (case pe_registerCSI pe of NotRegistered _ \<Rightarrow> False | _ \<Rightarrow> True))
     \<and> (\<exists>c. p' = p\<lparr>pr_collector := Some c, pr_log := pr_log p @ [RegisterRcloneCollector, RegisterCSICollector]\<rparr>
          \<and> c_hasNodeServer c = (pr_ns p \<noteq> None))) p"
  using assms by (auto simp: initMetricsCollector_def newMetricsCollector_def Let_def wp split: registration.split)

text \<open>The run of a boot, from the outcomes of its parts.\<close>

definition served :: "proc_env \<Rightarrow> driver \<Rightarrow> process \<Rightarrow> process \<Rightarrow> bool" where
  "served pe d p p' \<longleftrightarrow> (\<exists>proto addr sm. listen_address (dr_endpoint d) = Inr (proto, addr)
     \<and> manager_of pe d (pr_clientset p) = Inr sm
     \<and> pr_server p' \<and> pr_ns p' = Some (NewNodeServer d sm) \<and> pr_node p' = booted_node pe d sm (pr_node p)
     \<and> pr_log p' = pr_log p @ boot_log d proto addr)"

lemma manager_iff_remount: "manager_of pe d cl = Inr sm \<Longrightarrow> sm = None \<longleftrightarrow> \<not> dr_remount d"
  by (auto simp: manager_of_def split: if_splits sum.splits)

lemma wp_boot_services:
  assumes "pr_collector p = None" and "manager_of pe d (pr_clientset p0) = Inr sm"
    and "pr_node p = pr_node p0" and "pr_log p = pr_log p0 @ [GlobalOptionsInit, AccountingStart]"
    and "case GetVersionYAML (pe_marshal pe) (pe_built pe) (dr_name d) of Inl _ \<Rightarrow> False | Inr _ \<Rightarrow> True"
    and "pe_globalOptions pe = None"
  shows "wp (boot_services pe d sm) (\<lambda>r p'. (r = Inr () \<longleftrightarrow> bootable pe d (pr_clientset p0)) \<and> (r = Inr () \<longrightarrow> served pe d p0 p')) p"
  unfolding boot_services_def wp_bind
proof (rule wp_mono [OF wp_boot_node_server], rule wp_mono [OF wp_initMetricsCollector])
  fix p1 p2 and m :: "gerr + unit"
  assume p1: "p1 = p\<lparr>pr_ns := Some (NewNodeServer d sm), pr_node := booted_node pe d sm (pr_node p),
     pr_log := pr_log p @ (if sm = None then [] else [RemountStates])\<rparr>"
  show "pr_collector p1 = None" using p1 assms(1) by simp
  assume m: "(m = Inr () \<longleftrightarrow> (case pe_registerCSI pe of NotRegistered _ \<Rightarrow> False | _ \<Rightarrow> True))
     \<and> (\<exists>c. p2 = p1\<lparr>pr_collector := Some c, pr_log := pr_log p1 @ [RegisterRcloneCollector, RegisterCSICollector]\<rparr>
          \<and> c_hasNodeServer c = (pr_ns p1 \<noteq> None))"
  then obtain c where p2: "p2 = p1\<lparr>pr_collector := Some c, pr_log := pr_log p1 @ [RegisterRcloneCollector, RegisterCSICollector]\<rparr>"
    by blast
  have boot: "bootable pe d (pr_clientset p0) \<longleftrightarrow> m = Inr () \<and> can_listen pe (dr_endpoint d)"
    using m assms(2,5,6) by (simp add: bootable_def)
  have log: "(if sm = None then [] else [RemountStates]) = (if dr_remount d then [RemountStates] else [])"
    using manager_iff_remount [OF assms(2)] by simp
  show "wp (case m of
         Inl e \<Rightarrow> fail (Errorf ''Failed to initialize CSI metrics collector: %v'' [E e])
       | Inr _ \<Rightarrow> State_Monad.bind (modify (\<lambda>p. p\<lparr>pr_server := True\<rparr>)) (\<lambda>_. serve pe (dr_endpoint d)))
     (\<lambda>r p'. (r = Inr () \<longleftrightarrow> bootable pe d (pr_clientset p0)) \<and> (r = Inr () \<longrightarrow> served pe d p0 p')) p2"
  proof (cases m)
    case (Inl e)
    then show ?thesis using boot by (simp add: wp)
  next
    case (Inr u)
    then have can: "bootable pe d (pr_clientset p0) \<longleftrightarrow> can_listen pe (dr_endpoint d)" using boot by simp
    show ?thesis
      unfolding Inr sum.case wp_bind wp_modify can
    proof (rule wp_mono [OF wp_serve])
      fix r and p' :: process
      let ?p2 = "p2\<lparr>pr_server := True\<rparr>"
      assume r: "(r = Inr () \<longleftrightarrow> can_listen pe (dr_endpoint d))
        \<and> pr_ns p' = pr_ns ?p2 \<and> pr_node p' = pr_node ?p2 \<and> pr_server p' = pr_server ?p2
        \<and> (r = Inr () \<longrightarrow> (\<exists>proto addr. listen_address (dr_endpoint d) = Inr (proto, addr)
             \<and> pr_log p' = pr_log ?p2 @ (if proto = ''unix'' then [RemoveSocket addr] else []) @ [Listen proto addr]))"
      with r show "(r = Inr () \<longleftrightarrow> can_listen pe (dr_endpoint d)) \<and> (r = Inr () \<longrightarrow> served pe d p0 p')"
        using p1 p2 assms(2,3,4) log by (auto simp: served_def boot_log_def)
    qed
  qed
qed

text \<open>
  A driver comes up, with its server listening at the address of its endpoint, exactly when the
  version, rclone's options, the mount state manager of a driver that remounts, the metrics and the
  socket are set up; that saved volumes cannot be remounted does not keep it from serving. A
  driver that remounts has tried to remount every saved state before it accepts the first call, and the node
  server that serves has just the mounts this left.
\<close>

theorem Run_serves:
  assumes "pr_collector p = None" and "run_state (Run pe d) p = (r, p')"
  shows "(r = Inr () \<longleftrightarrow> bootable pe d (pr_clientset p)) \<and> (r = Inr () \<longrightarrow> served pe d p p')"
proof -
  let ?Q = "\<lambda>r p'. (r = Inr () \<longleftrightarrow> bootable pe d (pr_clientset p)) \<and> (r = Inr () \<longrightarrow> served pe d p p')"
  have "wp (Run pe d) ?Q p"
  proof (cases "GetVersionYAML (pe_marshal pe) (pe_built pe) (dr_name d)")
    case (Inl e)
    then show ?thesis by (simp add: Run_def bootable_def wp)
  next
    case version: (Inr yaml)
    show ?thesis
    proof (cases "pe_globalOptions pe")
      case (Some e)
      with version show ?thesis by (simp add: Run_def bootable_def wp)
    next
      case None
      let ?p = "p\<lparr>pr_log := pr_log p @ [GlobalOptionsInit, AccountingStart]\<rparr>"
      have rest: "wp (case q of Inl e \<Rightarrow> fail e | Inr sm \<Rightarrow> boot_services pe d sm) ?Q p1"
        if p1: "pr_collector p1 = pr_collector ?p" "pr_node p1 = pr_node ?p" "pr_log p1 = pr_log ?p"
          and q: "case manager_of pe d (pr_clientset ?p) of Inl e \<Rightarrow> \<exists>e'. q = Inl e' | Inr sm \<Rightarrow> q = Inr sm" for q p1
      proof (cases "manager_of pe d (pr_clientset p)")
        case (Inl e)
        then show ?thesis using q by (auto simp: bootable_def wp)
      next
        case (Inr sm)
        have "pr_collector p1 = None" using p1(1) assms(1) by simp
        from wp_boot_services [OF this Inr _ _ _ None] p1 show ?thesis
          using q Inr version by simp
      qed
      show ?thesis
        unfolding Run_def version None sum.case option.case wp_bind wp_note_ev
        by (rule wp_mono [OF wp_boot_state_manager]) (use rest in \<open>auto simp del: wp_bind\<close>)
    qed
  qed
  from wp_runD [OF this assms(2)] show ?thesis .
qed

section \<open>Shutdown\<close>

definition no_kube :: "ev \<Rightarrow> bool" where
  "no_kube e \<longleftrightarrow> (\<forall>k. e \<noteq> Kube k)"

lemma no_kube_simps [simp]:
  "no_kube (Os c)" "no_kube (Rc c')" "no_kube (Cancel n)" "no_kube (Cfg f)" "no_kube (Sleep d)" "no_kube Now" "no_kube Select"
  "\<not> no_kube (Kube k)"
  by (simp_all add: no_kube_def)

lemma adds_UnmountAll: "adds no_kube (UnmountAll env)"
proof -
  have "adds no_kube (unmountVolume env mc t)" for mc t
    by (auto simp: unmountVolume_def intro!: frame split: option.split)
  then have "adds no_kube (unmount_each env pms errs)" for pms errs
    by (induction pms arbitrary: errs) (auto simp: unmount_one_def intro!: frame)
  then show ?thesis by (auto simp: UnmountAll_def intro!: frame split: select_case.split)
qed

text \<open>Unmounting removes the entries of the volumes it unmounted; with no error, all of them.\<close>

lemma wp_unmount_one:
  "wp (unmount_one env (path, mc) errs) (\<lambda>errs' s'. if errs' = errs then mount_at s' = (mount_at s)(path := None)
     else mount_at s' = mount_at s \<and> (\<exists>e. errs' = errs @ [e])) s"
proof -
  have "keeps mount_at (unmountVolume env (Some mc) path)" by (auto intro!: frame)
  from wp_keeps [OF this, of s] show ?thesis
    unfolding unmount_one_def prod.case wp_bind
    by (rule wp_mono) (simp add: wp split: option.split)
qed

lemma wp_unmount_each:
  "wp (unmount_each env pms errs) (\<lambda>errs' s'. (\<exists>more. errs' = errs @ more)
     \<and> (\<forall>t. mount_at s' t = mount_at s t \<or> mount_at s' t = None)
     \<and> (errs' = errs \<longrightarrow> (\<forall>t \<in> set (keys pms). mount_at s' t = None))) s"
proof (induction pms arbitrary: errs s)
  case (Cons pm pms)
  obtain path mc where pm: "pm = (path, mc)" by fastforce
  show ?case
    unfolding pm unmount_each.simps wp_bind
  proof (rule wp_mono [OF wp_unmount_one], rule wp_mono [OF Cons.IH])
    fix errs1 errs2 :: "gerr list" and s1 s2 :: node
    assume one: "if errs1 = errs then mount_at s1 = (mount_at s)(path := None)
        else mount_at s1 = mount_at s \<and> (\<exists>e. errs1 = errs @ [e])"
      and rest: "(\<exists>more. errs2 = errs1 @ more) \<and> (\<forall>t. mount_at s2 t = mount_at s1 t \<or> mount_at s2 t = None)
        \<and> (errs2 = errs1 \<longrightarrow> (\<forall>t \<in> set (keys pms). mount_at s2 t = None))"
    show "(\<exists>more. errs2 = errs @ more) \<and> (\<forall>t. mount_at s2 t = mount_at s t \<or> mount_at s2 t = None)
        \<and> (errs2 = errs \<longrightarrow> (\<forall>t \<in> set (keys ((path, mc) # pms)). mount_at s2 t = None))"
    proof (cases "errs1 = errs")
      case True
      with one have s1: "mount_at s1 = (mount_at s)(path := None)" by (simp only: if_True)
      have kept: "mount_at s2 t = mount_at s1 t \<or> mount_at s2 t = None" for t
        using rest by (elim conjE) (rule spec)
      have "mount_at s2 t = mount_at s t \<or> mount_at s2 t = None" for t
        using kept [of t] by (cases "t = path") (simp_all add: s1)
      moreover have "mount_at s2 path = None" using kept [of path] by (simp add: s1)
      ultimately show ?thesis using rest True by simp
    next
      case False
      with one have s1: "mount_at s1 = mount_at s" and "\<exists>e. errs1 = errs @ [e]" by (simp_all only: if_False)
      then obtain e where "errs1 = errs @ [e]" by blast
      with rest show ?thesis unfolding s1 by auto
    qed
  qed
qed (simp add: wp)

lemma wp_UnmountAll:
  "wp (UnmountAll env) (\<lambda>errs s'. (\<forall>t. mount_at s' t = mount_at s t \<or> mount_at s' t = None)
     \<and> (errs = [] \<longrightarrow> mount_at s' = Map.empty)) s"
proof (cases "mountContext s = []")
  case True
  then show ?thesis by (simp add: UnmountAll_def wp fun_eq_iff) (simp add: mount_at_def)
next
  case False
  have none: "mount_at s' = Map.empty" if "\<forall>t. mount_at s' t = mount_at s t \<or> mount_at s' t = None"
    and "\<forall>t \<in> set (keys (mountContext s)). mount_at s' t = None" for s'
  proof
    fix t
    show "mount_at s' t = None"
      using that(1) [rule_format, of t] that(2)
      by (cases "t \<in> set (keys (mountContext s))") (auto simp: mount_at_def [of s] map_of_eq_None_iff [THEN iffD2])
  qed
  let ?P = "\<lambda>errs s'. (\<forall>t. mount_at s' t = mount_at s t \<or> mount_at s' t = None) \<and> (errs = [] \<longrightarrow> mount_at s' = Map.empty)"
  have select: "wp (State_Monad.bind (call Select (select_of env)) (\<lambda>sel. case sel of
        CtxDone deadline \<Rightarrow> State_Monad.return [Wrapf ''unmount timeout: %w'' [] (from_context_error deadline)]
      | _ \<Rightarrow> State_Monad.return errs)) ?P s1"
    if "?P errs s1" for errs s1
    using that by (simp add: wp split: select_case.split)
  show ?thesis
    using False unfolding UnmountAll_def wp_bind wp_gets
    by (simp add: wp_bind del: wp_call)
      (rule wp_mono [OF wp_unmount_each], rule select [unfolded wp_bind], elim conjE exE, simp, intro impI none, simp_all)
qed


section \<open>Signals\<close>

lemma wp_sync_all:
  "wp (for_each mcs (\<lambda>mc. waitForVFSCacheSync env (Some mc)))
     (\<lambda>_ s'. slept (trace s') \<le> slept (trace s) + int (length mcs) * (30 * 10 ^ 9)) s"
proof (induction mcs arbitrary: s)
  case (Cons mc mcs)
  show ?case
    unfolding wp_for_each_Cons
    by (rule wp_mono [OF waitForVFSCacheSync_sleeps], rule wp_mono [OF Cons.IH]) (simp add: algebra_simps)
qed (simp add: wp)

lemma adds_dump: "adds (\<lambda>e. \<exists>c. e = Rc c) (dump_mounts env ms)"
  by (induction env ms rule: dump_mounts.induct) (auto intro!: frame)

lemma keeps_dump: "off_world p \<Longrightarrow> keeps p (dump_mounts env ms)"
  by (induction env ms rule: dump_mounts.induct) (auto intro!: frame)

text \<open>The two signals that do not end the process leave the mounts, and sleep only to synchronise caches.\<close>

definition signal_kept :: "int \<Rightarrow> process \<Rightarrow> process \<Rightarrow> bool" where
  "signal_kept bound p p' \<longleftrightarrow> mountContext (pr_node p') = mountContext (pr_node p) \<and> pr_ns p' = pr_ns p
     \<and> slept (trace (pr_node p')) \<le> slept (trace (pr_node p)) + bound"

lemma wp_DumpMountInfo: "wp (DumpMountInfo pe) (\<lambda>_. signal_kept 0 p) p"
proof -
  let ?m = "do { ms \<leftarrow> gets mountContext; dump_mounts (pe_env pe) ms }"
  obtain ls n where run: "run_state ?m (pr_node p) = (ls, n)" by fastforce
  have "adds (\<lambda>e. \<exists>c. e = Rc c) ?m" by (auto intro!: frame adds_dump)
  from adds_run [OF this run] obtain es where es: "trace n = trace (pr_node p) @ es" "list_all (\<lambda>e. \<exists>c. e = Rc c) es" .
  have "slept es = 0" using es(2) by (induction es) auto
  moreover have "keeps mountContext ?m" by (auto intro!: frame keeps_dump)
  ultimately have "wp (on_node ?m) (\<lambda>_. signal_kept 0 p) p"
    using es(1) keeps_run [of mountContext ?m, OF _ run] unfolding wp_on_node wp_run [OF run] by (simp add: signal_kept_def)
  then show ?thesis
    by (simp add: DumpMountInfo_def wp_bind wp_gets wp_if wp_return) (simp add: signal_kept_def)
qed

lemma wp_ForceCacheSync:
  "wp (ForceCacheSync pe) (\<lambda>_. signal_kept (int (length (mountContext (pr_node p))) * (30 * 10 ^ 9)) p) p"
proof -
  let ?m = "do { ms \<leftarrow> gets mountContext; for_each (map snd ms) (\<lambda>mc. waitForVFSCacheSync (pe_env pe) (Some mc)) }"
  let ?b = "int (length (mountContext (pr_node p))) * (30 * 10 ^ 9)"
  have kept: "keeps mountContext ?m" by (auto intro!: frame)
  have sleeps: "wp ?m (\<lambda>_ s'. slept (trace s') \<le> slept (trace (pr_node p)) + ?b) (pr_node p)"
    using wp_sync_all [of "map snd (mountContext (pr_node p))"] by (simp add: wp_bind wp_gets)
  have "wp (on_node ?m) (\<lambda>_. signal_kept ?b p) p"
    unfolding wp_on_node
    by (rule wp_mono [OF wp_conjI [OF wp_keeps [OF kept] sleeps]]) (simp add: signal_kept_def)
  then show ?thesis
    by (simp add: ForceCacheSync_def wp_bind wp_gets wp_if wp_return) (simp add: signal_kept_def)
qed

lemma signal_kept_trans:
  "signal_kept b p q \<Longrightarrow> signal_kept b' q r \<Longrightarrow> signal_kept (b + b') p r"
  by (simp add: signal_kept_def)

lemma signal_kept_log [simp]: "signal_kept b (p\<lparr>pr_log := l\<rparr>) q \<longleftrightarrow> signal_kept b p q"
  by (simp add: signal_kept_def)

lemma signals_kept:
  assumes "set sigs \<subseteq> {SIGUSR1, SIGUSR2}"
  shows "\<exists>q. signal_kept (int (count_list sigs SIGUSR2) * (int (length (mountContext (pr_node p))) * (30 * 10 ^ 9))) p q
    \<and> run_state (handle_signals pe metricsSrv rcSrv (sigs @ rest)) p = run_state (handle_signals pe metricsSrv rcSrv rest) q"
  using assms
proof (induction sigs arbitrary: p)
  case Nil
  show ?case by (rule exI [of _ p]) (simp add: signal_kept_def)
next
  case (Cons sig sigs)
  let ?b = "int (length (mountContext (pr_node p))) * (30 * 10 ^ 9)"
  consider "sig = SIGUSR1" | "sig = SIGUSR2" using Cons.prems by auto
  then show ?case
  proof cases
    case 1
    let ?p = "p\<lparr>pr_log := pr_log p @ [DumpMounts]\<rparr>"
    obtain ls p1 where run: "run_state (DumpMountInfo pe) ?p = (ls, p1)" by fastforce
    have kept: "signal_kept 0 p p1" using wp_runD [OF wp_DumpMountInfo run] by simp
    then have "length (mountContext (pr_node p1)) = length (mountContext (pr_node p))" by (simp add: signal_kept_def)
    with Cons.IH [of p1] Cons.prems obtain q where "signal_kept (int (count_list sigs SIGUSR2) * ?b) p1 q"
        "run_state (handle_signals pe metricsSrv rcSrv (sigs @ rest)) p1 = run_state (handle_signals pe metricsSrv rcSrv rest) q"
      by auto
    then show ?thesis
      using 1 run signal_kept_trans [OF kept] by (intro exI [of _ q]) (simp add: note_ev_def)
  next
    case 2
    let ?p = "p\<lparr>pr_log := pr_log p @ [SyncCaches]\<rparr>"
    obtain r p1 where run: "run_state (ForceCacheSync pe) ?p = (r, p1)" by fastforce
    have kept: "signal_kept ?b p p1" using wp_runD [OF wp_ForceCacheSync run] by simp
    then have "length (mountContext (pr_node p1)) = length (mountContext (pr_node p))" by (simp add: signal_kept_def)
    with Cons.IH [of p1] Cons.prems obtain q where q: "signal_kept (int (count_list sigs SIGUSR2) * ?b) p1 q"
        "run_state (handle_signals pe metricsSrv rcSrv (sigs @ rest)) p1 = run_state (handle_signals pe metricsSrv rcSrv rest) q"
      by auto
    have "?b + int (count_list sigs SIGUSR2) * ?b = int (count_list (sig # sigs) SIGUSR2) * ?b"
      using 2 by (simp add: algebra_simps)
    with signal_kept_trans [OF kept q(1)] have "signal_kept (int (count_list (sig # sigs) SIGUSR2) * ?b) p q" by (simp only:)
    then show ?thesis
      using 2 run q(2) by (intro exI [of _ q] conjI) (simp_all add: note_ev_def)
  qed
qed

text \<open>
  Property C39: until a signal ends the process, nothing is mounted or unmounted; it then ends with one
  shutdown, after the metrics and the RC server were stopped, and later signals have no effect. The
  signals are handled one after the other, so the shutdown starts only when the cache syncs before it
  are done: they can take half a minute for each mount and each request.
\<close>

theorem signals_before_termination:
  assumes "set sigs \<subseteq> {SIGUSR1, SIGUSR2}" and "t \<in> {SIGTERM, SIGINT}"
    and "run_state (handle_signals pe metricsSrv rcSrv (sigs @ t # rest)) p = (ended, p')"
  shows "\<exists>q e. ended \<and> run_state (terminate pe metricsSrv rcSrv) q = (e, p')
    \<and> mountContext (pr_node q) = mountContext (pr_node p) \<and> pr_ns q = pr_ns p
    \<and> slept (trace (pr_node q)) \<le> slept (trace (pr_node p))
         + int (count_list sigs SIGUSR2) * (int (length (mountContext (pr_node p))) * (30 * 10 ^ 9))"
proof -
  obtain q where q: "signal_kept (int (count_list sigs SIGUSR2) * (int (length (mountContext (pr_node p))) * (30 * 10 ^ 9))) p q"
      "run_state (handle_signals pe metricsSrv rcSrv (t # rest)) q = (ended, p')"
    using signals_kept [OF assms(1), of p pe metricsSrv rcSrv "t # rest"] assms(3) by auto
  obtain e p1 where run: "run_state (terminate pe metricsSrv rcSrv) q = (e, p1)" by fastforce
  have "ended \<and> p1 = p'" using assms(2) q(2) run by auto
  with q(1) run show ?thesis by (auto simp: signal_kept_def)
qed

section \<open>An example\<close>

definition example_k8s :: k8s_env where
  "example_k8s = \<lparr>inClusterConfig = ClusterConfig ''sa'', clientConfig = Inl (ExtError ''no config''),
     newForConfig = (\<lambda>c. Inr c), csi_namespace = ''csi''\<rparr>"

definition example_pe :: proc_env where
  "example_pe = \<lparr>pe_env = example_env, pe_k8s = example_k8s, pe_built = example_version, pe_marshal = (\<lambda>v. Inr (vi_driverName v)),
     pe_globalOptions = None, pe_registerCSI = Registered, pe_removeSocket = (\<lambda>a. Some no_os_err),
     pe_listen = (\<lambda>proto a. None), pe_stopInTime = False\<rparr>"

definition example_rclone_driver :: driver where
  "example_rclone_driver = plugin_driver ''v1'' (default_flags\<lparr>pf_nodeID := ''n1'', pf_remount := True, pf_staging := True\<rparr>)"

definition example_process :: process where
  "example_process = \<lparr>pr_node = initial_node, pr_ns = None, pr_server = False, pr_collector = None, pr_clientset = None, pr_log = []\<rparr>"

definition mounted_process :: process where
  "mounted_process = example_process\<lparr>pr_node := initial_node\<lparr>mountContext := [(''/t'', example_mount 1)]\<rparr>,
     pr_ns := Some (NewNodeServer example_rclone_driver None), pr_server := True\<rparr>"

theorem Run_serves_witness:
  "\<exists>p'. run_state (Run example_pe example_rclone_driver) example_process = (Inr (), p')
     \<and> pr_log p' = [GlobalOptionsInit, AccountingStart, RemountStates, RegisterRcloneCollector, RegisterCSICollector,
          RemoveSocket ''/tmp/csi.sock'', Listen ''unix'' ''/tmp/csi.sock'']"
proof -
  obtain r p' where run: "run_state (Run example_pe example_rclone_driver) example_process = (r, p')" by fastforce
  have "pr_collector example_process = None" by (simp add: example_process_def)
  note serves = Run_serves [OF this run]
  have boot: "bootable example_pe example_rclone_driver (pr_clientset example_process)" by code_simp
  have addr: "listen_address (dr_endpoint example_rclone_driver) = Inr (''unix'', ''/tmp/csi.sock'')"
    and remount: "dr_remount example_rclone_driver" by code_simp+
  have "r = Inr ()" "served example_pe example_rclone_driver example_process p'" using serves boot by blast+
  then show ?thesis
    using run addr remount by (auto simp: served_def boot_log_def example_process_def)
qed


theorem signals_before_termination_witness:
  "\<exists>p' q e. run_state (handle_signals example_pe True False ([SIGUSR1, SIGUSR2] @ SIGTERM # [SIGUSR1])) mounted_process = (True, p')
     \<and> run_state (terminate example_pe True False) q = (e, p')
     \<and> slept (trace (pr_node q)) \<le> 30 * 10 ^ 9"
proof -
  obtain r p' where run:
    "run_state (handle_signals example_pe True False ([SIGUSR1, SIGUSR2] @ SIGTERM # [SIGUSR1])) mounted_process = (r, p')" by fastforce
  have "slept (trace (pr_node mounted_process)) = 0" "length (mountContext (pr_node mounted_process)) = 1"
    by (simp_all add: mounted_process_def example_process_def initial_node_def)
  with signals_before_termination [OF _ _ run] run show ?thesis by auto
qed

end
