(* ===== verification/Op_Boot.thy ===== *)
theory Op_Boot
  imports Op_Restart Driver
begin

text \<open>
  The start of the operator (cmd/volume-recovery-operator/main.go): its flags, the checks that end the
  process, and the reconciler, tracker and loops it configures from them.
\<close>

section \<open>Flags\<close>

record operator_flags =
  om_kubeletDir :: string
  om_provisioner :: string
  om_scanInterval :: int
  om_nodeName :: string
  om_csiNodeLabel :: string
  om_csiRestartRecovery :: bool
  om_csiRestartReadyTimeout :: int
  om_mountProbeTimeout :: int
  om_orphanLazyUmount :: bool
  om_orphanFuseAbort :: bool
  om_orphanKillMountProcess :: bool

definition operator_defaults :: operator_flags where
  "operator_defaults = \<lparr>om_kubeletDir = ''/var/lib/kubelet'', om_provisioner = DefaultDriverName,
     om_scanInterval = 60 * 10 ^ 9, om_nodeName = '''', om_csiNodeLabel = defaultCSINodeLabelSelector,
     om_csiRestartRecovery = True, om_csiRestartReadyTimeout = defaultCSIReadyTimeout,
     om_mountProbeTimeout = 3 * 10 ^ 9, om_orphanLazyUmount = True, om_orphanFuseAbort = True,
     om_orphanKillMountProcess = True\<rparr>"

section \<open>Boot\<close>

text \<open>
  \<open>NODE_NAME\<close> is the environment variable; \<open>config\<close> and \<open>newClient\<close> answer \<open>rest.InClusterConfig\<close>
  and \<open>kubernetes.NewForConfig\<close>. An error is fatal.
\<close>

definition configured_reconciler :: "operator_flags \<Rightarrow> string \<Rightarrow> reconciler" where
  "configured_reconciler fl nodeName =
     SetMountProbeTimeout (om_mountProbeTimeout fl)
       (SetOrphanKillMountProcess (om_orphanKillMountProcess fl)
         (SetOrphanFuseAbort (om_orphanFuseAbort fl)
           (SetOrphanLazyUmount (om_orphanLazyUmount fl)
             (SetKubeletDir (om_kubeletDir fl)
               (SetEventRecorder True (NewReconciler nodeName (om_provisioner fl)))))))"

definition operator_boot ::
    "string \<Rightarrow> gerr + string \<Rightarrow> (string \<Rightarrow> gerr + string) \<Rightarrow> operator_flags \<Rightarrow> gerr + reconciler \<times> tracker \<times> op_flags" where
  "operator_boot NODE_NAME config newClient fl =
     (if om_scanInterval fl \<le> 0 then Inl (Errorf ''scan interval must be positive'' [])
      else
        let nodeName = (if om_nodeName fl = '''' then NODE_NAME else om_nodeName fl) in
        if nodeName = '''' then Inl (Errorf ''node name is required: set --node-name or NODE_NAME'' [])
        else case config of
          Inl e \<Rightarrow> Inl (Errorf ''failed to load in-cluster config: %v'' [E e])
        | Inr cfg \<Rightarrow>
            (case newClient cfg of
               Inl e \<Rightarrow> Inl (Errorf ''failed to create kubernetes client: %v'' [E e])
             | Inr client \<Rightarrow>
                 Inr (configured_reconciler fl nodeName, NewCSINodeTracker nodeName (om_csiNodeLabel fl),
                   \<lparr>of_kubeletDir = om_kubeletDir fl, of_probeTimeout = om_mountProbeTimeout fl,
                    of_readyTimeout = om_csiRestartReadyTimeout fl, of_csiRestartRecovery = om_csiRestartRecovery fl\<rparr>)))"

section \<open>The configured operator\<close>

lemma configured_reconciler_simps [simp]:
  "oc_nodeName (configured_reconciler fl nodeName) = nodeName"
  "oc_kubeletDir (configured_reconciler fl nodeName) = om_kubeletDir fl"
  "oc_provisioner (configured_reconciler fl nodeName) = om_provisioner fl"
  "oc_cooldown (configured_reconciler fl nodeName) = defaultRecoveryCooldown"
  by (simp_all add: configured_reconciler_def SetMountProbeTimeout_def SetOrphanKillMountProcess_def SetOrphanFuseAbort_def
      SetOrphanLazyUmount_def SetKubeletDir_def SetEventRecorder_def NewReconciler_def)

lemma operator_boot_Inr:
  assumes "operator_boot NODE_NAME config newClient fl = Inr (rc, tc, ofl)"
  shows "rc = configured_reconciler fl (oc_nodeName rc) \<and> oc_nodeName rc \<noteq> '''' \<and> ct_nodeName tc = oc_nodeName rc
    \<and> of_kubeletDir ofl = oc_kubeletDir rc"
  using assms by (auto simp: operator_boot_def Let_def NewCSINodeTracker_def split: if_splits sum.splits)

text \<open>
  With whatever flags the operator was started, it watches and restarts on one node, which
  has a name, and over its whole life it only deletes pods it may restart, two of
  the same workload at least the default cooldown of one hour apart: no flag changes that.
\<close>

theorem started_operator_spaces_restarts:
  assumes "operator_boot NODE_NAME config newClient fl = Inr (rc, tc, ofl)"
    and "clock_ok (base oe)" and "(op_step oe rc tc ofl)\<^sup>*\<^sup>* (operator_start h) s"
  shows "oc_nodeName rc \<noteq> '''' \<and> ct_nodeName tc = oc_nodeName rc
    \<and> (\<exists>log es. trace s = h @ es \<and> deleted oe h es = map (pod_id \<circ> fst) log
         \<and> (\<forall>(p, t) \<in> set log. restartable oe rc p) \<and> spaced defaultRecoveryCooldown log)"
proof -
  have rc: "rc = configured_reconciler fl (oc_nodeName rc)" and boot: "oc_nodeName rc \<noteq> ''''" "ct_nodeName tc = oc_nodeName rc"
    using operator_boot_Inr [OF assms(1)] by simp_all
  have cool: "oc_cooldown rc = defaultRecoveryCooldown" by (subst rc) simp
  then have "0 < oc_cooldown rc" by (simp add: defaultRecoveryCooldown_def)
  from recovery_log_reach [OF this assms(2,3)] show ?thesis
    using boot unfolding recovery_log_def cool by blast
qed

end
