(* ===== verification/Op_Race.thy ===== *)
theory Op_Race
  imports Op_Watch
begin

text \<open>
  The two loops of the operator as they run, in goroutines of their own: a step relation whose steps
  are what one loop does between two points at which the other may come in. Only the
  table of recoveries is shared; the mutex makes a look-up and an entry one step each, the deletion lies between
  them. How far the cooldown holds then, and how it fails.
\<close>

section \<open>A restart in steps\<close>

text \<open>The section of \<open>isRateLimited\<close> under the mutex.\<close>

definition locked_lookup :: "reconciler \<Rightarrow> pod \<Rightarrow> int \<Rightarrow> ('w op_world_scheme, bool) state" where
  "locked_lookup rc pod now = do {
     modify (\<lambda>s. s\<lparr>lastRecovery := pruneExpiredRecoveries rc now (lastRecovery s)\<rparr>);
     found \<leftarrow> gets (\<lambda>s. lastRecovery s (RecoveryKey pod));
     State_Monad.return (case found of Some t \<Rightarrow> now - t < oc_cooldown rc | None \<Rightarrow> False) }"

lemma isRateLimited_steps:
  "isRateLimited oe rc pod now = do {
     limited \<leftarrow> locked_lookup rc pod now;
     if limited then State_Monad.return True else ownerAnnotationRateLimited oe rc pod now }"
  by (rule state.expand) (auto simp: isRateLimited_def locked_lookup_def fun_eq_iff split: option.split)

text \<open>\<open>restartPod\<close> up to the deletion: the known pods of the owner, or the error of the deletion.\<close>

definition delete_pod ::
    "op_env \<Rightarrow> reconciler \<Rightarrow> pod \<Rightarrow> string \<Rightarrow> string \<times> arg list \<Rightarrow> ('w world_scheme, api_err + string list option) state" where
  "delete_pod oe rc pod why message = do {
     emitRecoveryEvents rc pod why message;
     snap \<leftarrow> snapshotOwnerPodUIDs oe pod;
     err \<leftarrow> call (Op (PodDelete (pod_namespace pod) (pod_name pod) (pod_uid pod)))
             (\<lambda>h. podDelete oe h (pod_namespace pod) (pod_name pod) (pod_uid pod));
     State_Monad.return (case err of
        None \<Rightarrow> Inr (case snap of Inl _ \<Rightarrow> None | Inr k \<Rightarrow> k)
      | Some e \<Rightarrow> if e = NotFound then Inr (case snap of Inl _ \<Rightarrow> None | Inr k \<Rightarrow> k) else Inl e) }"

definition annotate_restart :: "reconciler \<Rightarrow> op_env \<Rightarrow> pod \<Rightarrow> int \<Rightarrow> string list option \<Rightarrow> ('w op_world_scheme, unit) state" where
  "annotate_restart rc oe pod now known = do {
     annotateOwner oe pod now;
     scheduleReplacementAnnotate rc pod now known }"

lemma restartPod_steps:
  "restartPod oe rc pod now why message = do {
     r \<leftarrow> delete_pod oe rc pod why message;
     case r of
       Inl e \<Rightarrow> State_Monad.return (Some e)
     | Inr known \<Rightarrow> do {
         markRecovered rc pod now;
         annotate_restart rc oe pod now known;
         State_Monad.return None } }"
  by (rule state.expand)
    (auto simp: restartPod_def delete_pod_def restarted_def annotate_restart_def fun_eq_iff split: option.split prod.split)

section \<open>The two loops\<close>

text \<open>
  Where a loop is: at rest, in a reconciliation that read the clock at \<open>now\<close>, and in it with a pod that the
  table did not limit, that the owner's annotation did not limit either, that is deleted and not yet
  entered into the table, and that is entered.
\<close>

datatype loop = CsiLoop | ScanLoop

datatype stage = Resting | Passing int | Looked int pod | Cleared int pod
  | Gone int pod "string list option" | Entered int pod "string list option"

record racing = op_world +
  stage_of :: "loop \<Rightarrow> stage"
  races :: "(loop \<times> pod \<times> int) list" \<comment> \<open>the deletions so far, with their times\<close>

definition enters :: "loop \<Rightarrow> stage \<Rightarrow> racing \<Rightarrow> racing" where
  "enters l st s = s\<lparr>stage_of := (stage_of s)(l := st)\<rparr>"

definition clock :: "op_env \<Rightarrow> 'w world_scheme \<Rightarrow> int" where
  "clock oe s = time_now (base oe) (trace s)"

text \<open>
  \<open>outside\<close> stands for every other call of the two loops and of the annotating goroutines, and for the passing of
  time. A reconciliation enters its restarts at most \<open>span\<close> after it has read the clock.
\<close>

inductive race_step :: "op_env \<Rightarrow> reconciler \<Rightarrow> int \<Rightarrow> racing \<Rightarrow> racing \<Rightarrow> bool" for oe rc span where
  outside: "\<not> pod_deleting e \<Longrightarrow> race_step oe rc span s (s\<lparr>trace := trace s @ [e]\<rparr>)"
| reconcile: "stage_of s l = Resting \<Longrightarrow> run_state (call Now (time_now (base oe))) s = (now, s') \<Longrightarrow>
    race_step oe rc span s (enters l (Passing now) s')"
| look: "stage_of s l = Passing now \<Longrightarrow> \<not> ShouldSkipPod pod \<Longrightarrow> run_state (locked_lookup rc pod now) s = (limited, s') \<Longrightarrow>
    race_step oe rc span s (if limited then s' else enters l (Looked now pod) s')"
| ask: "stage_of s l = Looked now pod \<Longrightarrow> run_state (ownerAnnotationRateLimited oe rc pod now) s = (limited, s') \<Longrightarrow>
    race_step oe rc span s (enters l (if limited then Passing now else Cleared now pod) s')"
| recovered: "stage_of s l = Cleared now pod \<Longrightarrow> race_step oe rc span s (enters l (Passing now) s)"
| delete: "stage_of s l = Cleared now pod \<Longrightarrow> run_state (delete_pod oe rc pod why message) s = (Inr known, s') \<Longrightarrow>
    race_step oe rc span s (enters l (Gone now pod known) (s'\<lparr>races := races s' @ [(l, pod, clock oe s')]\<rparr>))"
| refused: "stage_of s l = Cleared now pod \<Longrightarrow> run_state (delete_pod oe rc pod why message) s = (Inl err, s') \<Longrightarrow>
    race_step oe rc span s (enters l (Passing now) s')"
| enter: "stage_of s l = Gone now pod known \<Longrightarrow> clock oe s \<le> now + span \<Longrightarrow>
    run_state (markRecovered rc pod now) s = (u, s') \<Longrightarrow> race_step oe rc span s (enters l (Entered now pod known) s')"
| annotate: "stage_of s l = Entered now pod known \<Longrightarrow>
    run_state (annotate_restart rc oe pod now known) s = (u, s') \<Longrightarrow> race_step oe rc span s (enters l (Passing now) s')"
| rest: "stage_of s l = Passing now \<Longrightarrow> race_step oe rc span s (enters l Resting s)"

definition race_start :: "history \<Rightarrow> racing" where
  "race_start h = \<lparr>trace = h, nextCtx = 0, lastRecovery = Map.empty, annotating = [],
     stage_of = (\<lambda>_. Resting), races = []\<rparr>"

inductive_cases race_stepE: "race_step oe rc span s s'"

section \<open>What a step does to the table\<close>

text \<open>\<open>quiet_run\<close>: only calls were made, nothing shared has changed.\<close>

definition quiet_run :: "op_env \<Rightarrow> racing \<Rightarrow> racing \<Rightarrow> bool" where
  "quiet_run oe s s' \<longleftrightarrow> clock oe s \<le> clock oe s' \<and> lastRecovery s' = lastRecovery s
     \<and> stage_of s' = stage_of s \<and> races s' = races s"

lemma off_world_racing [frame]: "off_world stage_of" "off_world races"
  by (simp_all add: off_world_def)

lemma quiet_runI:
  fixes m :: "(racing, 'a) state"
  assumes "clock_ok (base oe)" and "adds P m" and "keeps lastRecovery m" and "keeps stage_of m" and "keeps races m"
    and run: "run_state m s = (r, s')"
  shows "quiet_run oe s s'"
proof -
  obtain es where "trace s' = trace s @ es" using adds_run [OF assms(2) run] .
  then have "clock oe s \<le> clock oe s'" using clock_mono [OF assms(1)] by (simp add: clock_def)
  then show ?thesis
    using keeps_run [OF assms(3) run] keeps_run [OF assms(4) run] keeps_run [OF assms(5) run] by (simp add: quiet_run_def)
qed

lemma adds_race [frame]:
  "adds (\<lambda>_. True) (ownerAnnotationRateLimited oe rc pod now)" "adds (\<lambda>_. True) (delete_pod oe rc pod why message)"
  "adds (\<lambda>_. True) (annotate_restart rc oe pod now known)" "adds (\<lambda>_. True) (call e f)"
proof -
  show "adds (\<lambda>_. True) (ownerAnnotationRateLimited oe rc pod now)"
    by (auto simp: ownerAnnotationRateLimited_def owner_get_def intro!: frame)
  show "adds (\<lambda>_. True) (delete_pod oe rc pod why message)"
    by (auto simp: delete_pod_def emitRecoveryEvents_def snapshotOwnerPodUIDs_def intro!: frame split: prod.split)
  show "adds (\<lambda>_. True) (annotate_restart rc oe pod now known)"
    by (auto simp: annotate_restart_def scheduleReplacementAnnotate_def split: option.split intro!: frame adds_modify adds_mono [OF adds_restart_parts(1)])
  show "adds (\<lambda>_. True) (call e f)" by (auto intro!: frame)
qed

lemma keeps_race [frame]:
  assumes "off_world p"
  shows "keeps p (ownerAnnotationRateLimited oe rc pod now)" and "keeps p (delete_pod oe rc pod why message)"
  using assms by (auto simp: ownerAnnotationRateLimited_def owner_get_def delete_pod_def
      intro!: frame keeps_restart_parts)

lemma keeps_annotate_restart [frame]:
  assumes "off_world p" and "\<And>js s. p (s\<lparr>annotating := js\<rparr>) = p s"
  shows "keeps p (annotate_restart rc oe pod now known)"
  using assms by (auto simp: annotate_restart_def scheduleReplacementAnnotate_def
      intro!: frame keeps_restart_parts keeps_modify split: option.split)

lemma quiet_parts:
  assumes "clock_ok (base oe)"
  shows "run_state (ownerAnnotationRateLimited oe rc pod now) s = (b, s') \<Longrightarrow> quiet_run oe s s'"
    and "run_state (delete_pod oe rc pod why message) s = (d, s') \<Longrightarrow> quiet_run oe s s'"
    and "run_state (annotate_restart rc oe pod now known) s = (u, s') \<Longrightarrow> quiet_run oe s s'"
    and "run_state (call e f) s = (x, s') \<Longrightarrow> quiet_run oe s s'"
  by (erule quiet_runI [OF assms, rotated -1]; (auto intro!: frame)[])+

section \<open>The invariant\<close>

text \<open>
  A deletion is recorded when an entry at most \<open>span\<close> older is in the table, or its cooldown is over but for
  \<open>span\<close>. Every deletion is recorded but the one a loop is still to enter. A loop
  that has looked has the cooldown of its own earlier deletions of the workload behind it.
\<close>

definition recorded :: "op_env \<Rightarrow> reconciler \<Rightarrow> int \<Rightarrow> racing \<Rightarrow> pod \<Rightarrow> int \<Rightarrow> bool" where
  "recorded oe rc span s p t \<longleftrightarrow>
     (\<exists>v. lastRecovery s (RecoveryKey p) = Some v \<and> t \<le> v + span) \<or> t + oc_cooldown rc \<le> clock oe s + span"

fun stage_inv :: "(loop \<times> pod \<times> int) list \<Rightarrow> int \<Rightarrow> int \<Rightarrow> loop \<Rightarrow> stage \<Rightarrow> bool" where
  "stage_inv log wait t l Resting \<longleftrightarrow> True"
| "stage_inv log wait t l (Passing now) \<longleftrightarrow> now \<le> t"
| "stage_inv log wait t l (Looked now pod) \<longleftrightarrow> now \<le> t \<and>
     (\<forall>(l', p, t') \<in> set log. l' = l \<and> RecoveryKey p = RecoveryKey pod \<longrightarrow> t' + wait \<le> t)"
| "stage_inv log wait t l (Cleared now pod) \<longleftrightarrow> now \<le> t \<and>
     (\<forall>(l', p, t') \<in> set log. l' = l \<and> RecoveryKey p = RecoveryKey pod \<longrightarrow> t' + wait \<le> t)"
| "stage_inv log wait t l (Gone now pod known) \<longleftrightarrow> now \<le> t"
| "stage_inv log wait t l (Entered now pod known) \<longleftrightarrow> now \<le> t"

definition own_spacing :: "int \<Rightarrow> (loop \<times> pod \<times> int) list \<Rightarrow> bool" where
  "own_spacing wait = sorted_wrt (\<lambda>(l, p, t) (l', p', t'). t \<le> t' \<and> (l = l' \<and> RecoveryKey p = RecoveryKey p' \<longrightarrow> t + wait \<le> t'))"

fun owes :: "stage \<Rightarrow> pod \<Rightarrow> bool" where
  "owes (Gone now pod known) p \<longleftrightarrow> p = pod"
| "owes _ p \<longleftrightarrow> False"

definition race_inv :: "op_env \<Rightarrow> reconciler \<Rightarrow> int \<Rightarrow> racing \<Rightarrow> bool" where
  "race_inv oe rc span s \<longleftrightarrow> own_spacing (oc_cooldown rc - span) (races s)
     \<and> (\<forall>(l, p, t) \<in> set (races s). t \<le> clock oe s \<and> (recorded oe rc span s p t \<or> owes (stage_of s l) p))
     \<and> (\<forall>l. stage_inv (races s) (oc_cooldown rc - span) (clock oe s) l (stage_of s l))"

lemma enters_simps [simp]:
  "stage_of (enters l st s) = (stage_of s)(l := st)" "races (enters l st s) = races s"
  "lastRecovery (enters l st s) = lastRecovery s" "clock oe (enters l st s) = clock oe s"
  "recorded oe rc span (enters l st s) p t = recorded oe rc span s p t"
  by (simp_all add: enters_def clock_def recorded_def)

lemma stage_inv_later: "stage_inv log wait t l st \<Longrightarrow> t \<le> t' \<Longrightarrow> stage_inv log wait t' l st"
  by (cases st) fastforce+

lemma recorded_later: "recorded oe rc span s p t \<Longrightarrow> lastRecovery s' = lastRecovery s \<Longrightarrow> clock oe s \<le> clock oe s' \<Longrightarrow>
    recorded oe rc span s' p t"
  by (auto simp: recorded_def)

text \<open>A loop that goes on without having touched the table or the log.\<close>

lemma race_inv_moves:
  assumes "race_inv oe rc span s" and "quiet_run oe s s'"
    and "\<And>p. owes (stage_of s l) p \<Longrightarrow> owes st p"
    and "stage_inv (races s) (oc_cooldown rc - span) (clock oe s') l st"
  shows "race_inv oe rc span (enters l st s')"
proof -
  have "stage_inv (races s) (oc_cooldown rc - span) (clock oe s') l' (stage_of s l')" for l'
    using assms(1,2) stage_inv_later unfolding race_inv_def quiet_run_def by blast
  then have "stage_inv (races s) (oc_cooldown rc - span) (clock oe s') l' (stage_of (enters l st s') l')" for l'
    using assms(2,4) by (simp add: quiet_run_def)
  moreover have "t \<le> clock oe s' \<and> (recorded oe rc span s' p t \<or> owes (stage_of (enters l st s') l') p)"
    if "(l', p, t) \<in> set (races s)" for l' p t
  proof -
    have "t \<le> clock oe s \<and> (recorded oe rc span s p t \<or> owes (stage_of s l') p)"
      using assms(1) that by (auto simp: race_inv_def)
    then show ?thesis
      using assms(2,3) recorded_later [of oe rc span s p t s'] by (auto simp: quiet_run_def)
  qed
  ultimately show ?thesis
    using assms(1,2) unfolding race_inv_def quiet_run_def enters_simps(2,4,5) by auto
qed

lemma race_inv_quiet:
  assumes "race_inv oe rc span s" and "quiet_run oe s s'"
  shows "race_inv oe rc span s'"
proof -
  have "stage_inv (races s) (oc_cooldown rc - span) (clock oe s') CsiLoop (stage_of s CsiLoop)"
    using assms stage_inv_later unfolding race_inv_def quiet_run_def by blast
  from race_inv_moves [OF assms _ this] have "race_inv oe rc span (enters CsiLoop (stage_of s CsiLoop) s')" by blast
  moreover have "enters CsiLoop (stage_of s CsiLoop) s' = s'" using assms(2) by (simp add: enters_def quiet_run_def)
  ultimately show ?thesis by simp
qed

section \<open>The steps on the table and the log\<close>

lemma recorded_pruned:
  assumes "recorded oe rc span s p t" and "now \<le> clock oe s"
  shows "recorded oe rc span (s\<lparr>lastRecovery := pruneExpiredRecoveries rc now (lastRecovery s)\<rparr>) p t"
  using assms by (fastforce simp: recorded_def prune_Some clock_def)

lemma race_inv_pruned:
  assumes "race_inv oe rc span s" and "now \<le> clock oe s"
  shows "race_inv oe rc span (s\<lparr>lastRecovery := pruneExpiredRecoveries rc now (lastRecovery s)\<rparr>)"
proof -
  have "clock oe (s\<lparr>lastRecovery := m\<rparr>) = clock oe s" for m by (simp add: clock_def)
  then show ?thesis
    using assms recorded_pruned [OF _ assms(2)] by (fastforce simp: race_inv_def)
qed

lemma race_inv_looked:
  assumes inv: "race_inv oe rc span s" and at: "stage_of s l = Passing now"
    and run: "run_state (locked_lookup rc pod now) s = (limited, s')"
  shows "race_inv oe rc span (if limited then s' else enters l (Looked now pod) s')"
proof -
  have now: "now \<le> clock oe s"
    using inv at unfolding race_inv_def by (metis stage_inv.simps(2))
  have s': "s' = s\<lparr>lastRecovery := pruneExpiredRecoveries rc now (lastRecovery s)\<rparr>"
    and limited: "limited \<longleftrightarrow> in_cooldown rc now (lastRecovery s) (RecoveryKey pod)"
    using run by (auto simp: locked_lookup_def in_cooldown_def prune_Some prune_None split: option.splits)
  have inv': "race_inv oe rc span s'" using race_inv_pruned [OF inv now] s' by simp
  have own: "t + (oc_cooldown rc - span) \<le> clock oe s'"
    if "(l, p, t) \<in> set (races s')" "RecoveryKey p = RecoveryKey pod" "\<not> limited" for p t
  proof -
    have "recorded oe rc span s p t" using inv that(1) at s' by (auto simp: race_inv_def)
    moreover have "clock oe s' = clock oe s" using s' by (simp add: clock_def)
    ultimately show ?thesis
      using that(2,3) now unfolding limited recorded_def in_cooldown_def by force
  qed
  show ?thesis
  proof (cases limited)
    case False
    have "quiet_run oe s' s'" by (simp add: quiet_run_def)
    moreover have "clock oe s' = clock oe s" using s' by (simp add: clock_def)
    ultimately have "race_inv oe rc span (enters l (Looked now pod) s')"
      using now own False s' at by (intro race_inv_moves [OF inv']) (auto simp: clock_def)
    with False show ?thesis by simp
  qed (use inv' in simp)
qed

lemma race_inv_deleted:
  assumes inv: "race_inv oe rc span s" and at: "stage_of s l = Cleared now pod" and quiet: "quiet_run oe s s'"
  shows "race_inv oe rc span (enters l (Gone now pod known) (s'\<lparr>races := races s' @ [(l, pod, clock oe s')]\<rparr>))"
proof -
  let ?w = "oc_cooldown rc - span" and ?log = "races s @ [(l, pod, clock oe s')]"
  let ?s = "enters l (Gone now pod known) (s'\<lparr>races := ?log\<rparr>)"
  have same: "races s' = races s" "stage_of s' = stage_of s" "clock oe s \<le> clock oe s'" using quiet by (simp_all add: quiet_run_def)
  have inv': "race_inv oe rc span s'" by (rule race_inv_quiet [OF inv quiet])
  have time: "clock oe ?s = clock oe s'" "clock oe (s'\<lparr>races := ?log\<rparr>) = clock oe s'"
    "\<And>p t. recorded oe rc span (s'\<lparr>races := ?log\<rparr>) p t = recorded oe rc span s' p t"
    by (simp_all add: clock_def recorded_def enters_def)
  have "stage_inv (races s') ?w (clock oe s') l (stage_of s' l)" using inv' by (simp add: race_inv_def)
  then have cleared: "now \<le> clock oe s'" "\<forall>(l', p, t') \<in> set (races s). l' = l \<and> RecoveryKey p = RecoveryKey pod \<longrightarrow> t' + ?w \<le> clock oe s'"
    by (simp_all add: same at)
  have "own_spacing ?w ?log"
    using inv' cleared(2) same by (fastforce simp: race_inv_def own_spacing_def sorted_wrt_append)
  moreover have "\<forall>(l', p, t) \<in> set ?log. t \<le> clock oe s' \<and> (recorded oe rc span s' p t \<or> owes (stage_of ?s l') p)"
    using inv' same at by (auto simp: race_inv_def split: if_splits)
  moreover have "stage_inv ?log ?w (clock oe s') l' (stage_of ?s l')" for l'
  proof (cases "l' = l")
    case False
    have "stage_inv (races s) ?w (clock oe s') l' (stage_of s l')" using inv' same by (simp add: race_inv_def)
    with False same show ?thesis by (cases "stage_of s l'") auto
  qed (use cleared in simp)
  ultimately show ?thesis unfolding same(1) race_inv_def by (simp add: time)
qed

lemma race_inv_entered:
  assumes inv: "race_inv oe rc span s" and at: "stage_of s l = Gone now pod known" and "clock oe s \<le> now + span"
    and run: "run_state (markRecovered rc pod now) s = (u, s')"
  shows "race_inv oe rc span (enters l (Entered now pod known) s')"
proof -
  let ?prune = "s\<lparr>lastRecovery := pruneExpiredRecoveries rc now (lastRecovery s)\<rparr>"
  have now: "now \<le> clock oe s" using inv at unfolding race_inv_def by (metis stage_inv.simps(5))
  have s': "s' = s\<lparr>lastRecovery := (pruneExpiredRecoveries rc now (lastRecovery s))(RecoveryKey pod \<mapsto> now)\<rparr>"
    using run by (simp add: markRecovered_def)
  have same: "clock oe s' = clock oe s" "races s' = races s" "stage_of s' = stage_of s" using s' by (simp_all add: clock_def)
  have inv': "race_inv oe rc span ?prune" by (rule race_inv_pruned [OF inv now])
  have prune: "races ?prune = races s" "stage_of ?prune = stage_of s" "clock oe ?prune = clock oe s" by (simp_all add: clock_def)
  have entry: "recorded oe rc span s' p t" if "(l', p, t) \<in> set (races s)" "recorded oe rc span ?prune p t \<or> RecoveryKey p = RecoveryKey pod" for l' p t
  proof (cases "RecoveryKey p = RecoveryKey pod")
    case True
    have "t \<le> clock oe s" using inv that(1) by (auto simp: race_inv_def)
    then show ?thesis using True s' assms(3) by (auto simp: recorded_def)
  next
    case False
    then show ?thesis using that(2) s' by (auto simp: recorded_def clock_def)
  qed
  have log: "t \<le> clock oe s \<and> (recorded oe rc span s' p t \<or> owes (stage_of (enters l (Entered now pod known) s') l') p)"
    if "(l', p, t) \<in> set (races s)" for l' p t
  proof -
    have "t \<le> clock oe s \<and> (recorded oe rc span ?prune p t \<or> owes (stage_of s l') p)"
      using inv' that unfolding race_inv_def prune by auto
    then show ?thesis using entry [OF that] at same by auto
  qed
  have "stage_inv (races s) (oc_cooldown rc - span) (clock oe s) l' (stage_of (enters l (Entered now pod known) s') l')" for l'
    using inv now same by (auto simp: race_inv_def)
  moreover have "own_spacing (oc_cooldown rc - span) (races s)" using inv by (simp add: race_inv_def)
  ultimately show ?thesis using log unfolding race_inv_def same enters_simps by auto
qed

lemma race_inv_step:
  assumes clock: "clock_ok (base oe)" and inv: "race_inv oe rc span s" and "race_step oe rc span s s'"
  shows "race_inv oe rc span s'"
proof -
  note quiet = quiet_parts [OF clock]
  have stage: "stage_inv (races s) (oc_cooldown rc - span) (clock oe s1) l (stage_of s l)" if "quiet_run oe s s1" for l s1
    using inv that stage_inv_later unfolding race_inv_def quiet_run_def by blast
  have refl: "quiet_run oe s s" by (simp add: quiet_run_def)
  from assms(3) show ?thesis
  proof cases
    case (outside e)
    have "clock oe s \<le> clock oe s'" using clock_mono [OF clock] outside by (simp add: clock_def)
    then show ?thesis using outside by (intro race_inv_quiet [OF inv]) (simp add: quiet_run_def)
  next
    case (reconcile l now s1)
    have q: "quiet_run oe s s1" by (rule quiet(4) [OF reconcile(3)])
    have "now \<le> clock oe s1"
      using reconcile(3) clock_mono [OF clock, of "trace s" "[Now]"] by (auto simp: clock_def)
    then show ?thesis unfolding reconcile(1) by (intro race_inv_moves [OF inv q]) (use reconcile(2) in auto)
  next
    case (look l now pod limited s1)
    then show ?thesis using race_inv_looked [OF inv look(2,4)] by simp
  next
    case (ask l now pod limited s1)
    have q: "quiet_run oe s s1" by (rule quiet(1) [OF ask(3)])
    show ?thesis unfolding ask(1) by (rule race_inv_moves [OF inv q]) (use stage [OF q, of l] ask(2) in auto)
  next
    case (recovered l now pod)
    show ?thesis unfolding recovered(1)
      by (rule race_inv_moves [OF inv refl]) (use stage [OF refl, of l] recovered(2) in auto)
  next
    case (delete l now pod why message known s1)
    show ?thesis unfolding delete(1) by (rule race_inv_deleted [OF inv delete(2) quiet(2) [OF delete(3)]])
  next
    case (refused l now pod why message err s1)
    have q: "quiet_run oe s s1" by (rule quiet(2) [OF refused(3)])
    show ?thesis unfolding refused(1) by (rule race_inv_moves [OF inv q]) (use stage [OF q, of l] refused(2) in auto)
  next
    case (enter l now pod known u s1)
    show ?thesis unfolding enter(1) by (rule race_inv_entered [OF inv enter(2-4)])
  next
    case (annotate l now pod known u s1)
    have q: "quiet_run oe s s1" by (rule quiet(3) [OF annotate(3)])
    show ?thesis unfolding annotate(1) by (rule race_inv_moves [OF inv q]) (use stage [OF q, of l] annotate(2) in auto)
  next
    case (rest l now)
    show ?thesis unfolding rest(1) by (rule race_inv_moves [OF inv refl]) (use rest(2) in auto)
  qed
qed

lemma race_inv_reach:
  assumes "clock_ok (base oe)" and "(race_step oe rc span)\<^sup>*\<^sup>* (race_start h) s"
  shows "race_inv oe rc span s"
  using assms(2)
proof induction
  case base
  show ?case by (simp add: race_inv_def race_start_def own_spacing_def)
next
  case (step s s')
  then show ?case using race_inv_step [OF assms(1)] by blast
qed

lemma two_of_three: "l1 = l2 \<or> l2 = l3 \<or> l1 = (l3 :: loop)"
  by (cases l1; cases l2; cases l3) simp_all

section \<open>Properties\<close>

text \<open>
  Property C5: the cooldown under overlap. Whatever way the two loops of the operator interleave, as long as a
  reconciliation enters each of its restarts at most \<open>span\<close> after it has read the clock: of any
  three deletions of pods of one workload the first and the last are a cooldown apart, less \<open>span\<close>. So
  at most two pods of a workload are restarted within that time.
\<close>

theorem at_most_two_restarts:
  assumes "clock_ok (base oe)" and "(race_step oe rc span)\<^sup>*\<^sup>* (race_start h) s"
    and "i < j" and "j < k" and "k < length (races s)"
    and "races s ! i = (l1, p1, t1)" and "races s ! j = (l2, p2, t2)" and "races s ! k = (l3, p3, t3)"
    and "RecoveryKey p1 = RecoveryKey p2" and "RecoveryKey p2 = RecoveryKey p3"
  shows "t1 + oc_cooldown rc - span \<le> t3"
proof -
  have "own_spacing (oc_cooldown rc - span) (races s)"
    using race_inv_reach [OF assms(1,2)] by (simp add: race_inv_def)
  then have apart: "t \<le> t' \<and> (l = l' \<and> RecoveryKey p = RecoveryKey p' \<longrightarrow> t + (oc_cooldown rc - span) \<le> t')"
    if "a < b" "b < length (races s)" "races s ! a = (l, p, t)" "races s ! b = (l', p', t')" for a b l p t l' p' t'
    using that unfolding own_spacing_def sorted_wrt_iff_nth_less by fastforce
  have "t1 \<le> t2 \<and> (l1 = l2 \<and> RecoveryKey p1 = RecoveryKey p2 \<longrightarrow> t1 + (oc_cooldown rc - span) \<le> t2)"
    "t2 \<le> t3 \<and> (l2 = l3 \<and> RecoveryKey p2 = RecoveryKey p3 \<longrightarrow> t2 + (oc_cooldown rc - span) \<le> t3)"
    "t1 \<le> t3 \<and> (l1 = l3 \<and> RecoveryKey p1 = RecoveryKey p3 \<longrightarrow> t1 + (oc_cooldown rc - span) \<le> t3)"
    using apart [of i j] apart [of j k] apart [of i k] assms(3-8) by auto
  then show ?thesis using two_of_three [of l1 l2 l3] assms(9,10) by auto
qed

section \<open>Runs\<close>

text \<open>A scheduler: the moves of the loops, executable.\<close>

datatype move = Outside ev | Reconcile loop | Look loop pod | Ask loop | Delete loop | Enter loop | Annotate loop | Rest loop

fun do_move :: "op_env \<Rightarrow> reconciler \<Rightarrow> int \<Rightarrow> move \<Rightarrow> racing \<Rightarrow> racing option" where
  "do_move oe rc span (Outside e) s = (if pod_deleting e then None else Some (s\<lparr>trace := trace s @ [e]\<rparr>))"
| "do_move oe rc span (Reconcile l) s = (case stage_of s l of
     Resting \<Rightarrow> (case run_state (call Now (time_now (base oe))) s of (now, s') \<Rightarrow> Some (enters l (Passing now) s'))
   | _ \<Rightarrow> None)"
| "do_move oe rc span (Look l pod) s = (case stage_of s l of
     Passing now \<Rightarrow> if ShouldSkipPod pod then None
       else (case run_state (locked_lookup rc pod now) s of (limited, s') \<Rightarrow>
          Some (if limited then s' else enters l (Looked now pod) s'))
   | _ \<Rightarrow> None)"
| "do_move oe rc span (Ask l) s = (case stage_of s l of
     Looked now pod \<Rightarrow> (case run_state (ownerAnnotationRateLimited oe rc pod now) s of (limited, s') \<Rightarrow>
          Some (enters l (if limited then Passing now else Cleared now pod) s'))
   | _ \<Rightarrow> None)"
| "do_move oe rc span (Delete l) s = (case stage_of s l of
     Cleared now pod \<Rightarrow> (case run_state (delete_pod oe rc pod EventReasonStaleCSIMount ('''', [])) s of
         (Inr known, s') \<Rightarrow> Some (enters l (Gone now pod known) (s'\<lparr>races := races s' @ [(l, pod, clock oe s')]\<rparr>))
       | (Inl err, s') \<Rightarrow> Some (enters l (Passing now) s'))
   | _ \<Rightarrow> None)"
| "do_move oe rc span (Enter l) s = (case stage_of s l of
     Gone now pod known \<Rightarrow> if clock oe s \<le> now + span
       then (case run_state (markRecovered rc pod now) s of (u, s') \<Rightarrow> Some (enters l (Entered now pod known) s'))
       else None
   | _ \<Rightarrow> None)"
| "do_move oe rc span (Annotate l) s = (case stage_of s l of
     Entered now pod known \<Rightarrow> (case run_state (annotate_restart rc oe pod now known) s of (u, s') \<Rightarrow> Some (enters l (Passing now) s'))
   | _ \<Rightarrow> None)"
| "do_move oe rc span (Rest l) s = (case stage_of s l of Passing now \<Rightarrow> Some (enters l Resting s) | _ \<Rightarrow> None)"

lemmas race_moves = race_step.intros
  race_step.look [where limited = True, simplified] race_step.look [where limited = False, simplified]
  race_step.ask [where limited = True, simplified] race_step.ask [where limited = False, simplified]

lemma do_move_step: "do_move oe rc span m s = Some s' \<Longrightarrow> race_step oe rc span s s'"
  by (cases m) (auto split: stage.splits prod.splits sum.splits if_splits intro: race_moves)

fun do_moves :: "op_env \<Rightarrow> reconciler \<Rightarrow> int \<Rightarrow> move list \<Rightarrow> racing \<Rightarrow> racing option" where
  "do_moves oe rc span [] s = Some s"
| "do_moves oe rc span (m # ms) s = (case do_move oe rc span m s of None \<Rightarrow> None | Some s' \<Rightarrow> do_moves oe rc span ms s')"

lemma do_moves_steps: "do_moves oe rc span ms s = Some s' \<Longrightarrow> (race_step oe rc span)\<^sup>*\<^sup>* s s'"
proof (induction ms arbitrary: s)
  case (Cons m ms)
  then obtain s1 where "do_move oe rc span m s = Some s1" "do_moves oe rc span ms s1 = Some s'" by (auto split: option.splits)
  with Cons.IH [of s1] do_move_step show ?case by (blast intro: converse_rtranclp_into_rtranclp)
qed simp

section \<open>An overlap\<close>

text \<open>
  Both loops look before either has entered its restart; two replicas of one ReplicaSet are deleted at the
  same time. Two hours later a third restart of the workload is allowed again.
\<close>

definition both_restart :: "move list" where
  "both_restart = [Reconcile CsiLoop, Reconcile ScanLoop, Look CsiLoop (example_pod ''web-1'' ''u1''),
     Look ScanLoop (example_pod ''web-2'' ''u2''), Ask CsiLoop, Ask ScanLoop, Delete CsiLoop, Delete ScanLoop,
     Enter CsiLoop, Enter ScanLoop]"

definition third_restart :: "move list" where
  "third_restart = [Annotate CsiLoop, Rest CsiLoop, Outside (Sleep (2 * defaultRecoveryCooldown)), Reconcile CsiLoop,
     Look CsiLoop (example_pod ''web-3'' ''u3''), Ask CsiLoop, Delete CsiLoop]"

definition overlap :: "move list \<Rightarrow> racing option" where
  "overlap ms = do_moves restarted_op example_rc 0 ms (race_start [])"

lemma overlap_two: "map_option races (overlap both_restart)
    = Some [(CsiLoop, example_pod ''web-1'' ''u1'', 0), (ScanLoop, example_pod ''web-2'' ''u2'', 0)]"
  by code_simp

lemma overlap_three: "map_option races (overlap (both_restart @ third_restart))
    = Some [(CsiLoop, example_pod ''web-1'' ''u1'', 0), (ScanLoop, example_pod ''web-2'' ''u2'', 0),
        (CsiLoop, example_pod ''web-3'' ''u3'', 2 * defaultRecoveryCooldown)]"
  by code_simp

lemma overlap_reached:
  assumes "map_option races (overlap ms) = Some log"
  obtains s where "(race_step restarted_op example_rc 0)\<^sup>*\<^sup>* (race_start []) s" and "races s = log"
proof -
  obtain s where "do_moves restarted_op example_rc 0 ms (race_start []) = Some s" "races s = log"
    using assms by (auto simp: overlap_def)
  then show ?thesis using that do_moves_steps by blast
qed


theorem at_most_two_restarts_witness:
  "\<exists>s. (race_step restarted_op example_rc 0)\<^sup>*\<^sup>* (race_start []) s \<and> length (races s) = 3
     \<and> oc_cooldown example_rc \<le> snd (snd (races s ! 2))"
proof -
  obtain s where reach: "(race_step restarted_op example_rc 0)\<^sup>*\<^sup>* (race_start []) s"
    and log: "races s = [(CsiLoop, example_pod ''web-1'' ''u1'', 0), (ScanLoop, example_pod ''web-2'' ''u2'', 0),
        (CsiLoop, example_pod ''web-3'' ''u3'', 2 * defaultRecoveryCooldown)]"
    using overlap_three by (rule overlap_reached)
  have clock: "clock_ok (base restarted_op)"
    by (auto simp: restarted_op_def clock_ok_def slept_clock_def split: ev.split)
  have same: "RecoveryKey (example_pod ''web-1'' ''u1'') = RecoveryKey (example_pod ''web-2'' ''u2'')"
    "RecoveryKey (example_pod ''web-2'' ''u2'') = RecoveryKey (example_pod ''web-3'' ''u3'')"
    by code_simp+
  have "0 + oc_cooldown example_rc - 0 \<le> 2 * defaultRecoveryCooldown"
    by (rule at_most_two_restarts [OF clock reach, of 0 1 2, OF _ _ _ _ _ _ same]) (simp_all add: log)
  with reach log show ?thesis by (intro exI [of _ s]) simp
qed

end
