(* ===== verification/Op_Progress.thy ===== *)
theory Op_Progress
  imports Op_Cooldown
begin

text \<open>
  Recovery happens: what the safety of the operator leaves open. A stale mount of a pod that may be restarted
  leads to the deletion of a pod of its workload in the reconciliation that finds it.
\<close>

section \<open>Attempts\<close>

definition deletion :: "pod \<Rightarrow> ev" where
  "deletion p = Op (PodDelete (pod_namespace p) (pod_name p) (pod_uid p))"

text \<open>Between the two states the deletion of a pod of the workload \<open>k\<close> was asked for.\<close>

definition tried :: "pod list \<Rightarrow> string \<Rightarrow> 'w world_scheme \<Rightarrow> 'w world_scheme \<Rightarrow> bool" where
  "tried pods k s s' \<longleftrightarrow>
     (\<exists>es p. trace s' = trace s @ es \<and> p \<in> set pods \<and> RecoveryKey p = k \<and> deletion p \<in> set es)"

lemma tried_extend:
  assumes "trace s1 = trace s @ es" and "trace s3 = trace s2 @ fs" and "tried pods k s1 s2"
  shows "tried pods k s s3"
  using assms unfolding tried_def by fastforce

lemma tried_restarts: "tried pods k s s1 \<Longrightarrow> restarts oe s1 s2 ids \<Longrightarrow> tried pods k s s2"
  using tried_extend [of s s "[]"] by (auto simp: restarts_def)

lemma deleted_asked: "(ns, n, u) \<in> set (deleted oe h es) \<Longrightarrow> Op (PodDelete ns n u) \<in> set es"
  by (induction oe h es rule: deleted.induct) (auto split: if_splits)

lemma restarts_tried:
  assumes "restarts oe s s' [pod_id p]" and "p \<in> set pods"
  shows "tried pods (RecoveryKey p) s s'"
proof -
  obtain es where es: "trace s' = trace s @ es" "deleted oe (trace s) es = [pod_id p]"
    using assms(1) by (auto simp: restarts_def)
  then have "deletion p \<in> set es" using deleted_asked [of _ _ _ oe "trace s" es] by (simp add: pod_id_def deletion_def)
  then show ?thesis using es(1) assms(2) unfolding tried_def by blast
qed

text \<open>A restart asks for the deletion, whatever comes of it.\<close>

lemma wp_restart_tried:
  fixes s :: "'w op_world_scheme"
  assumes "p \<in> set pods"
  shows "wp (restartPod oe rc p now why message) (\<lambda>_. tried pods (RecoveryKey p) s) s"
  unfolding restartPod_def
proof (rule wp_bind_calm [OF adds_restart_parts(3) keeps_restart_parts(3) [OF off_world_lastRecovery]],
    rule wp_bind_calm [OF adds_restart_parts(2) keeps_restart_parts(2) [OF off_world_lastRecovery]])
  fix s1 s2 :: "'w op_world_scheme" and snap
  assume calm: "calm oe s s1" "calm oe s1 s2"
  obtain es where es: "trace s2 = trace s @ es" using calm_trans [OF calm] by (auto simp: calm_def restarts_def)
  let ?s2 = "s2\<lparr>trace := trace s2 @ [deletion p]\<rparr>"
  have here: "tried pods (RecoveryKey p) s ?s2"
    unfolding tried_def by (rule exI [of _ "es @ [deletion p]"], rule exI [of _ p]) (use es assms in simp)
  have later: "wp (restarted rc oe p now known) (\<lambda>_. tried pods (RecoveryKey p) s) ?s2" for known
    by (rule wp_mono [OF wp_restarted]) (use tried_restarts [OF here] in blast)
  show "wp (State_Monad.bind (call (Op (PodDelete (pod_namespace p) (pod_name p) (pod_uid p)))
        (\<lambda>h. podDelete oe h (pod_namespace p) (pod_name p) (pod_uid p)))
     (\<lambda>err. if err = None \<or> err = Some NotFound
        then State_Monad.bind (restarted rc oe p now (case snap of Inl _ \<Rightarrow> None | Inr k \<Rightarrow> k)) (\<lambda>_. State_Monad.return None)
        else State_Monad.return err)) (\<lambda>_. tried pods (RecoveryKey p) s) s2"
    using here later by (auto simp: wp deletion_def)
qed

section \<open>One reconciliation\<close>

text \<open>As long as no deletion of the workload was asked for, the workload stays out of its cooldown.\<close>

definition open_for :: "reconciler \<Rightarrow> int \<Rightarrow> pod list \<Rightarrow> string \<Rightarrow> 'w op_world_scheme \<Rightarrow> 'w op_world_scheme \<Rightarrow> bool" where
  "open_for rc now pods k s s' \<longleftrightarrow> (\<exists>es. trace s' = trace s @ es)
     \<and> (tried pods k s s' \<or> \<not> in_cooldown rc now (lastRecovery s') k)"

lemma at_most_one_trace: "at_most_one oe rc now pods s s' \<Longrightarrow> \<exists>es. trace s' = trace s @ es"
  by (auto simp: at_most_one_def restarts_def)

lemma open_for_step:
  assumes "open_for rc now pods k s0 s" and "at_most_one oe rc now pods s s'"
  shows "open_for rc now pods k s0 s'"
proof -
  obtain es where es: "trace s = trace s0 @ es" using assms(1) by (auto simp: open_for_def)
  obtain fs where fs: "trace s' = trace s @ fs" using at_most_one_trace [OF assms(2)] by blast
  have "tried pods k s0 s' \<or> \<not> in_cooldown rc now (lastRecovery s') k"
  proof (cases "tried pods k s0 s")
    case True
    from tried_extend [of s0 s0 "[]", OF _ fs True] show ?thesis by simp
  next
    case False
    then have free: "\<not> in_cooldown rc now (lastRecovery s) k" using assms(1) by (simp add: open_for_def)
    from assms(2) show ?thesis unfolding at_most_one_def
    proof (elim disjE conjE bexE)
      assume "same_recoveries rc now (lastRecovery s) (lastRecovery s')"
      from same_in_cooldown [OF this, of k] free show ?thesis by simp
    next
      fix p assume p: "p \<in> set pods" "restarts oe s s' [pod_id p]"
        and table: "same_recoveries rc now ((lastRecovery s)(RecoveryKey p \<mapsto> now)) (lastRecovery s')"
      show ?thesis
      proof (cases "RecoveryKey p = k")
        case True
        then show ?thesis using tried_extend [OF es, of s' s' "[]"] restarts_tried [OF p(2,1)] by simp
      next
        case False
        then show ?thesis using same_in_cooldown [OF table, of k] free by (simp add: in_cooldown_def)
      qed
    qed
  qed
  then show ?thesis using es fs by (simp add: open_for_def)
qed

text \<open>What answers the same in every state.\<close>

definition always :: "('s, 'a) state \<Rightarrow> 'a \<Rightarrow> bool" where
  "always m x \<longleftrightarrow> (\<forall>s. fst (run_state m s) = x)"

lemma wp_always: "always m x \<Longrightarrow> wp m Q s \<Longrightarrow> wp m (\<lambda>r s'. r = x \<and> Q r s') s"
  by (auto simp: always_def wp_def split: prod.splits) (metis fst_conv)

text \<open>
  A mount whose pod may be restarted: it is the driver's, its owner carries no recent recovery, and the mount
  is confirmed to be stale.
\<close>

definition recoverable :: "op_env \<Rightarrow> reconciler \<Rightarrow> stale_mount \<Rightarrow> pod \<Rightarrow> bool" where
  "recoverable oe rc mount p \<longleftrightarrow> \<not> ShouldSkipPod p
     \<and> always (volumeManagedByProvisioner oe rc p mount :: (op_world, bool) state) True
     \<and> (\<forall>now. always (ownerAnnotationRateLimited oe rc p now :: (op_world, bool) state) False)
     \<and> (\<forall>s :: op_world. fst (fst (run_state (confirm_stale oe rc mount) s)))"

lemma wp_reconcile_tried:
  fixes s :: op_world
  assumes "recoverable oe rc mount p" and "p \<in> set pods" and "\<not> in_cooldown rc now (lastRecovery s) (RecoveryKey p)"
  shows "wp (reconcile_pod oe rc now mount p) (\<lambda>_. tried pods (RecoveryKey p) s) s"
proof -
  let ?Q = "\<lambda>_. tried pods (RecoveryKey p) s"
  have restart: "wp (restartPod oe rc p now why message) ?Q s1" if "\<exists>es. trace s1 = trace s @ es" for s1 :: op_world and why message
    by (rule wp_mono [OF wp_restart_tried [OF assms(2)]])
      (use that tried_extend [of _ s _ _ _ "[]" pods "RecoveryKey p"] in auto)
  have confirm: "wp (do { (corrupted, why) \<leftarrow> confirm_stale oe rc mount;
      if \<not> corrupted then State_Monad.return ()
      else do { restartPod oe rc p now EventReasonStaleCSIMount
        (''stale CSI mount %s: %s'', [S (stale_mountPath mount), reason_arg why]); State_Monad.return () } }) ?Q s1"
    if "\<exists>es. trace s1 = trace s @ es" for s1 :: op_world
  proof -
    have "wp (confirm_stale oe rc mount) (\<lambda>r s2. fst r \<and> (\<exists>es. trace s2 = trace s @ es)) s1"
    proof (rule wpI)
      fix r s2 assume run: "run_state (confirm_stale oe rc mount) s1 = (r, s2)"
      obtain es where "trace s2 = trace s1 @ es" using adds_run [OF adds_ownership_checks(5) run] .
      moreover have "fst (fst (run_state (confirm_stale oe rc mount) s1))" using assms(1) by (simp add: recoverable_def)
      ultimately show "fst r \<and> (\<exists>es. trace s2 = trace s @ es)" using run that by auto
    qed
    then show ?thesis unfolding wp_bind
      by (rule wp_mono) (auto simp: wp split: prod.split intro!: restart)
  qed
  have limited: "wp (isRateLimited oe rc p now) (\<lambda>r s2. \<not> r \<and> (\<exists>es. trace s2 = trace s @ es)) s1"
    if "calm oe s s1" for s1 :: op_world
  proof -
    let ?s = "s1\<lparr>lastRecovery := pruneExpiredRecoveries rc now (lastRecovery s1)\<rparr>"
    have "lastRecovery ?s (RecoveryKey p) = None"
      using assms(3) that by (simp add: calm_def prune_None)
    moreover have "wp (ownerAnnotationRateLimited oe rc p now) (\<lambda>r s2. r = False \<and> calm oe ?s s2) ?s"
      by (rule wp_always [OF _ wp_calm]) (use assms(1) in \<open>auto simp: recoverable_def intro!: frame\<close>)
    ultimately show ?thesis
      using that by (auto simp: isRateLimited_def wp calm_def restarts_def elim!: wp_mono)
  qed
  have managed: "wp (volumeManagedByProvisioner oe rc p mount) (\<lambda>r s1. r = True \<and> calm oe s s1) s"
    by (rule wp_always [OF _ wp_calm]) (use assms(1) in \<open>auto simp: recoverable_def intro!: frame\<close>)
  have checked: "wp (do { limited \<leftarrow> isRateLimited oe rc p now;
      if limited then State_Monad.return ()
      else do { (corrupted, why) \<leftarrow> confirm_stale oe rc mount;
        if \<not> corrupted then State_Monad.return ()
        else do { restartPod oe rc p now EventReasonStaleCSIMount
          (''stale CSI mount %s: %s'', [S (stale_mountPath mount), reason_arg why]); State_Monad.return () } } }) ?Q s1"
    if "calm oe s s1" for s1 :: op_world
    unfolding wp_bind [of "isRateLimited oe rc p now"]
    by (rule wp_mono [OF limited [OF that]]) (auto intro: confirm)
  have "\<not> ShouldSkipPod p" using assms(1) by (simp add: recoverable_def)
  then show ?thesis
    unfolding reconcile_pod_def if_not_P [OF \<open>\<not> ShouldSkipPod p\<close>] wp_bind [of "volumeManagedByProvisioner oe rc p mount"]
    by (intro wp_mono [OF managed]) (auto intro: checked)
qed

lemma wp_loop_tried:
  fixes s :: op_world
  assumes "0 < oc_cooldown rc" and "mount \<in> set stale" and "pod_by_uid pods (stale_podUID mount) = Some p"
    and "recoverable oe rc mount p" and "open_for rc now pods (RecoveryKey p) s0 s"
  shows "wp (for_each stale (reconcile_mount oe rc now pods)) (\<lambda>_. tried pods (RecoveryKey p) s0) s"
  using assms(2,5)
proof (induction stale arbitrary: s)
  case (Cons m stale)
  let ?k = "RecoveryKey p"
  have rest: "wp (for_each ms (reconcile_mount oe rc now pods)) (\<lambda>_. tried pods ?k s0) s1"
    if "tried pods ?k s0 s1" for ms and s1 :: op_world
    using that
  proof (induction ms arbitrary: s1)
    case (Cons m ms)
    have "wp (reconcile_mount oe rc now pods m) (\<lambda>_. tried pods ?k s0) s1"
      by (rule wp_mono [OF wp_reconcile_mount [OF assms(1)]])
        (use Cons.prems tried_extend [of s0 s0 "[]"] in \<open>auto dest!: at_most_one_trace\<close>)
    then show ?case using Cons.IH by (auto simp: wp elim!: wp_mono)
  qed (simp add: wp)
  show ?case
  proof (cases "m = mount")
    case True
    have p: "p \<in> set pods" using pod_by_uid_in [OF assms(3)] by simp
    have "wp (reconcile_mount oe rc now pods m) (\<lambda>_. tried pods ?k s0) s"
    proof (cases "tried pods ?k s0 s")
      case True
      then show ?thesis
        by (intro wp_mono [OF wp_reconcile_mount [OF assms(1)]])
          (use tried_extend [of s0 s0 "[]"] in \<open>auto dest!: at_most_one_trace\<close>)
    next
      case False
      then have free: "\<not> in_cooldown rc now (lastRecovery s) ?k" using Cons.prems(2) by (simp add: open_for_def)
      obtain es where es: "trace s = trace s0 @ es" using Cons.prems(2) by (auto simp: open_for_def)
      have "wp (reconcile_pod oe rc now mount p) (\<lambda>_. tried pods ?k s0) s"
        by (rule wp_mono [OF wp_reconcile_tried [OF assms(4) p free]])
          (use tried_extend [OF es, of _ _ "[]" pods ?k] in auto)
      then show ?thesis using True assms(3) by (simp add: reconcile_mount_def)
    qed
    then show ?thesis using rest by (auto simp: wp elim!: wp_mono)
  next
    case False
    then have mount: "mount \<in> set stale" using Cons.prems(1) by simp
    have "wp (reconcile_mount oe rc now pods m) (\<lambda>_. open_for rc now pods ?k s0) s"
      by (rule wp_mono [OF wp_reconcile_mount [OF assms(1)]]) (rule open_for_step [OF Cons.prems(2)])
    then show ?thesis using Cons.IH [OF mount] by (auto simp: wp elim!: wp_mono)
  qed
qed simp

section \<open>Properties\<close>


section \<open>An example\<close>

definition found_stale :: stale_mount where
  "found_stale = \<lparr>stale_podUID = ''u1'', stale_volumeName = ''data'', stale_mountPath = csi_dir @ ''/data/mount'',
     stale_reason = None\<rparr>"

definition progress_rc :: reconciler where
  "progress_rc = NewReconciler ''n'' example_driver"

lemma found_recoverable: "recoverable example_op progress_rc found_stale (example_pod ''web-1'' ''u1'')"
proof -
  have "\<not> ShouldSkipPod (example_pod ''web-1'' ''u1'')" by code_simp
  moreover have "always (volumeManagedByProvisioner example_op progress_rc (example_pod ''web-1'' ''u1'') found_stale :: (op_world, bool) state) True"
    unfolding always_def by (intro allI) code_simp
  moreover have "always (ownerAnnotationRateLimited example_op progress_rc (example_pod ''web-1'' ''u1'') now :: (op_world, bool) state) False" for now
    unfolding always_def by (intro allI) code_simp
  moreover have "fst (fst (run_state (confirm_stale example_op progress_rc found_stale) s))" for s :: op_world
    by code_simp
  ultimately show ?thesis by (simp add: recoverable_def)
qed


end
