(* ===== verification/Grpc_Server.thy ===== *)
theory Grpc_Server
  imports Driver
begin

text \<open>
  The life of the gRPC server of a driver (nonBlockingGRPCServer in pkg/rclone/server.go): the goroutine that
  \<open>Start\<close> launches, the wait group and what \<open>Wait\<close>, \<open>Stop\<close> and \<open>ForceStop\<close> do at any time of it.
\<close>

section \<open>State\<close>

text \<open>
  Where the goroutine of \<open>serve\<close> is: it opens its socket, creates and registers the server, gives the wait
  group back (in tests), serves, and returns or ends the process.
\<close>

datatype serving = NotStarted | Opening | Created | Announced | Serving | Returned | Fatal gerr

datatype service = Identity | Controller | Node

record grpc_server =
  wg :: nat
  grpc :: bool \<comment> \<open>\<open>s.server\<close> is set\<close>
  serving :: serving
  services :: "service list"
  stopper :: bool \<comment> \<open>the goroutine that ends a test\<close>
  stops :: nat
  panicked :: bool

definition NewNonBlockingGRPCServer :: grpc_server where
  "NewNonBlockingGRPCServer = \<lparr>wg = 0, grpc = False, serving = NotStarted, services = [], stopper = False, stops = 0,
     panicked = False\<rparr>"

section \<open>Operations\<close>

definition Start :: "grpc_server \<Rightarrow> grpc_server" where
  "Start g = g\<lparr>wg := Suc (wg g), serving := Opening\<rparr>"

text \<open>\<open>Wait\<close> returns when the wait group is empty.\<close>

definition Wait_returns :: "grpc_server \<Rightarrow> bool" where
  "Wait_returns g \<longleftrightarrow> wg g = 0"

text \<open>\<open>Stop\<close> and \<open>ForceStop\<close> call a method of the server, which panics when there is none.\<close>

definition Stop :: "grpc_server \<Rightarrow> grpc_server" where
  "Stop g = (if grpc g then g\<lparr>stops := Suc (stops g)\<rparr> else g\<lparr>panicked := True\<rparr>)"

definition ForceStop :: "grpc_server \<Rightarrow> grpc_server" where
  "ForceStop g = (if grpc g then g\<lparr>stops := Suc (stops g)\<rparr> else g\<lparr>panicked := True\<rparr>)"

text \<open>The services that are given (not nil) are registered before anything is served.\<close>

definition registered :: "bool \<Rightarrow> bool \<Rightarrow> bool \<Rightarrow> service list" where
  "registered ids cs ns = (if ids then [Identity] else []) @ (if cs then [Controller] else []) @ (if ns then [Node] else [])"

definition create_server :: "bool \<Rightarrow> bool \<Rightarrow> bool \<Rightarrow> grpc_server \<Rightarrow> grpc_server" where
  "create_server ids cs ns g = g\<lparr>grpc := True, services := registered ids cs ns, serving := Created\<rparr>"

definition announce :: "bool \<Rightarrow> grpc_server \<Rightarrow> grpc_server" where
  "announce testMode g = (if testMode then g\<lparr>wg := wg g - 1, stopper := True, serving := Announced\<rparr>
     else g\<lparr>serving := Announced\<rparr>)"

section \<open>Steps\<close>

text \<open>
  The goroutine of \<open>serve\<close> moves on its own; \<open>Serve\<close> returns only after a stop, with an error or without. Calls of
  \<open>Stop\<close> and \<open>ForceStop\<close> can come at any time after \<open>Start\<close>, the one of a test's goroutine when the wait
  group is empty. A panic or a fatal error ends the process.
\<close>

inductive grpc_step :: "proc_env \<Rightarrow> string \<Rightarrow> bool \<Rightarrow> grpc_server \<times> process \<Rightarrow> grpc_server \<times> process \<Rightarrow> bool"
  for pe endpoint testMode where
  open_socket: "serving g = Opening \<Longrightarrow> run_state (serve pe endpoint) p = (Inr (), p') \<Longrightarrow> \<not> panicked g \<Longrightarrow>
    grpc_step pe endpoint testMode (g, p) (create_server True True True g, p')"
| open_fails: "serving g = Opening \<Longrightarrow> run_state (serve pe endpoint) p = (Inl e, p') \<Longrightarrow> \<not> panicked g \<Longrightarrow>
    grpc_step pe endpoint testMode (g, p) (g\<lparr>serving := Fatal e\<rparr>, p')"
| announced: "serving g = Created \<Longrightarrow> grpc_step pe endpoint testMode (g, p) (announce testMode g, p)"
| accept: "serving g = Announced \<Longrightarrow> grpc_step pe endpoint testMode (g, p) (g\<lparr>serving := Serving\<rparr>, p)"
| serve_returns: "serving g = Serving \<Longrightarrow> 0 < stops g \<Longrightarrow> grpc_step pe endpoint testMode (g, p) (g\<lparr>serving := Returned\<rparr>, p)"
| serve_fails: "serving g = Serving \<Longrightarrow>
    grpc_step pe endpoint testMode (g, p) (g\<lparr>serving := Fatal (Errorf ''Failed to serve grpc server: %v'' [E e])\<rparr>, p)"
| stop: "serving g \<noteq> NotStarted \<Longrightarrow> \<not> panicked g \<Longrightarrow> grpc_step pe endpoint testMode (g, p) (Stop g, p)"
| force_stop: "serving g \<noteq> NotStarted \<Longrightarrow> \<not> panicked g \<Longrightarrow> grpc_step pe endpoint testMode (g, p) (ForceStop g, p)"
| test_stop: "stopper g \<Longrightarrow> Wait_returns g \<Longrightarrow> grpc_step pe endpoint testMode (g, p) ((Stop g)\<lparr>stopper := False\<rparr>, p)"

inductive_cases grpc_stepE: "grpc_step pe endpoint testMode gp gp'"

section \<open>The invariant\<close>

definition grpc_inv :: "bool \<Rightarrow> grpc_server \<Rightarrow> bool" where
  "grpc_inv testMode g \<longleftrightarrow>
     (serving g \<in> {Opening, Created} \<longrightarrow> wg g = 1 \<and> \<not> stopper g)
     \<and> (serving g \<in> {Announced, Serving, Returned} \<longrightarrow> (wg g = 0 \<longleftrightarrow> testMode))
     \<and> (\<not> testMode \<longrightarrow> 0 < wg g \<and> \<not> stopper g)
     \<and> (serving g \<in> {Created, Announced, Serving, Returned} \<longrightarrow> grpc g \<and> set (services g) = {Identity, Controller, Node})
     \<and> (stopper g \<longrightarrow> grpc g) \<and> (grpc g \<longrightarrow> \<not> panicked g) \<and> (stops g > 0 \<longrightarrow> grpc g)
     \<and> (serving g = Opening \<longrightarrow> \<not> grpc g) \<and> serving g \<noteq> NotStarted"

lemma grpc_inv_step:
  assumes "grpc_step pe endpoint testMode (g, p) (g', p')" and "grpc_inv testMode g"
  shows "grpc_inv testMode g'"
  using assms
  by (cases rule: grpc_step.cases)
    (auto simp: grpc_inv_def create_server_def registered_def announce_def Stop_def ForceStop_def Wait_returns_def)

lemma grpc_inv_reach:
  assumes "(grpc_step pe endpoint testMode)\<^sup>*\<^sup>* (Start NewNonBlockingGRPCServer, p) (g, p')"
  shows "grpc_inv testMode g"
  using assms
proof (induction "(g, p')" arbitrary: g p' rule: rtranclp_induct)
  case base
  show ?case by (simp add: grpc_inv_def Start_def NewNonBlockingGRPCServer_def)
next
  case (step gp)
  then show ?case using grpc_inv_step by (cases gp) blast
qed

lemma early_stop_panics: "panicked (Stop (Start NewNonBlockingGRPCServer))"
  by (simp add: Stop_def Start_def NewNonBlockingGRPCServer_def)

section \<open>Properties\<close>

text \<open>
  The life of the server. Whenever calls are accepted, all three services were registered before;
  outside tests \<open>Wait\<close> never returns, not even after the server was stopped and \<open>Serve\<close> has returned, while in a test
  it returns before the first call is accepted; a \<open>Stop\<close> panics only before the server was created.
\<close>

theorem server_life:
  assumes "(grpc_step pe endpoint testMode)\<^sup>*\<^sup>* (Start NewNonBlockingGRPCServer, p) (g, p')"
  shows "(serving g \<in> {Serving, Returned} \<longrightarrow> set (services g) = {Identity, Controller, Node})
    \<and> (\<not> testMode \<longrightarrow> \<not> Wait_returns g) \<and> (testMode \<and> serving g \<in> {Announced, Serving, Returned} \<longrightarrow> Wait_returns g)
    \<and> (panicked (Stop g) \<longrightarrow> panicked g \<or> \<not> grpc g)"
  using grpc_inv_reach [OF assms] by (auto simp: grpc_inv_def Wait_returns_def Stop_def)

end
