(* ===== verification/Variants.thy ===== *)
theory Variants
  imports World Go_Strings
begin

text \<open>
  The mounter that the tests use (pkg/rclone/fake_mounter.go) and the functions of the operator on other systems
  than Linux (the _other files of pkg/operator), where an orphan mount is left alone.
\<close>

section \<open>The fake mounter\<close>

text \<open>Errors are asked for by the names of the paths. \<open>unmount\<close> is the \<open>Unmount\<close> of mount-utils' fake mounter.\<close>

definition fake_Mount :: "string \<Rightarrow> string \<Rightarrow> gerr option" where
  "fake_Mount source target =
     (if contains_str source ''error_mount'' then Some (Errorf ''fake Mount: source error'' [])
      else if contains_str target ''error_mount'' then Some (Errorf ''fake Mount: target error'' [])
      else None)"

definition fake_MountSensitive :: "string \<Rightarrow> string \<Rightarrow> gerr option" where
  "fake_MountSensitive source target =
     (if contains_str source ''error_mount_sens'' then Some (Errorf ''fake MountSensitive: source error'' [])
      else if contains_str target ''error_mount_sens'' then Some (Errorf ''fake MountSensitive: target error'' [])
      else None)"

definition fake_IsLikelyNotMountPoint :: "string \<Rightarrow> gerr + bool" where
  "fake_IsLikelyNotMountPoint path =
     (if contains_str path ''error_is_likely'' then Inl (Errorf ''fake IsLikelyNotMountPoint: fake error'' [])
      else Inr (\<not> contains_str path ''false_is_likely''))"

definition fake_UnmountWithForce :: "(string \<Rightarrow> gerr option) \<Rightarrow> string \<Rightarrow> int \<Rightarrow> gerr option" where
  "fake_UnmountWithForce unmount target timeout = unmount target"

section \<open>Other systems\<close>

definition other_resolveFuseConnID :: "string \<Rightarrow> gerr + string" where
  "other_resolveFuseConnID path = Inl (Errorf ''fuse conn id lookup unsupported on this platform: %s'' [S path])"

definition other_fuseConnSharedByOtherMount :: "string \<Rightarrow> string \<Rightarrow> gerr + bool" where
  "other_fuseConnSharedByOtherMount path connID = Inr False"

definition other_lazyUmount :: "string \<Rightarrow> gerr option" where
  "other_lazyUmount path = Some (Errorf ''lazy umount unsupported on this platform: %s'' [S path])"

definition other_bestEffortKillMountServer :: "string \<Rightarrow> gerr option" where
  "other_bestEffortKillMountServer path = Some (Errorf ''orphan mount kill unsupported on this platform: %s'' [S path])"

text \<open>What the fake mounter mounts it also mounts with sensitive options.\<close>

lemma fake_Mount_sensitive: "fake_Mount source target = None \<Longrightarrow> fake_MountSensitive source target = None"
proof -
  have "contains_str s ''error_mount_sens'' \<Longrightarrow> contains_str s ''error_mount''" for s
  proof (induction s)
    case Nil
    then show ?case by (simp add: contains_str.simps [of "[]"] hasPrefix_iff)
  next
    case (Cons c s)
    have "hasPrefix (c # s) ''error_mount_sens'' \<Longrightarrow> hasPrefix (c # s) ''error_mount''"
      by (auto simp: hasPrefix_iff)
    then show ?case using Cons by (subst contains_str.simps) (subst (asm) (2) contains_str.simps, auto)
  qed
  then show "fake_Mount source target = None \<Longrightarrow> fake_MountSensitive source target = None"
    by (auto simp: fake_Mount_def fake_MountSensitive_def split: if_splits)
qed

end
