(* ===== verification/Spec2Isabelle.thy ===== *)
theory Spec2Isabelle
  imports
    Prelude
    Go_Strings
    World
    Example_Env
    Volume_Locks
    Params
    Config_Isolation
    Mount_State
    Mount_Health
    Node_State
    Node_Mount
    Node_Publish
    Go_Paths
    Node_Stage
    Node_System
    Call_Spec
    Node_Spec
    Node_Staged
    Op_World
    Op_Scan
    Op_Fuse
    Op_Recovery
    Op_Cooldown
    Op_Orphans
    Op_Watch
    Op_Restart
    Controller
    Metrics
    Publish_Binds
    Logging
    Servers
    Driver
    Op_Boot
    Op_Race
    Op_Progress
    Grpc_Server
    Variants
begin

text \<open>
  The rclone CSI driver (Go, src/): a node plugin that mounts rclone remotes as volumes of
  pods, a controller that creates the volumes, and a volume recovery operator that restarts the
  pods whose mounts have died.

  \<^bold>\<open>The program\<close>. kubelet calls the node server (pkg/rclone/nodeserver.go, nodeserver_stage.go,
  staging.go). A publish merges and checks the parameters of the volume, prepares the target
  directory, builds an INI configuration whose sections are renamed with a per-volume prefix
  (utils.go), loads it into rclone's process-global storage, mounts in a background goroutine
  under a timeout, caches a mount context and persists a mount state in a Secret
  (mount_state.go). A mount that outlives its caller is handed to a reaper, together with
  the volume lock. In staging mode the volume is mounted once per node, on the staging path,
  and pods get binds of it. After a restart the saved states are remounted. Mount health is
  probed with a timeout (mount_health.go).

  The operator (pkg/operator, cmd/volume-recovery-operator) runs on every node. One loop walks
  kubelet's pod volumes, probes the mounts of the driver and deletes the pods whose mount is
  stale, or cleans up a mount whose pod is gone; the other notices that the CSI node pod was
  replaced and deletes the pods that use its volumes. A workload is restarted at most once per
  cooldown, which is kept in memory and as an annotation on the workload's controller.

  The controller (controllerserver.go) only computes: the volume's ID and its context, with the
  template variables of the remote path filled in. The driver process (rclone.go,
  cmd/rcloneplugin) boots the node server, remounts the saved states, registers the metrics
  collector (metrics_collector.go), serves, and on a signal dumps, synchronises or shuts down.

  \<^bold>\<open>How the code is modelled\<close>. Code that runs inside a call is a state monad over a record:
  \<open>world\<close> (the trace of outside calls), extended by \<open>lock_world\<close> (held volume locks) and
  \<open>node\<close> (mount contexts, staged volumes, handed-off mounts). The outside (operating system,
  mount-utils, rclone, the Kubernetes API, pure third-party functions such as the INI reader
  or sha256) is the parameter \<open>env\<close> of World: an answer is a function of the calls made so far,
  so any scripted behaviour of the outside is an instance. Go errors are values of \<open>gerr\<close>, a
  result is \<open>gerr + 'a\<close>; strings are byte strings, maps are association lists.
  \<^item> Prelude: the state monad with weakest preconditions (\<open>wp\<close>), frame rules (\<open>keeps\<close>), \<open>defer\<close>,
    loops, association lists.
  \<^item> Go_Strings, Go_Paths: the functions of Go's strings and path packages that the code uses.
  \<^item> World, Example_Env: outside calls and the trace; a concrete environment for the witnesses.
  \<^item> Volume_Locks: \<open>VolumeLocks\<close> of utils.go and \<open>acquireVolumeLock\<close>; the locale \<open>lock_table\<close> is the
    contract of a lock table, interpreted on the code's operations.
  \<^item> Params: validation, flag normalisation, merging and extraction of volume parameters.
  \<^item> Config_Isolation: INI sections, per-volume renaming, loading into rclone's storage.
  \<^item> Mount_State: the Secret form of a mount state and its storage.
  \<^item> Mount_Health: probes; the probe with a deadline as a system of concurrent callers.
  \<^item> Node_State: the caches; the locale \<open>keyed_cache\<close> is interpreted on both of them.
  \<^item> Node_Mount: target directories, rclone options, mounting, the VFS cache wait, unmounting.
  \<^item> Node_Publish: \<open>nodePublishVolumeDirect\<close>, the reaper, unpublishing, statistics, shutdown.
  \<^item> Node_Stage: staging, publishing from a staged mount, remounting of saved states.
  \<^item> Node_System: the node server as a step relation over whole calls; its lock invariant. Call_Spec:
    the contract between a server and an abstract one, as locales. Node_Spec and Node_Staged interpret them:
    without staging the abstract server is the mounted targets and pending mounts, with staging the set of staged volumes.
  \<^item> Op_World: pods, files and processes as the operator sees them; \<open>op_env\<close> extends the outside by
    what the operator calls; kinds of calls, by what they change.
  \<^item> Op_Scan: \<open>scanner.go\<close> and \<open>vol_data.go\<close>; Op_Fuse: mountinfo, FUSE connections, lazy unmounts and
    process signals; Op_Recovery: the \<open>Reconciler\<close> with its settings (\<open>reconciler\<close>) and state (\<open>op_world\<close>).
  \<^item> Op_Cooldown: what one reconciliation restarts; Op_Progress: what it cannot fail to restart;
    Op_Orphans: what it may do at all.
  \<^item> Op_Watch: the tracker of the CSI pod, the handlers and the step relation of the operator;
    Op_Restart: detection and acknowledgement of a CSI restart, the annotation on the controller;
    Op_Boot: the flags of the operator's main and what it configures from them. Op_Race: the two loops
    as they interleave, a step being what one of them does between the sections under the mutex.
  \<^item> Controller: \<open>CreateVolume\<close>, templates, endpoints. Metrics: the collector; one collection is a list
    of metrics. Publish_Binds: the refresh of the publish binds of a staged volume (staging.go).
  \<^item> Logging: the handler of logging.go; Servers: the metrics and RC servers (internal/), the Kubernetes
    client, the version; Driver: capabilities, identity, boot, signals and shutdown over the state
    \<open>process\<close>, which holds that of the node server (\<open>on_node\<close> runs its operations inside);
    Grpc_Server: the goroutine of server.go and its wait group. Variants: the fake mounter of the tests
    and the operator's functions on other systems.

  \<^bold>\<open>What the lemmas show\<close>. Per operation: what a run returns and leaves on every branch
  (the \<open>_outcome\<close>, \<open>_success\<close> theorems), which components it never touches (\<open>keeps\<close>), which
  outside calls it can make (\<open>adds\<close>). Across operations: the lock of a volume is held between
  calls exactly by its orphan mounts, and the reapers free them all (Node_System); every
  sequence of calls is a run of the abstract server: without staging a published target stays
  mounted until it is unpublished (Node_Spec), with staging the two caches agree and a staged volume
  is not affected by calls for others (Node_Staged; kubelet's rule that each volume has a staging path of
  its own is a hypothesis); a saved
  state is loaded back with all fields, and remounting it uses the parameters the volume was
  mounted with; configuration sections are loaded and removed together and disjoint
  between volumes. Over any run of the operator two deletions of a workload are a cooldown
  apart, only pods that may be restarted are deleted, and connections, mounts and processes are
  touched only for mounts whose pod is gone (Op_Watch, Op_Orphans). When the loops overlap the cooldown
  does not hold, but at most two pods of a workload are deleted within it, less the time of a reconciliation (Op_Race).
  A stale mount of a pod that may be restarted leads to the deletion of a pod of its workload in the
  reconciliation that finds it, whatever becomes of the other mounts (Op_Progress). A created volume is published
  with the path it was created with (Controller); a collection emits described metrics only, none
  twice, and sums per volume (Metrics); the refresh of binds never looks into a mount (Publish_Binds);
  a process serves after it tried to remount, and stops serving before it unmounts (Driver). Several theorems state behaviour that is surprising, with the inputs that
  show it: \<open>rewriteRemoteReferences\<close> on overlapping names, sections left by a failing load,
  secret names that ignore the node, the sections shared by two targets of a volume.

  \<^bold>\<open>Bounds\<close>. The five attempts of \<open>acquireVolumeLock\<close> and the five rounds of the cache wait
  are structural recursion on the remaining attempts, as in the code. The operator's loops that
  the clock ends have a number of rounds: eleven polls of 20 ms for a process that was sent a
  signal, which are proved to reach the deadline of 200 ms (\<open>kill_wait_terminates\<close>); one round more than
  the ticks that fit into the timeout for the wait for a ready pod and for the annotation of a
  replacement. Machine integers: the \<open>int64\<close> arithmetic of \<open>NodeGetVolumeStats\<close> is done on
  \<open>64 word\<close>; the code's other integers are small counters and durations.

  \<^bold>\<open>Not modelled\<close>. Log lines, gRPC plumbing, serving HTTP, the parsing of the command line, the registration of rclone's
  own collector, Go's memory model
  (the mutexes make each cache access atomic), the contents of rclone and Kubernetes. One
  operation runs as one sequence of steps; other goroutines act on the lock table while it
  sleeps (\<open>lock_others\<close>), and interleavings of whole calls are those of Node_System. The two
  loops of the operator are handlers that do not overlap in Op_Watch, and interleave in Op_Race, where
  the steps between two looks at shared memory are one step.
\<close>

end
